theory Spec2Isabelle
  imports Complex_Main
begin

section \<open>Board.js: board representation\<close>

text \<open>
  Piece codes are the two-character strings \<^verbatim>\<open>"wP"\<close> ... \<^verbatim>\<open>"bK"\<close>: a colour letter
  followed by a type letter. A board slot holds a piece code or \<^verbatim>\<open>null\<close>.
\<close>

datatype color = White | Black

datatype ptype = Pawn | Knight | Bishop | Rook | Queen | King

datatype piece = Piece color ptype

type_synonym board = "piece option list"

datatype error =
    InvalidSquare  \<comment> \<open>\<^verbatim>\<open>throw new Error(`Invalid square: ...`)\<close> of algebraicToIndex\<close>
  | TypeError      \<comment> \<open>reading a property of \<^verbatim>\<open>null\<close> or \<^verbatim>\<open>undefined\<close>\<close>
  | OutsideModel   \<comment> \<open>no exception of the source: the source goes on with an index that is
                      \<^verbatim>\<open>NaN\<close> or not a board index, where this model stops following it\<close>

definition bindE :: "error + 'a \<Rightarrow> ('a \<Rightarrow> error + 'b) \<Rightarrow> error + 'b" where
  "bindE r f = (case r of Inl e \<Rightarrow> Inl e | Inr x \<Rightarrow> f x)"

fun typeOf :: "piece \<Rightarrow> ptype" where
  "typeOf (Piece c t) = t"

fun typeLetter :: "ptype \<Rightarrow> char" where
  "typeLetter Pawn = CHR ''P''"
| "typeLetter Knight = CHR ''N''"
| "typeLetter Bishop = CHR ''B''"
| "typeLetter Rook = CHR ''R''"
| "typeLetter Queen = CHR ''Q''"
| "typeLetter King = CHR ''K''"

fun colorPrefix :: "color \<Rightarrow> char" where
  "colorPrefix White = CHR ''w''"
| "colorPrefix Black = CHR ''b''"

fun pieceCode :: "piece \<Rightarrow> string" where
  "pieceCode (Piece c t) = [colorPrefix c, typeLetter t]"

fun colorName :: "color \<Rightarrow> string" where
  "colorName White = ''white''"
| "colorName Black = ''black''"

text \<open>\<^verbatim>\<open>board[i]\<close>: a read past the end of the array is \<^verbatim>\<open>undefined\<close>, which every test
  of the source treats like \<^verbatim>\<open>null\<close>.\<close>

definition bget :: "board \<Rightarrow> nat \<Rightarrow> piece option" where
  "bget b i = (if i < length b then b ! i else None)"

text \<open>\<^verbatim>\<open>board[i] = v\<close>: a write past the end extends the array, the slots in between
  being holes.\<close>

definition bset :: "board \<Rightarrow> nat \<Rightarrow> piece option \<Rightarrow> board" where
  "bset b i v =
     (if i < length b then b[i := v] else b @ replicate (i - length b) None @ [v])"

text \<open>\<^verbatim>\<open>board[i] = null\<close> at a computed index that may be negative: a negative index sets a
  property of the array object to \<^verbatim>\<open>null\<close> and changes no element.\<close>

definition bclear :: "board \<Rightarrow> int \<Rightarrow> board" where
  "bclear b i = (if i < 0 then b else bset b (nat i) None)"

definition FILES :: string where
  "FILES = ''abcdefgh''"

fun digitChar :: "nat \<Rightarrow> char" where
  "digitChar d = char_of (48 + d)"

fun showNat :: "nat \<Rightarrow> string" where
  "showNat n = (if n < 10 then [digitChar n] else showNat (n div 10) @ [digitChar (n mod 10)])"

declare showNat.simps [simp del]

definition showInt :: "int \<Rightarrow> string" where
  "showInt i = (if i < 0 then CHR ''-'' # showNat (nat (- i)) else showNat (nat i))"

definition frToIndex :: "nat \<Rightarrow> nat \<Rightarrow> nat" where
  "frToIndex file rank = rank * 8 + file"

definition indexToFR :: "nat \<Rightarrow> nat \<times> nat" where
  "indexToFR index = (index mod 8, index div 8)"

definition indexToAlgebraic :: "nat \<Rightarrow> string" where
  "indexToAlgebraic index =
     (case indexToFR index of (file, rank) \<Rightarrow> (FILES ! file) # showNat (rank + 1))"

text \<open>\<^verbatim>\<open>FILES.indexOf(fileChar)\<close>, with \<open>None\<close> for \<^verbatim>\<open>-1\<close>.\<close>

fun indexOfFrom :: "nat \<Rightarrow> char \<Rightarrow> string \<Rightarrow> nat option" where
  "indexOfFrom k c [] = None"
| "indexOfFrom k c (x # xs) = (if x = c then Some k else indexOfFrom (Suc k) c xs)"

text \<open>\<^verbatim>\<open>Number(rankChar)\<close> of a one-character string: a digit is its value, a white-space
  character is \<^verbatim>\<open>0\<close> (the string is empty once trimmed), anything else is \<^verbatim>\<open>NaN\<close>
  (\<open>None\<close>).\<close>

definition numberOfChar :: "char \<Rightarrow> int option" where
  "numberOfChar c =
     (let n = (of_char c :: nat) in
      if 48 \<le> n \<and> n \<le> 57 then Some (int n - 48)
      else if n \<in> {9, 10, 11, 12, 13, 32, 160} then Some 0
      else None)"

text \<open>
  algebraicToIndex throws on a string that is not two characters long, on a file letter
  outside \<^verbatim>\<open>a\<close>..\<^verbatim>\<open>h\<close> and on a rank outside 1..8. Where the rank character is not
  numeric, \<^verbatim>\<open>rank\<close> is \<^verbatim>\<open>NaN\<close>, both comparisons \<^verbatim>\<open>rank < 0\<close> and \<^verbatim>\<open>rank > 7\<close>
  are false, and the function returns \<^verbatim>\<open>NaN\<close>: that is \<open>OutsideModel\<close>.
\<close>

definition algebraicToIndex :: "string \<Rightarrow> error + nat" where
  "algebraicToIndex sq =
     (if length sq \<noteq> 2 then Inl InvalidSquare
      else
        (case indexOfFrom 0 (sq ! 0) FILES of
           None \<Rightarrow> Inl InvalidSquare
         | Some file \<Rightarrow>
             (case numberOfChar (sq ! 1) of
                None \<Rightarrow> Inl OutsideModel
              | Some n \<Rightarrow>
                  (let rank = n - 1 in
                   if rank < 0 \<or> rank > 7 then Inl InvalidSquare
                   else Inr (frToIndex file (nat rank))))))"

fun getColorOf :: "piece option \<Rightarrow> color option" where
  "getColorOf None = None"
| "getColorOf (Some (Piece c t)) = Some c"

fun oppositeColor :: "color \<Rightarrow> color" where
  "oppositeColor White = Black"
| "oppositeColor Black = White"

definition cloneBoard :: "board \<Rightarrow> board" where
  "cloneBoard b = b"

definition emptyBoard :: board where
  "emptyBoard = replicate 64 None"

text \<open>\<^verbatim>\<open>place(square, piece)\<close> of createStartingBoard, on literal squares.\<close>

definition place :: "string \<Rightarrow> piece \<Rightarrow> board \<Rightarrow> error + board" where
  "place sq p b = bindE (algebraicToIndex sq) (\<lambda>i. Inr (bset b i (Some p)))"

fun placeAll :: "(string \<times> piece) list \<Rightarrow> board \<Rightarrow> error + board" where
  "placeAll [] b = Inr b"
| "placeAll ((sq, p) # rest) b = bindE (place sq p b) (placeAll rest)"

definition createStartingBoard :: "error + board" where
  "createStartingBoard =
     placeAll
       ([(''a1'', Piece White Rook), (''h1'', Piece White Rook),
         (''b1'', Piece White Knight), (''g1'', Piece White Knight),
         (''c1'', Piece White Bishop), (''f1'', Piece White Bishop),
         (''d1'', Piece White Queen), (''e1'', Piece White King)]
        @ map (\<lambda>f. ([f, CHR ''2''], Piece White Pawn)) FILES
        @ [(''a8'', Piece Black Rook), (''h8'', Piece Black Rook),
           (''b8'', Piece Black Knight), (''g8'', Piece Black Knight),
           (''c8'', Piece Black Bishop), (''f8'', Piece Black Bishop),
           (''d8'', Piece Black Queen), (''e8'', Piece Black King)]
        @ map (\<lambda>f. ([f, CHR ''7''], Piece Black Pawn)) FILES)
       emptyBoard"

section \<open>Move.js: the move record and its constructors\<close>

text \<open>An absent flag (\<^verbatim>\<open>undefined\<close>) is \<open>False\<close>; an absent \<^verbatim>\<open>captured\<close> or
  \<^verbatim>\<open>promotion\<close> is \<open>None\<close>.\<close>

record move =
  "from" :: string
  to :: string
  piece :: "piece option"
  captured :: "piece option"
  promotion :: "ptype option"
  isEnPassant :: bool
  isCastleKingSide :: bool
  isCastleQueenSide :: bool

definition createMove :: "string \<Rightarrow> string \<Rightarrow> piece option \<Rightarrow> piece option \<Rightarrow> move" where
  "createMove f t p c =
     \<lparr>from = f, to = t, piece = p, captured = c, promotion = None,
      isEnPassant = False, isCastleKingSide = False, isCastleQueenSide = False\<rparr>"

definition createPromotionMove ::
  "string \<Rightarrow> string \<Rightarrow> piece option \<Rightarrow> ptype \<Rightarrow> piece option \<Rightarrow> move" where
  "createPromotionMove f t p promo c =
     \<lparr>from = f, to = t, piece = p, captured = c, promotion = Some promo,
      isEnPassant = False, isCastleKingSide = False, isCastleQueenSide = False\<rparr>"

definition createEnPassantMove :: "string \<Rightarrow> string \<Rightarrow> piece option \<Rightarrow> piece option \<Rightarrow> move" where
  "createEnPassantMove f t p c =
     \<lparr>from = f, to = t, piece = p, captured = c, promotion = None,
      isEnPassant = True, isCastleKingSide = False, isCastleQueenSide = False\<rparr>"

definition createCastleMove :: "string \<Rightarrow> string \<Rightarrow> piece option \<Rightarrow> bool \<Rightarrow> move" where
  "createCastleMove f t p kingSide =
     \<lparr>from = f, to = t, piece = p, captured = None, promotion = None,
      isEnPassant = False, isCastleKingSide = kingSide, isCastleQueenSide = (\<not> kingSide)\<rparr>"

section \<open>The position records\<close>

record sideRights =
  kingSide :: bool
  queenSide :: bool

record castling =
  white :: sideRights
  black :: sideRights

fun rightsOf :: "castling \<Rightarrow> color \<Rightarrow> sideRights" where
  "rightsOf cr White = white cr"
| "rightsOf cr Black = black cr"

text \<open>
  The object the rules module reads: the four fields of \<^verbatim>\<open>asRulesState()\<close>. A SearchState
  and a GameState carry the same four fields and more, so they extend this record and every
  function of the rules module takes any of them.
\<close>

record rulesState =
  board :: board
  activeColor :: color
  castlingRights :: castling
  enPassantTarget :: "string option"

section \<open>Evaluator.js: static evaluation\<close>

fun PIECE_VALUES :: "ptype \<Rightarrow> int" where
  "PIECE_VALUES Pawn = 100"
| "PIECE_VALUES Knight = 320"
| "PIECE_VALUES Bishop = 330"
| "PIECE_VALUES Rook = 500"
| "PIECE_VALUES Queen = 900"
| "PIECE_VALUES King = 0"

definition PST_PAWN :: "int list" where
  "PST_PAWN =
    [ 0,  0,  0,  0,  0,  0,  0,  0,
     40, 50, 50, 60, 60, 50, 50, 40,
     10, 10, 20, 35, 35, 20, 10, 10,
      5,  5, 10, 25, 25, 10,  5,  5,
      0,  0,  5, 20, 20,  5,  0,  0,
      5, -5,-10,  0,  0,-10, -5,  5,
      5, 10, 10,-20,-20, 10, 10,  5,
      0,  0,  0,  0,  0,  0,  0,  0]"

definition PST_KNIGHT :: "int list" where
  "PST_KNIGHT =
    [-50,-40,-30,-30,-30,-30,-40,-50,
     -40,-20,  0,  0,  0,  0,-20,-40,
     -30,  0, 10, 15, 15, 10,  0,-30,
     -30,  5, 15, 20, 20, 15,  5,-30,
     -30,  0, 15, 20, 20, 15,  0,-30,
     -30,  5, 10, 15, 15, 10,  5,-30,
     -40,-20,  0,  5,  5,  0,-20,-40,
     -50,-40,-30,-30,-30,-30,-40,-50]"

definition PST_BISHOP :: "int list" where
  "PST_BISHOP =
    [-20,-10,-10,-10,-10,-10,-10,-20,
     -10,  5,  0,  0,  0,  0,  5,-10,
     -10, 10, 10, 10, 10, 10, 10,-10,
     -10,  0, 10, 10, 10, 10,  0,-10,
     -10,  5,  5, 10, 10,  5,  5,-10,
     -10,  0,  5, 10, 10,  5,  0,-10,
     -10,  0,  0,  0,  0,  0,  0,-10,
     -20,-10,-10,-10,-10,-10,-10,-20]"

definition PST_ROOK :: "int list" where
  "PST_ROOK =
    [ 0,  0,  5, 10, 10,  5,  0,  0,
     -5,  0,  0,  0,  0,  0,  0, -5,
     -5,  0,  0,  0,  0,  0,  0, -5,
     -5,  0,  0,  0,  0,  0,  0, -5,
     -5,  0,  0,  0,  0,  0,  0, -5,
     -5,  0,  0,  0,  0,  0,  0, -5,
      5, 10, 10, 10, 10, 10, 10,  5,
      0,  0,  0,  0,  0,  0,  0,  0]"

definition PST_QUEEN :: "int list" where
  "PST_QUEEN =
    [-20,-10,-10, -5, -5,-10,-10,-20,
     -10,  0,  5,  0,  0,  0,  0,-10,
     -10,  5,  5,  5,  5,  5,  0,-10,
      -5,  0,  5,  5,  5,  5,  0, -5,
       0,  0,  5,  5,  5,  5,  0, -5,
     -10,  5,  5,  5,  5,  5,  0,-10,
     -10,  0,  5,  0,  0,  0,  0,-10,
     -20,-10,-10, -5, -5,-10,-10,-20]"

definition PST_KING :: "int list" where
  "PST_KING =
    [-30,-40,-40,-50,-50,-40,-40,-30,
     -30,-40,-40,-50,-50,-40,-40,-30,
     -30,-40,-40,-50,-50,-40,-40,-30,
     -30,-40,-40,-50,-50,-40,-40,-30,
     -20,-30,-30,-40,-40,-30,-30,-20,
     -10,-20,-20,-20,-20,-20,-20,-10,
      20, 20,  0,  0,  0,  0, 20, 20,
      20, 30, 10,  0,  0, 10, 30, 20]"

fun pstIndex :: "nat \<Rightarrow> color \<Rightarrow> nat" where
  "pstIndex index White = index"
| "pstIndex index Black =
     (let file = index mod 8; rank = index div 8; mirroredRank = 7 - rank
      in mirroredRank * 8 + file)"

fun pstTable :: "ptype \<Rightarrow> int list" where
  "pstTable Pawn = PST_PAWN"
| "pstTable Knight = PST_KNIGHT"
| "pstTable Bishop = PST_BISHOP"
| "pstTable Rook = PST_ROOK"
| "pstTable Queen = PST_QUEEN"
| "pstTable King = PST_KING"

text \<open>One turn of the loop of \<^verbatim>\<open>evaluate\<close>, for the square \<open>i\<close> (below 64, so that the
  table index is below 64 too).\<close>

definition evaluateStep :: "board \<Rightarrow> color \<Rightarrow> int \<Rightarrow> nat \<Rightarrow> int" where
  "evaluateStep b color score i =
     (case bget b i of
        None \<Rightarrow> score
      | Some (Piece pc type) \<Rightarrow>
          (let base = PIECE_VALUES type;
               pst = pstTable type ! pstIndex i pc;
               pieceScore = base + pst
           in score + (if pc = color then pieceScore else - pieceScore)))"

definition evaluate :: "'a rulesState_scheme \<Rightarrow> color \<Rightarrow> int" where
  "evaluate state color = foldl (evaluateStep (board state) color) 0 [0..<64]"

section \<open>Rules.js: move generation and legality\<close>

text \<open>Loops that collect moves and may be left by an exception: the first error wins.\<close>

fun concatMapE :: "('a \<Rightarrow> error + 'b list) \<Rightarrow> 'a list \<Rightarrow> error + 'b list" where
  "concatMapE f [] = Inr []"
| "concatMapE f (x # xs) =
     bindE (f x) (\<lambda>ys. bindE (concatMapE f xs) (\<lambda>zs. Inr (ys @ zs)))"

fun filterE :: "('a \<Rightarrow> error + bool) \<Rightarrow> 'a list \<Rightarrow> error + 'a list" where
  "filterE f [] = Inr []"
| "filterE f (x # xs) =
     bindE (f x) (\<lambda>keep. bindE (filterE f xs) (\<lambda>zs. Inr (if keep then x # zs else zs)))"

definition offBoard :: "int \<Rightarrow> int \<Rightarrow> bool" where
  "offBoard f r = (f < 0 \<or> f > 7 \<or> r < 0 \<or> r > 7)"

text \<open>\<^verbatim>\<open>rank * 8 + file\<close> for a file and a rank that passed the bounds tests.\<close>

definition sqIndex :: "int \<Rightarrow> int \<Rightarrow> nat" where
  "sqIndex f r = nat (r * 8 + f)"

subsection \<open>Attack and check helpers\<close>

definition findKingSquare :: "board \<Rightarrow> color \<Rightarrow> string option" where
  "findKingSquare b color =
     (let kingCode = (if color = White then Piece White King else Piece Black King)
      in map_option indexToAlgebraic (find (\<lambda>i. bget b i = Some kingCode) [0..<64]))"

text \<open>
  The \<^verbatim>\<open>while\<close> loop of a sliding attacker: walk from the square next to the attacker
  towards the target; the result is \<^verbatim>\<open>!blocked && f === tf && r === tr\<close>. The caller enters
  the loop only with a step that is not (0, 0); with that step the source's loop would not
  end, and the branch for it here is never taken.
\<close>

function rayReaches :: "board \<Rightarrow> int \<Rightarrow> int \<Rightarrow> int \<Rightarrow> int \<Rightarrow> int \<Rightarrow> int \<Rightarrow> bool" where
  "rayReaches b f r stepF stepR tf tr =
     (if f = tf \<and> r = tr then True
      else if offBoard f r then False
      else if bget b (sqIndex f r) \<noteq> None then False
      else if stepF = 0 \<and> stepR = 0 then False
      else rayReaches b (f + stepF) (r + stepR) stepF stepR tf tr)"
  by pat_completeness auto
termination
  by (relation "measure (\<lambda>(b, f, r, stepF, stepR, tf, tr).
        if stepF > 0 then nat (8 - f) else if stepF < 0 then nat (f + 1)
        else if stepR > 0 then nat (8 - r) else nat (r + 1))")
     (auto simp: offBoard_def)

declare rayReaches.simps [simp del]

definition slidingStep :: "ptype \<Rightarrow> int \<Rightarrow> int \<Rightarrow> int \<times> int" where
  "slidingStep type df dr =
     (let adf = \<bar>df\<bar>; adr = \<bar>dr\<bar>;
          s0 = (0, 0);
          s1 = (if (type = Bishop \<or> type = Queen) \<and> adf = adr \<and> adf > 0
                then (if df > 0 then 1 else - 1, if dr > 0 then 1 else - 1) else s0);
          s2 = (if type = Rook \<or> type = Queen
                then (if df = 0 \<and> adr > 0 then (0, if dr > 0 then 1 else - 1)
                      else if dr = 0 \<and> adf > 0 then (if df > 0 then 1 else - 1, 0)
                      else s1)
                else s1)
      in s2)"

text \<open>One turn of the loop of squareAttackedBy: does the piece on square \<open>i\<close> attack the
  target (file \<open>tf\<close>, rank \<open>tr\<close>)?\<close>

definition attacksFrom :: "board \<Rightarrow> int \<Rightarrow> int \<Rightarrow> color \<Rightarrow> nat \<Rightarrow> bool" where
  "attacksFrom b tf tr attackerColor i =
     (case bget b i of
        None \<Rightarrow> False
      | Some pc \<Rightarrow>
          if getColorOf (Some pc) \<noteq> Some attackerColor then False
          else
            (let file = int (fst (indexToFR i)); rank = int (snd (indexToFR i)) in
             case typeOf pc of
               Pawn \<Rightarrow>
                 (let dir = (if attackerColor = White then 1 else - 1);
                      captureRanks = rank + dir
                  in captureRanks = tr \<and> \<bar>file - tf\<bar> = 1)
             | Knight \<Rightarrow>
                 (let df = \<bar>file - tf\<bar>; dr = \<bar>rank - tr\<bar>
                  in (df = 1 \<and> dr = 2) \<or> (df = 2 \<and> dr = 1))
             | King \<Rightarrow> max \<bar>file - tf\<bar> \<bar>rank - tr\<bar> = 1
             | type \<Rightarrow>
                 (case slidingStep type (tf - file) (tr - rank) of
                    (stepF, stepR) \<Rightarrow>
                      if stepF \<noteq> 0 \<or> stepR \<noteq> 0
                      then rayReaches b (file + stepF) (rank + stepR) stepF stepR tf tr
                      else False)))"

definition attackedAt :: "board \<Rightarrow> nat \<Rightarrow> color \<Rightarrow> bool" where
  "attackedAt b targetIndex attackerColor =
     (case indexToFR targetIndex of
        (tf, tr) \<Rightarrow> list_ex (attacksFrom b (int tf) (int tr) attackerColor) [0..<64])"

definition squareAttackedBy :: "'a rulesState_scheme \<Rightarrow> string \<Rightarrow> color \<Rightarrow> error + bool" where
  "squareAttackedBy state targetSq attackerColor =
     bindE (algebraicToIndex targetSq)
       (\<lambda>targetIndex. Inr (attackedAt (board state) targetIndex attackerColor))"

definition isInCheck :: "'a rulesState_scheme \<Rightarrow> color option \<Rightarrow> error + bool" where
  "isInCheck state colorOverride =
     (let color = (case colorOverride of Some c \<Rightarrow> c | None \<Rightarrow> activeColor state);
          enemy = oppositeColor color
      in case findKingSquare (board state) color of
           None \<Rightarrow> Inr False
         | Some kingSquare \<Rightarrow> squareAttackedBy state kingSquare enemy)"

subsection \<open>Piece-specific generators\<close>

definition promoPieces :: "ptype list" where
  "promoPieces = [Queen, Rook, Bishop, Knight]"

definition addPawnAdvance :: "string \<Rightarrow> nat \<Rightarrow> nat \<Rightarrow> color \<Rightarrow> int \<Rightarrow> int \<Rightarrow> move list" where
  "addPawnAdvance fromSq fromIndex toIndex color promotionRank lastRank =
     (let pc = Some (Piece color Pawn);
          toSq = indexToAlgebraic toIndex;
          rank = int (snd (indexToFR fromIndex))
      in if rank = promotionRank
         then map (\<lambda>promo. createPromotionMove fromSq toSq pc promo None) promoPieces
         else [createMove fromSq toSq pc None])"

definition addPawnCapture ::
  "string \<Rightarrow> nat \<Rightarrow> nat \<Rightarrow> color \<Rightarrow> piece option \<Rightarrow> int \<Rightarrow> int \<Rightarrow> move list" where
  "addPawnCapture fromSq fromIndex toIndex color capturedPiece promotionRank lastRank =
     (let pc = Some (Piece color Pawn);
          toSq = indexToAlgebraic toIndex;
          rank = int (snd (indexToFR fromIndex))
      in if rank = promotionRank
         then map (\<lambda>promo. createPromotionMove fromSq toSq pc promo capturedPiece) promoPieces
         else [createMove fromSq toSq pc capturedPiece])"

text \<open>The body of the loop over the two capture files of generatePawnMoves. \<open>epIndex\<close> is
  \<open>None\<close> where the source has \<^verbatim>\<open>-1\<close> (no en-passant target).\<close>

definition pawnCaptures ::
  "board \<Rightarrow> nat \<Rightarrow> string \<Rightarrow> int \<Rightarrow> int \<Rightarrow> color \<Rightarrow> color \<Rightarrow> nat option \<Rightarrow> int \<Rightarrow> int \<Rightarrow> int
   \<Rightarrow> move list" where
  "pawnCaptures b fromIndex fromSq rank dir color enemy epIndex promotionRank lastRank cf =
     (if cf < 0 \<or> cf > 7 then []
      else
        (let targetRank = rank + dir in
         if targetRank < 0 \<or> targetRank > 7 then []
         else
           (let targetIndex = sqIndex cf targetRank;
                targetPiece = bget b targetIndex
            in (if targetPiece \<noteq> None \<and> getColorOf targetPiece = Some enemy
                then addPawnCapture fromSq fromIndex targetIndex color targetPiece
                       promotionRank lastRank
                else [])
               @ (if epIndex = Some targetIndex \<and> targetPiece = None
                  then
                    (let epPawnRank = rank;
                         epPawnIndex = sqIndex cf epPawnRank;
                         capt = bget b epPawnIndex
                     in if capt \<noteq> None \<and> getColorOf capt = Some enemy
                        then [createEnPassantMove fromSq (indexToAlgebraic targetIndex)
                                (bget b fromIndex) capt]
                        else [])
                  else []))))"

definition generatePawnMoves ::
  "'a rulesState_scheme \<Rightarrow> nat \<Rightarrow> string \<Rightarrow> int \<Rightarrow> int \<Rightarrow> color \<Rightarrow> color \<Rightarrow> nat option
   \<Rightarrow> move list" where
  "generatePawnMoves state fromIndex fromSq file rank color enemy epIndex =
     (let b = board state;
          dir = (if color = White then 1 else - 1);
          startRank = (if color = White then 1 else 6);
          promotionRank = (if color = White then 6 else 1);
          lastRank = (if color = White then 7 else 0);
          oneStepRank = rank + dir;
          pushes =
            (if oneStepRank \<ge> 0 \<and> oneStepRank \<le> 7
             then
               (let oneStepIndex = sqIndex file oneStepRank in
                if bget b oneStepIndex = None
                then addPawnAdvance fromSq fromIndex oneStepIndex color promotionRank lastRank
                     @ (if rank = startRank
                        then
                          (let twoStepRank = rank + 2 * dir;
                               twoStepIndex = sqIndex file twoStepRank
                           in if bget b twoStepIndex = None
                              then [createMove fromSq (indexToAlgebraic twoStepIndex)
                                      (bget b fromIndex) None]
                              else [])
                        else [])
                else [])
             else []);
          captureFiles = [file - 1, file + 1]
      in pushes
         @ concat (map (pawnCaptures b fromIndex fromSq rank dir color enemy epIndex
                          promotionRank lastRank) captureFiles))"

definition knightJumps :: "(int \<times> int) list" where
  "knightJumps = [(1, 2), (2, 1), (2, - 1), (1, - 2), (- 1, - 2), (- 2, - 1), (- 2, 1), (- 1, 2)]"

text \<open>The body shared by the loops of generateKnightMoves and generateKingMoves: a step
  to an empty square or onto a piece of the other colour.\<close>

definition stepMove :: "board \<Rightarrow> nat \<Rightarrow> string \<Rightarrow> color \<Rightarrow> int \<times> int \<Rightarrow> move list" where
  "stepMove b fromIndex fromSq color d =
     (case d of
        (df, dr) \<Rightarrow>
          (let nf = int (fst (indexToFR fromIndex)) + df;
               nr = int (snd (indexToFR fromIndex)) + dr
           in if nf < 0 \<or> nf > 7 \<or> nr < 0 \<or> nr > 7 then []
              else
                (let toIndex = sqIndex nf nr; target = bget b toIndex in
                 if target = None \<or> getColorOf target \<noteq> Some color
                 then [createMove fromSq (indexToAlgebraic toIndex) (bget b fromIndex) target]
                 else [])))"

definition generateKnightMoves :: "board \<Rightarrow> nat \<Rightarrow> string \<Rightarrow> color \<Rightarrow> move list" where
  "generateKnightMoves b fromIndex fromSq color =
     concat (map (stepMove b fromIndex fromSq color) knightJumps)"

definition kingSteps :: "(int \<times> int) list" where
  "kingSteps =
     filter (\<lambda>(df, dr). \<not> (df = 0 \<and> dr = 0))
       (concat (map (\<lambda>df. map (\<lambda>dr. (df, dr)) [- 1, 0, 1]) [- 1, 0, 1]))"

definition generateKingMoves :: "board \<Rightarrow> nat \<Rightarrow> string \<Rightarrow> color \<Rightarrow> move list" where
  "generateKingMoves b fromIndex fromSq color =
     concat (map (stepMove b fromIndex fromSq color) kingSteps)"

text \<open>
  The \<^verbatim>\<open>while (true)\<close> loop of generateSlidingMoves along one direction, entered with the
  file and rank of the square reached so far. Every direction the source passes is not
  (0, 0); for (0, 0) the source's loop would not end, and the branch for it here is never
  taken.
\<close>

function slideRay ::
  "board \<Rightarrow> nat \<Rightarrow> string \<Rightarrow> color \<Rightarrow> int \<Rightarrow> int \<Rightarrow> int \<Rightarrow> int \<Rightarrow> move list" where
  "slideRay b fromIndex fromSq color df dr file rank =
     (let f = file + df; r = rank + dr in
      if offBoard f r then []
      else if df = 0 \<and> dr = 0 then []
      else
        (let toIndex = sqIndex f r; target = bget b toIndex in
         if target = None
         then createMove fromSq (indexToAlgebraic toIndex) (bget b fromIndex) None
              # slideRay b fromIndex fromSq color df dr f r
         else if getColorOf target \<noteq> Some color
         then [createMove fromSq (indexToAlgebraic toIndex) (bget b fromIndex) target]
         else []))"
  by pat_completeness auto
termination
  by (relation "measure (\<lambda>(b, fromIndex, fromSq, color, df, dr, file, rank).
        if df > 0 then nat (8 - file) else if df < 0 then nat (file + 1)
        else if dr > 0 then nat (8 - rank) else nat (rank + 1))")
     (auto simp: offBoard_def)

declare slideRay.simps [simp del]

definition generateSlidingMoves ::
  "board \<Rightarrow> nat \<Rightarrow> string \<Rightarrow> color \<Rightarrow> (int \<times> int) list \<Rightarrow> move list" where
  "generateSlidingMoves b fromIndex fromSq color dirs =
     concat (map (\<lambda>(df, dr). slideRay b fromIndex fromSq color df dr
                    (int (fst (indexToFR fromIndex))) (int (snd (indexToFR fromIndex)))) dirs)"

definition bishopDirs :: "(int \<times> int) list" where
  "bishopDirs = [(1, 1), (1, - 1), (- 1, 1), (- 1, - 1)]"

definition rookDirs :: "(int \<times> int) list" where
  "rookDirs = [(1, 0), (- 1, 0), (0, 1), (0, - 1)]"

definition queenDirs :: "(int \<times> int) list" where
  "queenDirs = [(1, 0), (- 1, 0), (0, 1), (0, - 1), (1, 1), (1, - 1), (- 1, 1), (- 1, - 1)]"

text \<open>One side of generateCastlingMoves: the squares in \<open>empties\<close> must be empty, then
  the squares \<open>i1\<close> and \<open>i2\<close> unattacked (the second test is not made when the first
  fails), and the king then goes to the second of them.\<close>

definition castleSide ::
  "'a rulesState_scheme \<Rightarrow> nat \<Rightarrow> string \<Rightarrow> color \<Rightarrow> nat list \<Rightarrow> nat \<Rightarrow> nat \<Rightarrow> bool
   \<Rightarrow> error + move list" where
  "castleSide state kingIndex kingSq enemy empties i1 i2 isKingSide =
     (if list_all (\<lambda>i. bget (board state) i = None) empties
      then
        (let sq1 = indexToAlgebraic i1; sq2 = indexToAlgebraic i2 in
         bindE (squareAttackedBy state sq1 enemy)
           (\<lambda>a1. if a1 then Inr []
                  else bindE (squareAttackedBy state sq2 enemy)
                         (\<lambda>a2. if a2 then Inr []
                                else Inr [createCastleMove kingSq sq2
                                            (bget (board state) kingIndex) isKingSide])))
      else Inr [])"

definition generateCastlingMoves ::
  "'a rulesState_scheme \<Rightarrow> nat \<Rightarrow> string \<Rightarrow> color \<Rightarrow> castling \<Rightarrow> error + move list" where
  "generateCastlingMoves state kingIndex kingSq color cr =
     (let rights = rightsOf cr color;
          rank = (if color = White then 0 else 7);
          kingStartIndex = rank * 8 + 4
      in if kingIndex \<noteq> kingStartIndex then Inr []
         else
           (let enemy = oppositeColor color in
            bindE (squareAttackedBy state kingSq enemy)
              (\<lambda>inCheck.
                 if inCheck then Inr []
                 else
                   bindE (if kingSide rights
                          then castleSide state kingIndex kingSq enemy
                                 [rank * 8 + 5, rank * 8 + 6] (rank * 8 + 5) (rank * 8 + 6) True
                          else Inr [])
                     (\<lambda>ks.
                        bindE (if queenSide rights
                               then castleSide state kingIndex kingSq enemy
                                      [rank * 8 + 3, rank * 8 + 2, rank * 8 + 1]
                                      (rank * 8 + 3) (rank * 8 + 2) False
                               else Inr [])
                          (\<lambda>qs. Inr (ks @ qs))))))"

subsection \<open>Pseudo-legal and legal moves\<close>

text \<open>The body of the loop of generatePseudoLegalMoves for the square \<open>fromIndex\<close>.\<close>

definition movesFrom :: "'a rulesState_scheme \<Rightarrow> nat option \<Rightarrow> nat \<Rightarrow> error + move list" where
  "movesFrom state epIndex fromIndex =
     (let b = board state; enemy = oppositeColor (activeColor state) in
      case bget b fromIndex of
        None \<Rightarrow> Inr []
      | Some pc \<Rightarrow>
          if getColorOf (Some pc) \<noteq> Some (activeColor state) then Inr []
          else
            (let color = activeColor state;
                 fromSq = indexToAlgebraic fromIndex;
                 file = int (fst (indexToFR fromIndex));
                 rank = int (snd (indexToFR fromIndex))
             in case typeOf pc of
                  Pawn \<Rightarrow>
                    Inr (generatePawnMoves state fromIndex fromSq file rank color enemy epIndex)
                | Knight \<Rightarrow> Inr (generateKnightMoves b fromIndex fromSq color)
                | Bishop \<Rightarrow> Inr (generateSlidingMoves b fromIndex fromSq color bishopDirs)
                | Rook \<Rightarrow> Inr (generateSlidingMoves b fromIndex fromSq color rookDirs)
                | Queen \<Rightarrow> Inr (generateSlidingMoves b fromIndex fromSq color queenDirs)
                | King \<Rightarrow>
                    bindE (generateCastlingMoves state fromIndex fromSq color
                             (castlingRights state))
                      (\<lambda>cs. Inr (generateKingMoves b fromIndex fromSq color @ cs))))"

definition generatePseudoLegalMoves :: "'a rulesState_scheme \<Rightarrow> error + move list" where
  "generatePseudoLegalMoves state =
     bindE (case enPassantTarget state of
              None \<Rightarrow> Inr None
            | Some sq \<Rightarrow> bindE (algebraicToIndex sq) (\<lambda>i. Inr (Some i)))
       (\<lambda>epIndex. concatMapE (movesFrom state epIndex) [0..<64])"

text \<open>
  The scratch board of leavesKingInCheck: the copy of the board after the origin square is
  cleared, the pawn taken en passant removed, the moved (or promoted) piece put on the
  destination, and the rook of a castling move relocated.
\<close>

definition scratchBoard :: "board \<Rightarrow> move \<Rightarrow> nat \<Rightarrow> nat \<Rightarrow> board" where
  "scratchBoard b0 m fromIndex toIndex =
     (let b1 = bset b0 fromIndex None;
          b2 = (if isEnPassant m
                then
                  (let dir = (if getColorOf (piece m) = Some White then - 1 else 1);
                       tf = int (fst (indexToFR toIndex));
                       tr = int (snd (indexToFR toIndex));
                       capIndex = (tr + dir) * 8 + tf
                   in bclear b1 capIndex)
                else b1);
          b3 = (case promotion m of
                  Some promo \<Rightarrow>
                    (let color = (if getColorOf (piece m) = Some White then White else Black)
                     in bset b2 toIndex (Some (Piece color promo)))
                | None \<Rightarrow> bset b2 toIndex (piece m));
          b4 = (if isCastleKingSide m \<or> isCastleQueenSide m
                then
                  (let rank = (if getColorOf (piece m) = Some White then 0 else 7) in
                   if isCastleKingSide m
                   then
                     (let rookFrom = rank * 8 + 7; rookTo = rank * 8 + 5
                      in bset (bset b3 rookTo (bget b3 rookFrom)) rookFrom None)
                   else
                     (let rookFrom = rank * 8 + 0; rookTo = rank * 8 + 3
                      in bset (bset b3 rookTo (bget b3 rookFrom)) rookFrom None))
                else b3)
      in b4)"

definition leavesKingInCheck :: "'a rulesState_scheme \<Rightarrow> move \<Rightarrow> error + bool" where
  "leavesKingInCheck state m =
     bindE (algebraicToIndex (from m))
       (\<lambda>fromIndex.
          bindE (algebraicToIndex (to m))
            (\<lambda>toIndex.
               (let cb = scratchBoard (board state) m fromIndex toIndex;
                    moverColor = activeColor state;
                    enemy = oppositeColor moverColor
                in case findKingSquare cb moverColor of
                     None \<Rightarrow> Inr True
                   | Some kingSq \<Rightarrow>
                       squareAttackedBy
                         \<lparr>board = cb, activeColor = enemy,
                          castlingRights = castlingRights state,
                          enPassantTarget = enPassantTarget state\<rparr>
                         kingSq enemy)))"

definition generateLegalMoves :: "'a rulesState_scheme \<Rightarrow> error + move list" where
  "generateLegalMoves state =
     bindE (generatePseudoLegalMoves state)
       (\<lambda>pseudoMoves.
          filterE (\<lambda>m. bindE (leavesKingInCheck state m) (\<lambda>lv. Inr (\<not> lv))) pseudoMoves)"

text \<open>analyzePosition returns \<^verbatim>\<open>{hasLegalMoves, isCheck}\<close>, here a pair in that order.\<close>

definition analyzePosition :: "'a rulesState_scheme \<Rightarrow> error + bool \<times> bool" where
  "analyzePosition state =
     bindE (generateLegalMoves state)
       (\<lambda>legalMoves.
          bindE (isInCheck state None)
            (\<lambda>isCheckFlag. Inr (legalMoves \<noteq> [], isCheckFlag)))"

section \<open>GameState.js: the game state\<close>

datatype outcome = Ongoing | Checkmate | Stalemate | Draw

record result =
  outcome :: outcome
  winner :: "color option"
  reason :: "string option"

text \<open>
  The fields a SearchState copies from its base state, and then the remaining fields of a
  GameState. The counters are natural numbers. \<open>repetitionMap\<close> is the entry list of the
  \<^verbatim>\<open>Map\<close>, in insertion order. \<open>statusText\<close> and \<open>lastMoveText\<close> are \<open>None\<close> while the
  object has no such property.
\<close>

record searchState = rulesState +
  halfmoveClock :: nat
  fullmoveNumber :: nat

record gameState = searchState +
  playerColor :: color
  moveHistory :: "string list"
  result :: "result option"
  lastMove :: "(string \<times> string) option"
  repetitionMap :: "(string \<times> nat) list"
  selectedSquare :: "string option"
  cachedLegalTargets :: "string list"
  statusText :: "string option"
  lastMoveText :: "string option"

definition startingRights :: castling where
  "startingRights =
     \<lparr>white = \<lparr>kingSide = True, queenSide = True\<rparr>,
      black = \<lparr>kingSide = True, queenSide = True\<rparr>\<rparr>"

subsection \<open>The repetition map\<close>

text \<open>\<^verbatim>\<open>Map.prototype.set\<close>: a key already present keeps its place, a new key goes last.\<close>

fun mapSet :: "string \<Rightarrow> nat \<Rightarrow> (string \<times> nat) list \<Rightarrow> (string \<times> nat) list" where
  "mapSet k v [] = [(k, v)]"
| "mapSet k v ((k', v') # rest) =
     (if k' = k then (k, v) # rest else (k', v') # mapSet k v rest)"

definition mapGet :: "(string \<times> nat) list \<Rightarrow> string \<Rightarrow> nat option" where
  "mapGet m k = map_of m k"

text \<open>\<^verbatim>\<open>Array.prototype.join\<close>: \<^verbatim>\<open>null\<close>, \<^verbatim>\<open>undefined\<close> and holes are empty strings.\<close>

fun joinWith :: "string \<Rightarrow> string list \<Rightarrow> string" where
  "joinWith sep [] = []"
| "joinWith sep [x] = x"
| "joinWith sep (x # y # rest) = x @ sep @ joinWith sep (y # rest)"

definition slotText :: "piece option \<Rightarrow> string" where
  "slotText p = (case p of None \<Rightarrow> [] | Some pc \<Rightarrow> pieceCode pc)"

definition buildRepetitionKey :: "'a rulesState_scheme \<Rightarrow> string" where
  "buildRepetitionKey g =
     (let boardPart = joinWith '','' (map slotText (board g));
          active = colorName (activeColor g);
          cr = castlingRights g;
          crPart = (if kingSide (white cr) then ''K'' else [])
                 @ (if queenSide (white cr) then ''Q'' else [])
                 @ (if kingSide (black cr) then ''k'' else [])
                 @ (if queenSide (black cr) then ''q'' else []);
          ep = (case enPassantTarget g of None \<Rightarrow> ''-'' | Some sq \<Rightarrow> if sq = [] then ''-'' else sq)
      in boardPart @ ''|'' @ active @ ''|'' @ crPart @ ''|'' @ ep)"

definition recordRepetitionKey :: "gameState \<Rightarrow> gameState" where
  "recordRepetitionKey g =
     (let key = buildRepetitionKey g;
          prev = (case mapGet (repetitionMap g) key of None \<Rightarrow> 0 | Some c \<Rightarrow> c)
      in g\<lparr>repetitionMap := mapSet key (prev + 1) (repetitionMap g)\<rparr>)"

definition hasThreefoldRepetition :: "gameState \<Rightarrow> bool" where
  "hasThreefoldRepetition g = list_ex (\<lambda>(k, count). count \<ge> 3) (repetitionMap g)"

subsection \<open>Insufficient material\<close>

text \<open>The list \<^verbatim>\<open>pieces\<close>: every piece of the board that is not a king, in board order.\<close>

fun nonKingPieces :: "board \<Rightarrow> piece list" where
  "nonKingPieces [] = []"
| "nonKingPieces (None # rest) = nonKingPieces rest"
| "nonKingPieces (Some p # rest) =
     (if typeOf p = King then nonKingPieces rest else p # nonKingPieces rest)"

definition isInsufficientMaterial :: "'a rulesState_scheme \<Rightarrow> bool" where
  "isInsufficientMaterial g =
     (let pieces = nonKingPieces (board g) in
      if length pieces = 0 then True
      else if length pieces = 1 \<and> (typeOf (pieces ! 0) = Bishop \<or> typeOf (pieces ! 0) = Knight)
      then True
      else if length pieces = 2 \<and> typeOf (pieces ! 0) = Bishop \<and> typeOf (pieces ! 1) = Bishop
      then True
      else False)"

subsection \<open>Construction, serialization\<close>

text \<open>The object \<^verbatim>\<open>serialize()\<close> returns, which is also what the constructor accepts.\<close>

record serialized =
  s_board :: board
  s_activeColor :: color
  s_playerColor :: color
  s_castlingRights :: castling
  s_enPassantTarget :: "string option"
  s_halfmoveClock :: nat
  s_fullmoveNumber :: nat
  s_moveHistory :: "string list"
  s_result :: "result option"
  s_lastMove :: "(string \<times> string) option"
  s_repetitionMap :: "(string \<times> nat) list"

definition serialize :: "gameState \<Rightarrow> serialized" where
  "serialize g =
     \<lparr>s_board = board g, s_activeColor = activeColor g, s_playerColor = playerColor g,
      s_castlingRights = castlingRights g, s_enPassantTarget = enPassantTarget g,
      s_halfmoveClock = halfmoveClock g, s_fullmoveNumber = fullmoveNumber g,
      s_moveHistory = moveHistory g, s_result = result g, s_lastMove = lastMove g,
      s_repetitionMap = repetitionMap g\<rparr>"

text \<open>
  The constructor. With data, every field is \<^verbatim>\<open>data.field || default\<close>: a falsy value (the
  number 0, the empty string, \<^verbatim>\<open>null\<close>) is replaced by the default, which changes a
  fullmove number 0 into 1 and an empty en-passant string into \<^verbatim>\<open>null\<close>. The repetition
  map is rebuilt by \<^verbatim>\<open>set\<close> over the pairs, in order.
\<close>

definition newGameState :: "serialized option \<Rightarrow> gameState" where
  "newGameState data =
     (case data of
        Some d \<Rightarrow>
          \<lparr>board = s_board d, activeColor = s_activeColor d,
           castlingRights = s_castlingRights d,
           enPassantTarget =
             (case s_enPassantTarget d of
                None \<Rightarrow> None | Some sq \<Rightarrow> if sq = [] then None else Some sq),
           halfmoveClock = (if s_halfmoveClock d = 0 then 0 else s_halfmoveClock d),
           fullmoveNumber = (if s_fullmoveNumber d = 0 then 1 else s_fullmoveNumber d),
           playerColor = s_playerColor d,
           moveHistory = s_moveHistory d,
           result = s_result d,
           lastMove = s_lastMove d,
           repetitionMap = foldl (\<lambda>m (k, v). mapSet k v m) [] (s_repetitionMap d),
           selectedSquare = None, cachedLegalTargets = [],
           statusText = None, lastMoveText = None\<rparr>
      | None \<Rightarrow>
          \<lparr>board = emptyBoard, activeColor = White,
           castlingRights = startingRights,
           enPassantTarget = None, halfmoveClock = 0, fullmoveNumber = 1,
           playerColor = White, moveHistory = [], result = None, lastMove = None,
           repetitionMap = [], selectedSquare = None, cachedLegalTargets = [],
           statusText = None, lastMoveText = None\<rparr>)"

definition isGameOver :: "gameState \<Rightarrow> bool" where
  "isGameOver g = (case result g of None \<Rightarrow> False | Some r \<Rightarrow> outcome r \<noteq> Ongoing)"

definition asRulesState :: "gameState \<Rightarrow> rulesState" where
  "asRulesState g =
     \<lparr>board = board g, activeColor = activeColor g, castlingRights = castlingRights g,
      enPassantTarget = enPassantTarget g\<rparr>"

definition updateStatusText :: "gameState \<Rightarrow> gameState" where
  "updateStatusText g =
     (let ongoing = (case result g of None \<Rightarrow> True | Some r \<Rightarrow> outcome r = Ongoing) in
      if ongoing
      then
        (let colorText = (if activeColor g = White then ''White'' else ''Black'');
             perspective = (if activeColor g = playerColor g then ''Your move''
                            else ''Computer's move'')
         in g\<lparr>statusText := Some (colorText @ '' to move. '' @ perspective @ ''.'')\<rparr>)
      else
        (case result g of
           None \<Rightarrow> g
         | Some r \<Rightarrow>
             (case outcome r of
                Checkmate \<Rightarrow>
                  (let w = (if winner r = Some White then ''White'' else ''Black'');
                       youWin = (if winner r = Some (playerColor g) then ''You win.''
                                 else ''Computer wins.'')
                   in g\<lparr>statusText := Some (''Checkmate. '' @ w @ '' wins. '' @ youWin)\<rparr>)
              | Stalemate \<Rightarrow> g\<lparr>statusText := Some ''Draw by stalemate.''\<rparr>
              | Draw \<Rightarrow>
                  (let why = (case reason r of
                                None \<Rightarrow> ''by agreement''
                              | Some t \<Rightarrow> if t = [] then ''by agreement'' else t)
                   in g\<lparr>statusText := Some (''Draw: '' @ why @ ''.'')\<rparr>)
              | Ongoing \<Rightarrow> g\<lparr>statusText := Some []\<rparr>)))"

definition createStarting :: "color \<Rightarrow> error + gameState" where
  "createStarting pc =
     bindE createStartingBoard
       (\<lambda>b. Inr (updateStatusText (recordRepetitionKey
                ((newGameState None)
                   \<lparr>board := b, activeColor := White, castlingRights := startingRights,
                    enPassantTarget := None, halfmoveClock := 0, fullmoveNumber := 1,
                    playerColor := pc, moveHistory := [], result := None,
                    lastMove := None, repetitionMap := []\<rparr>))))"

subsection \<open>The terminal result\<close>

definition updateResult :: "gameState \<Rightarrow> error + gameState" where
  "updateResult g =
     (if (case result g of None \<Rightarrow> False | Some r \<Rightarrow> outcome r \<noteq> Ongoing) then Inr g
      else
        bindE (analyzePosition (asRulesState g))
          (\<lambda>(hasLegalMoves, isCheck).
             if \<not> hasLegalMoves
             then
               (if isCheck
                then Inr (g\<lparr>result := Some \<lparr>outcome = Checkmate,
                                winner = Some (oppositeColor (activeColor g)),
                                reason = Some ''Checkmate''\<rparr>\<rparr>)
                else Inr (g\<lparr>result := Some \<lparr>outcome = Stalemate, winner = None,
                                reason = Some ''Stalemate''\<rparr>\<rparr>))
             else if halfmoveClock g \<ge> 100
             then Inr (g\<lparr>result := Some \<lparr>outcome = Draw, winner = None,
                             reason = Some ''50-move rule''\<rparr>\<rparr>)
             else if hasThreefoldRepetition g
             then Inr (g\<lparr>result := Some \<lparr>outcome = Draw, winner = None,
                             reason = Some ''Threefold repetition''\<rparr>\<rparr>)
             else if isInsufficientMaterial g
             then Inr (g\<lparr>result := Some \<lparr>outcome = Draw, winner = None,
                             reason = Some ''Insufficient material''\<rparr>\<rparr>)
             else Inr (g\<lparr>result := Some \<lparr>outcome = Ongoing, winner = None,
                             reason = None\<rparr>\<rparr>)))"

subsection \<open>Applying a move\<close>

text \<open>\<^verbatim>\<open>oppositeColor\<close> and the tests \<^verbatim>\<open>color === "white"\<close> on the colour of a square that
  may be empty (\<^verbatim>\<open>getColorOf(null)\<close> is \<^verbatim>\<open>null\<close>, which is not \<^verbatim>\<open>"white"\<close>).\<close>

definition oppositeColorOf :: "color option \<Rightarrow> color" where
  "oppositeColorOf c = (if c = Some White then Black else White)"

text \<open>The rook relocation of a castling move on rank \<open>rank\<close>.\<close>

definition moveRook :: "board \<Rightarrow> nat \<Rightarrow> bool \<Rightarrow> board" where
  "moveRook b rank kingSideCastle =
     (if kingSideCastle
      then (let rookFrom = rank * 8 + 7; rookTo = rank * 8 + 5
            in bset (bset b rookTo (bget b rookFrom)) rookFrom None)
      else (let rookFrom = rank * 8 + 0; rookTo = rank * 8 + 3
            in bset (bset b rookTo (bget b rookFrom)) rookFrom None))"

text \<open>
  The board writes shared by applyMove, applyMoveInternalForSAN and applyMoveSearch, in
  their order: origin cleared, en-passant victim removed, rook relocated, destination
  filled. \<open>color\<close> is the colour the function works with, \<open>None\<close> when it is \<^verbatim>\<open>null\<close>.
\<close>

definition boardAfter :: "board \<Rightarrow> move \<Rightarrow> nat \<Rightarrow> nat \<Rightarrow> piece option \<Rightarrow> color option \<Rightarrow> board" where
  "boardAfter b0 m fromIndex toIndex movingPiece color =
     (let b1 = bset b0 fromIndex None;
          b2 = (if isEnPassant m
                then
                  (let dir = (if color = Some White then - 1 else 1);
                       file = int (toIndex mod 8);
                       rank = int (toIndex div 8);
                       capIndex = (rank + dir) * 8 + file
                   in bclear b1 capIndex)
                else b1);
          b3 = (if isCastleKingSide m \<or> isCastleQueenSide m
                then moveRook b2 (if color = Some White then 0 else 7) (isCastleKingSide m)
                else b2);
          b4 = (case promotion m of
                  Some promo \<Rightarrow>
                    bset b3 toIndex (Some (Piece (if color = Some White then White else Black) promo))
                | None \<Rightarrow> bset b3 toIndex movingPiece)
      in b4)"

text \<open>The en-passant target after a move: set only by a pawn that moved two ranks.\<close>

definition epAfter :: "bool \<Rightarrow> nat \<Rightarrow> nat \<Rightarrow> string option" where
  "epAfter isPawn fromIndex toIndex =
     (if isPawn
      then
        (let fromRank = int (fromIndex div 8); toRank = int (toIndex div 8) in
         if \<bar>toRank - fromRank\<bar> = 2
         then
           (let epRank = (fromRank + toRank) div 2;
                file = int (toIndex mod 8);
                epIndex = epRank * 8 + file
            in Some (indexToAlgebraic (nat epIndex)))
         else None)
      else None)"

definition updateCastlingRights :: "castling \<Rightarrow> board \<Rightarrow> move \<Rightarrow> piece option \<Rightarrow> castling" where
  "updateCastlingRights cr0 b m movingPiece =
     (let fromSq = from m; toSq = to m;
          wk = kingSide (white cr0); wq = queenSide (white cr0);
          bk = kingSide (black cr0); bq = queenSide (black cr0);
          wk1 = (if movingPiece = Some (Piece White King) then False else wk);
          wq1 = (if movingPiece = Some (Piece White King) then False else wq);
          bk1 = (if movingPiece = Some (Piece Black King) then False else bk);
          bq1 = (if movingPiece = Some (Piece Black King) then False else bq);
          wk2 = (if fromSq = ''h1'' \<or> toSq = ''h1'' then False else wk1);
          wq2 = (if fromSq = ''a1'' \<or> toSq = ''a1'' then False else wq1);
          bk2 = (if fromSq = ''h8'' \<or> toSq = ''h8'' then False else bk1);
          bq2 = (if fromSq = ''a8'' \<or> toSq = ''a8'' then False else bq1);
          wk3 = (if bget b 7 \<noteq> Some (Piece White Rook) then False else wk2);
          wq3 = (if bget b 0 \<noteq> Some (Piece White Rook) then False else wq2);
          bk3 = (if bget b 63 \<noteq> Some (Piece Black Rook) then False else bk2);
          bq3 = (if bget b 56 \<noteq> Some (Piece Black Rook) then False else bq2)
      in \<lparr>white = \<lparr>kingSide = wk3, queenSide = wq3\<rparr>,
          black = \<lparr>kingSide = bk3, queenSide = bq3\<rparr>\<rparr>)"

text \<open>
  applyMoveInternalForSAN, run on the clone \<^verbatim>\<open>tmp\<close>, returns the rules state of the clone.
  toSimpleSAN calls it when \<^verbatim>\<open>this\<close> already holds the move, so the origin square it
  reads is the one applyMove has just cleared.
\<close>

definition applyMoveInternalForSAN :: "gameState \<Rightarrow> move \<Rightarrow> error + rulesState" where
  "applyMoveInternalForSAN tmp m =
     bindE (algebraicToIndex (from m))
       (\<lambda>fromIndex.
          bindE (algebraicToIndex (to m))
            (\<lambda>toIndex.
               (let movingPiece = bget (board tmp) fromIndex;
                    color = getColorOf movingPiece
                in Inr \<lparr>board = boardAfter (board tmp) m fromIndex toIndex movingPiece color,
                        activeColor = oppositeColorOf color,
                        castlingRights = castlingRights tmp,
                        enPassantTarget = enPassantTarget tmp\<rparr>)))"

definition toSimpleSAN :: "gameState \<Rightarrow> move \<Rightarrow> piece \<Rightarrow> bool \<Rightarrow> error + string" where
  "toSimpleSAN g m movingPiece isCapture =
     (let pieceType = typeOf movingPiece;
          san =
            (if isCastleKingSide m then ''O-O''
             else if isCastleQueenSide m then ''O-O-O''
             else
               (if pieceType \<noteq> Pawn then [typeLetter pieceType]
                else if isCapture then take 1 (from m) else [])
               @ (if isCapture then ''x'' else [])
               @ to m
               @ (case promotion m of None \<Rightarrow> [] | Some promo \<Rightarrow> CHR ''='' # [typeLetter promo]))
      in bindE (applyMoveInternalForSAN g m)
           (\<lambda>rs.
              bindE (analyzePosition rs)
                (\<lambda>(hasLegalMoves, isCheck).
                   Inr (if isCheck \<and> \<not> hasLegalMoves then san @ ''#''
                        else if isCheck then san @ ''+''
                        else san))))"

text \<open>
  applyMove. With an empty origin square \<^verbatim>\<open>movingPiece\<close> is \<^verbatim>\<open>undefined\<close> or \<^verbatim>\<open>null\<close>, and
  toSimpleSAN throws a TypeError at \<^verbatim>\<open>movingPiece[1]\<close>; the object is then left
  half-updated, and the model returns the error only.
\<close>

definition applyMove :: "gameState \<Rightarrow> move \<Rightarrow> error + gameState" where
  "applyMove g m =
     (if isGameOver g then Inr g
      else
        bindE (algebraicToIndex (from m))
          (\<lambda>fromIndex.
             bindE (algebraicToIndex (to m))
               (\<lambda>toIndex.
                  (case bget (board g) fromIndex of
                     None \<Rightarrow> Inl TypeError
                   | Some mp \<Rightarrow>
                       (let movingPiece = Some mp;
                            color = getColorOf movingPiece;
                            enemy = oppositeColorOf color;
                            isPawn = (typeOf mp = Pawn);
                            isCapture = (captured m \<noteq> None \<or> isEnPassant m);
                            b = boardAfter (board g) m fromIndex toIndex movingPiece color;
                            g1 = g\<lparr>board := b,
                                   activeColor := enemy,
                                   castlingRights :=
                                     updateCastlingRights (castlingRights g) b m movingPiece,
                                   enPassantTarget := epAfter isPawn fromIndex toIndex,
                                   halfmoveClock :=
                                     (if isPawn \<or> isCapture then 0 else halfmoveClock g + 1),
                                   fullmoveNumber :=
                                     (if color = Some Black then fullmoveNumber g + 1
                                      else fullmoveNumber g),
                                   lastMove := Some (from m, to m)\<rparr>
                        in bindE (toSimpleSAN g1 m mp isCapture)
                             (\<lambda>san.
                                (let g2 = g1\<lparr>moveHistory := moveHistory g1 @ [san],
                                            lastMoveText :=
                                              Some (showNat (fullmoveNumber g1) @ ''. '' @ san)\<rparr>;
                                     g3 = recordRepetitionKey g2
                                 in bindE (updateResult g3)
                                      (\<lambda>g4. Inr (updateStatusText g4)))))))))"

subsection \<open>Click selection\<close>

record selection =
  moved :: bool
  sel_selectedSquare :: "string option"
  legalTargets :: "string list"

definition getPiece :: "gameState \<Rightarrow> string \<Rightarrow> error + piece option" where
  "getPiece g sq = bindE (algebraicToIndex sq) (\<lambda>i. Inr (bget (board g) i))"

definition handleSelection :: "gameState \<Rightarrow> string \<Rightarrow> color \<Rightarrow> error + gameState \<times> selection" where
  "handleSelection g square side =
     (if isGameOver g
      then Inr (g, \<lparr>moved = False, sel_selectedSquare = None, legalTargets = []\<rparr>)
      else if side \<noteq> activeColor g
      then Inr (g, \<lparr>moved = False, sel_selectedSquare = selectedSquare g,
                    legalTargets = cachedLegalTargets g\<rparr>)
      else
        bindE (getPiece g square)
          (\<lambda>pc.
             if pc \<noteq> None \<and> getColorOf pc = Some side
             then
               bindE (generateLegalMoves (asRulesState g))
                 (\<lambda>allLegal.
                    (let targets = map to (filter (\<lambda>m. from m = square) allLegal) in
                     Inr (g\<lparr>selectedSquare := Some square, cachedLegalTargets := targets\<rparr>,
                          \<lparr>moved = False, sel_selectedSquare = Some square,
                           legalTargets = targets\<rparr>)))
             else
               (case selectedSquare g of
                  Some sel \<Rightarrow>
                    if sel = [] then
                      Inr (g, \<lparr>moved = False, sel_selectedSquare = selectedSquare g,
                               legalTargets = cachedLegalTargets g\<rparr>)
                    else
                      bindE (generateLegalMoves (asRulesState g))
                        (\<lambda>allLegal.
                           (case find (\<lambda>m. from m = sel \<and> to m = square) allLegal of
                              Some mv \<Rightarrow>
                                bindE (applyMove g mv)
                                  (\<lambda>g'. Inr (g'\<lparr>selectedSquare := None,
                                                cachedLegalTargets := []\<rparr>,
                                              \<lparr>moved = True, sel_selectedSquare = None,
                                               legalTargets = []\<rparr>))
                            | None \<Rightarrow>
                                Inr (g\<lparr>selectedSquare := None, cachedLegalTargets := []\<rparr>,
                                     \<lparr>moved = False, sel_selectedSquare = None,
                                      legalTargets = []\<rparr>)))
                | None \<Rightarrow>
                    Inr (g, \<lparr>moved = False, sel_selectedSquare = selectedSquare g,
                             legalTargets = cachedLegalTargets g\<rparr>))))"

section \<open>Game.js: the move-request interface\<close>

text \<open>A Game owns its GameState (\<^verbatim>\<open>this.state\<close>) and the difficulty; the AI object has no state of its
  own, and the \<^verbatim>\<open>onUpdate\<close> callback only receives a snapshot.\<close>

record game =
  g_state :: gameState
  g_difficulty :: int

record response =
  success :: bool
  r_move :: "move option"
  r_error :: "string option"

definition notify :: "game \<Rightarrow> game" where
  "notify gm = gm\<lparr>g_state := updateStatusText (g_state gm)\<rparr>"

definition handlePlayerMove :: "game \<Rightarrow> move \<Rightarrow> error + game \<times> response" where
  "handlePlayerMove gm req =
     (if isGameOver (g_state gm)
      then Inr (gm, \<lparr>success = False, r_move = None, r_error = Some ''Game is over''\<rparr>)
      else if activeColor (g_state gm) \<noteq> playerColor (g_state gm)
      then Inr (gm, \<lparr>success = False, r_move = None, r_error = Some ''Not your turn''\<rparr>)
      else
        bindE (generateLegalMoves (asRulesState (g_state gm)))
          (\<lambda>legalMoves.
             (case find (\<lambda>m. from m = from req \<and> to m = to req
                              \<and> (promotion req = None \<or> promotion m = promotion req))
                     legalMoves of
                None \<Rightarrow>
                  Inr (gm, \<lparr>success = False, r_move = None, r_error = Some ''Illegal move''\<rparr>)
              | Some validMove \<Rightarrow>
                  bindE (applyMove (g_state gm) validMove)
                    (\<lambda>g'. Inr (notify (gm\<lparr>g_state := g'\<rparr>),
                                \<lparr>success = True, r_move = Some validMove, r_error = None\<rparr>)))))"

section \<open>AI.js: the search\<close>

subsection \<open>SearchState and applyMoveSearch\<close>

text \<open>The SearchState constructor copies six fields of its base state (a GameState or
  another SearchState); \<^verbatim>\<open>clone()\<close> copies them again.\<close>

definition newSearchState :: "'a searchState_scheme \<Rightarrow> searchState" where
  "newSearchState baseState =
     \<lparr>board = cloneBoard (board baseState), activeColor = activeColor baseState,
      castlingRights = castlingRights baseState, enPassantTarget = enPassantTarget baseState,
      halfmoveClock = halfmoveClock baseState, fullmoveNumber = fullmoveNumber baseState\<rparr>"

definition cloneSearch :: "searchState \<Rightarrow> searchState" where
  "cloneSearch s = newSearchState s"

text \<open>
  algebraicToIndexFast is character-code arithmetic with no check. The model follows it on
  the 64 square names (any further characters are ignored, as \<^verbatim>\<open>charCodeAt(0)\<close> and
  \<^verbatim>\<open>charCodeAt(1)\<close> do); on every other string the source goes on with a number that is
  \<^verbatim>\<open>NaN\<close> or names no square of that file and rank, which is \<open>OutsideModel\<close>.
\<close>

definition algebraicToIndexFast :: "string \<Rightarrow> error + nat" where
  "algebraicToIndexFast sq =
     (case sq of
        f # r # rest \<Rightarrow>
          (let file = (of_char f :: int) - 97; rank = (of_char r :: int) - 49 in
           if 0 \<le> file \<and> file \<le> 7 \<and> 0 \<le> rank \<and> rank \<le> 7
           then Inr (nat (rank * 8 + file))
           else Inl OutsideModel)
      | _ \<Rightarrow> Inl OutsideModel)"

definition indexToAlgebraicFast :: "nat \<Rightarrow> string" where
  "indexToAlgebraicFast index = [char_of (97 + index mod 8), char_of (49 + index div 8)]"

definition updateCastlingRightsSearch :: "castling \<Rightarrow> nat \<Rightarrow> nat \<Rightarrow> piece option \<Rightarrow> castling" where
  "updateCastlingRightsSearch cr fromIndex toIndex movingPiece =
     (let fromSq = indexToAlgebraicFast fromIndex;
          toSq = indexToAlgebraicFast toIndex;
          wk = kingSide (white cr); wq = queenSide (white cr);
          bk = kingSide (black cr); bq = queenSide (black cr);
          wk1 = (if movingPiece = Some (Piece White King) then False else wk);
          wq1 = (if movingPiece = Some (Piece White King) then False else wq);
          bk1 = (if movingPiece = Some (Piece White King) then bk
                 else if movingPiece = Some (Piece Black King) then False else bk);
          bq1 = (if movingPiece = Some (Piece White King) then bq
                 else if movingPiece = Some (Piece Black King) then False else bq);
          wk2 = (if fromSq = ''h1'' \<or> toSq = ''h1'' then False else wk1);
          wq2 = (if fromSq = ''a1'' \<or> toSq = ''a1'' then False else wq1);
          bk2 = (if fromSq = ''h8'' \<or> toSq = ''h8'' then False else bk1);
          bq2 = (if fromSq = ''a8'' \<or> toSq = ''a8'' then False else bq1)
      in \<lparr>white = \<lparr>kingSide = wk2, queenSide = wq2\<rparr>,
          black = \<lparr>kingSide = bk2, queenSide = bq2\<rparr>\<rparr>)"

text \<open>The en-passant target of applyMoveSearch, \<open>epAfter\<close> with the fast conversion.\<close>

definition epAfterSearch :: "bool \<Rightarrow> nat \<Rightarrow> nat \<Rightarrow> string option" where
  "epAfterSearch isPawn fromIndex toIndex =
     (if isPawn
      then
        (let fromRank = int (fromIndex div 8); toRank = int (toIndex div 8) in
         if \<bar>toRank - fromRank\<bar> = 2
         then
           (let midRank = (fromRank + toRank) div 2;
                file = int (toIndex mod 8);
                epIndex = midRank * 8 + file
            in Some (indexToAlgebraicFast (nat epIndex)))
         else None)
      else None)"

definition applyMoveSearch :: "searchState \<Rightarrow> move \<Rightarrow> color \<Rightarrow> error + searchState" where
  "applyMoveSearch s m mover =
     bindE (algebraicToIndexFast (from m))
       (\<lambda>fromIndex.
          bindE (algebraicToIndexFast (to m))
            (\<lambda>toIndex.
               (let movingPiece = bget (board s) fromIndex;
                    enemy = oppositeColor mover;
                    isPawn = (case movingPiece of None \<Rightarrow> False | Some mp \<Rightarrow> typeOf mp = Pawn);
                    isCapture = (captured m \<noteq> None \<or> isEnPassant m)
                in Inr (s\<lparr>board :=
                             boardAfter (board s) m fromIndex toIndex movingPiece (Some mover),
                           activeColor := enemy,
                           castlingRights :=
                             updateCastlingRightsSearch (castlingRights s) fromIndex toIndex
                               movingPiece,
                           enPassantTarget := epAfterSearch isPawn fromIndex toIndex,
                           halfmoveClock :=
                             (if isPawn \<or> isCapture then 0 else halfmoveClock s + 1),
                           fullmoveNumber :=
                             (if mover = Black then fullmoveNumber s + 1
                              else fullmoveNumber s)\<rparr>))))"

subsection \<open>Scores, the clock and the random source\<close>

text \<open>Scores are the integers of the evaluator and the two infinities the search starts
  its bounds from.\<close>

datatype score = MinusInfinity | Finite int | PlusInfinity

fun scoreLess :: "score \<Rightarrow> score \<Rightarrow> bool" where
  "scoreLess MinusInfinity b = (b \<noteq> MinusInfinity)"
| "scoreLess (Finite x) MinusInfinity = False"
| "scoreLess (Finite x) (Finite y) = (x < y)"
| "scoreLess (Finite x) PlusInfinity = True"
| "scoreLess PlusInfinity b = False"

definition scoreLeq :: "score \<Rightarrow> score \<Rightarrow> bool" where
  "scoreLeq a b = (\<not> scoreLess b a)"

fun scoreNeg :: "score \<Rightarrow> score" where
  "scoreNeg MinusInfinity = PlusInfinity"
| "scoreNeg (Finite x) = Finite (- x)"
| "scoreNeg PlusInfinity = MinusInfinity"

text \<open>
  What a search call is given and never changes: the successive readings of
  \<^verbatim>\<open>Date.now()\<close> and of \<^verbatim>\<open>Math.random()\<close> (the functions \<open>clk\<close> and \<open>rnd\<close>, indexed by
  the number of readings made before), the budget, the start time, the root colour and the
  level. \<open>timeout\<close> and \<open>startTime\<close> are \<open>None\<close> where the caller passes none.
\<close>

record ctx =
  clk :: "nat \<Rightarrow> int"
  rnd :: "nat \<Rightarrow> real"
  timeout :: "int option"
  startTime :: "int option"
  rootColor :: color
  level :: int

text \<open>\<^verbatim>\<open>timeout && startTime && Date.now() - startTime >= timeout\<close>: the clock is read only
  when both numbers are truthy. The result is the test and the number of readings made.\<close>

definition timeUp :: "ctx \<Rightarrow> nat \<Rightarrow> bool \<times> nat" where
  "timeUp c n =
     (case timeout c of
        None \<Rightarrow> (False, n)
      | Some t \<Rightarrow>
          if t = 0 then (False, n)
          else
            (case startTime c of
               None \<Rightarrow> (False, n)
             | Some st \<Rightarrow>
                 if st = 0 then (False, n)
                 else (clk c n - st \<ge> t, Suc n)))"

definition pieceValueApprox :: "ptype option \<Rightarrow> int" where
  "pieceValueApprox t = (case t of None \<Rightarrow> 0 | Some ty \<Rightarrow> PIECE_VALUES ty)"

definition capturedValue :: "move \<Rightarrow> int" where
  "capturedValue m = pieceValueApprox (map_option typeOf (captured m))"

definition orderingValue :: "move \<Rightarrow> int" where
  "orderingValue m = capturedValue m + pieceValueApprox (promotion m)"

text \<open>\<^verbatim>\<open>Array.prototype.sort\<close> with the comparator \<^verbatim>\<open>(a, b) => key(b) - key(a)\<close>: a stable
  sort by descending key.\<close>

definition sortDescending :: "('a \<Rightarrow> int) \<Rightarrow> 'a list \<Rightarrow> 'a list" where
  "sortDescending key xs = sort_key (\<lambda>x. - key x) xs"

text \<open>The number of occupied squares of a board.\<close>

definition pieceCount :: "board \<Rightarrow> nat" where
  "pieceCount b = length (filter (\<lambda>x. x \<noteq> None) b)"

subsection \<open>Quiescence\<close>

type_synonym searchResult = "error + (score option \<times> nat)"

text \<open>
  The loop of quiescence over the captures \<^verbatim>\<open>limited\<close>, with \<open>rec\<close> for the recursive
  call. The result of the recursive call is negated before it is tested: \<^verbatim>\<open>-null\<close> is
  \<^verbatim>\<open>0\<close>, so the test \<^verbatim>\<open>score === null\<close> that follows is never true and a timed-out call
  counts as the score 0.
\<close>

fun quiescenceLoop ::
  "(searchState \<Rightarrow> score \<Rightarrow> score \<Rightarrow> score \<Rightarrow> nat \<Rightarrow> searchResult) \<Rightarrow> ctx \<Rightarrow> searchState
   \<Rightarrow> move list \<Rightarrow> nat \<Rightarrow> score \<Rightarrow> score \<Rightarrow> score \<Rightarrow> nat \<Rightarrow> searchResult" where
  "quiescenceLoop rec c s [] i val alpha beta n = Inr (Some val, n)"
| "quiescenceLoop rec c s (m # rest) i val alpha beta n =
     (case (if i mod 5 = 0 then timeUp c n else (False, n)) of
        (up, n1) \<Rightarrow>
          if up then Inr (Some val, n1)
          else
            bindE (applyMoveSearch (cloneSearch s) m (activeColor s))
              (\<lambda>next.
                 bindE (rec next (scoreNeg beta) (scoreNeg alpha)
                          (Finite (evaluate next (rootColor c))) n1)
                   (\<lambda>(r, n2).
                      (let sc = (case r of None \<Rightarrow> Finite 0 | Some v \<Rightarrow> scoreNeg v);
                           val' = (if scoreLess val sc then sc else val);
                           alpha' = (if scoreLess alpha val' then val' else alpha)
                       in if scoreLeq beta alpha' then Inr (Some val', n2)
                          else quiescenceLoop rec c s rest (i + 1) val' alpha' beta n2))))"

subsection \<open>Facts about the generated moves\<close>

text \<open>Every move the generator returns names two squares of the board, starts from a piece of
  the side to move, and captures only a piece that is on the board. The search relies on
  this: a capture removes a piece, so the capture sequences of quiescence end.\<close>

lemma bindE_simps [simp]:
  "bindE (Inl e) f = Inl e"
  "bindE (Inr x) f = f x"
  by (simp_all add: bindE_def)

lemma bindE_Inr_iff: "bindE r f = Inr y \<longleftrightarrow> (\<exists>x. r = Inr x \<and> f x = Inr y)"
  by (cases r) simp_all

lemma squares_roundtrip_all:
  "list_all (\<lambda>i. algebraicToIndex (indexToAlgebraic i) = Inr i) [0..<64]"
  by code_simp

lemma algebraicToIndex_indexToAlgebraic [simp]:
  "i < 64 \<Longrightarrow> algebraicToIndex (indexToAlgebraic i) = Inr i"
  using squares_roundtrip_all by (simp add: list_all_iff)

lemma squares_roundtrip_fast_all:
  "list_all (\<lambda>i. algebraicToIndexFast (indexToAlgebraic i) = Inr i) [0..<64]"
  by code_simp

lemma algebraicToIndexFast_indexToAlgebraic [simp]:
  "i < 64 \<Longrightarrow> algebraicToIndexFast (indexToAlgebraic i) = Inr i"
  using squares_roundtrip_fast_all by (simp add: list_all_iff)

lemma sqIndex_less: "0 \<le> f \<Longrightarrow> f \<le> 7 \<Longrightarrow> 0 \<le> r \<Longrightarrow> r \<le> 7 \<Longrightarrow> sqIndex f r < 64"
  by (simp add: sqIndex_def)

lemma sqIndex_div: "0 \<le> f \<Longrightarrow> f \<le> 7 \<Longrightarrow> 0 \<le> r \<Longrightarrow> int (sqIndex f r div 8) = r"
  by (simp add: sqIndex_def zdiv_int)

lemma sqIndex_mod: "0 \<le> f \<Longrightarrow> f \<le> 7 \<Longrightarrow> 0 \<le> r \<Longrightarrow> int (sqIndex f r mod 8) = f"
  by (simp add: sqIndex_def zmod_int)

lemma bget_bset: "bget (bset b i v) j = (if j = i then v else bget b j)"
  by (auto simp: bget_def bset_def nth_append)

lemma pieceCount_append: "pieceCount (xs @ ys) = pieceCount xs + pieceCount ys"
  by (simp add: pieceCount_def)

lemma pieceCount_replicate_None: "pieceCount (replicate k None) = 0"
  by (simp add: pieceCount_def)

lemma pieceCount_update:
  "i < length b \<Longrightarrow>
   pieceCount (b[i := v]) + (if b ! i \<noteq> None then 1 else 0)
   = pieceCount b + (if v \<noteq> None then 1 else 0)"
proof (induction b arbitrary: i)
  case Nil
  then show ?case by simp
next
  case (Cons x xs)
  show ?case
  proof (cases i)
    case 0
    then show ?thesis by (simp add: pieceCount_def)
  next
    case (Suc j)
    then have "j < length xs" using Cons.prems by simp
    from Cons.IH [OF this] show ?thesis using Suc
      by (cases x; cases v; cases "xs ! j") (auto simp: pieceCount_def)
  qed
qed

lemma pieceCount_bset:
  "pieceCount (bset b i v) + (if bget b i \<noteq> None then 1 else 0)
   = pieceCount b + (if v \<noteq> None then 1 else 0)"
proof (cases "i < length b")
  case True
  then show ?thesis using pieceCount_update [OF True, of v] by (simp add: bset_def bget_def)
next
  case False
  then show ?thesis
    by (simp add: bset_def bget_def pieceCount_append pieceCount_replicate_None)
       (simp add: pieceCount_def)
qed

definition capIndexOf :: "color \<Rightarrow> nat \<Rightarrow> int" where
  "capIndexOf col t = (int (t div 8) + (if col = White then - 1 else 1)) * 8 + int (t mod 8)"

definition plainShape :: "board \<Rightarrow> string \<Rightarrow> color \<Rightarrow> move \<Rightarrow> bool" where
  "plainShape b fromSq col m \<longleftrightarrow>
     from m = fromSq \<and> \<not> isEnPassant m \<and> \<not> isCastleKingSide m
     \<and> \<not> isCastleQueenSide m
     \<and> (\<exists>t<64. to m = indexToAlgebraic t \<and> captured m = bget b t
                \<and> getColorOf (bget b t) \<noteq> Some col)"

definition epShape :: "board \<Rightarrow> string \<Rightarrow> color \<Rightarrow> move \<Rightarrow> bool" where
  "epShape b fromSq col m \<longleftrightarrow>
     from m = fromSq \<and> isEnPassant m \<and> \<not> isCastleKingSide m
     \<and> \<not> isCastleQueenSide m
     \<and> (\<exists>t<64. to m = indexToAlgebraic t \<and> bget b t = None
                \<and> 0 \<le> capIndexOf col t
                \<and> bget b (nat (capIndexOf col t)) \<noteq> None
                \<and> getColorOf (bget b (nat (capIndexOf col t))) \<noteq> Some col)"

definition castleShape :: "board \<Rightarrow> string \<Rightarrow> move \<Rightarrow> bool" where
  "castleShape b fromSq m \<longleftrightarrow>
     from m = fromSq \<and> captured m = None \<and> \<not> isEnPassant m
     \<and> (\<exists>t<64. to m = indexToAlgebraic t \<and> bget b t = None)"

definition moveShape :: "board \<Rightarrow> string \<Rightarrow> color \<Rightarrow> move \<Rightarrow> bool" where
  "moveShape b fromSq col m \<longleftrightarrow> plainShape b fromSq col m \<or> epShape b fromSq col m \<or> castleShape b fromSq m"

lemma stepMove_shape:
  assumes "m \<in> set (stepMove b f fromSq col d)"
  shows "plainShape b fromSq col m"
proof -
  obtain df dr where d: "d = (df, dr)" by (cases d)
  define nf where "nf = int (fst (indexToFR f)) + df"
  define nr where "nr = int (snd (indexToFR f)) + dr"
  from assms have on: "0 \<le> nf" "nf \<le> 7" "0 \<le> nr" "nr \<le> 7"
    and col: "getColorOf (bget b (sqIndex nf nr)) \<noteq> Some col"
    and m: "m = createMove fromSq (indexToAlgebraic (sqIndex nf nr)) (bget b f)
                  (bget b (sqIndex nf nr))"
    by (auto simp: stepMove_def d nf_def nr_def Let_def split: if_splits)
  have "sqIndex nf nr < 64" using on by (rule sqIndex_less)
  then show ?thesis using m col by (auto simp: plainShape_def createMove_def)
qed

lemma slideRay_shape:
  "m \<in> set (slideRay b f fromSq col df dr fl rk)
   \<Longrightarrow> plainShape b fromSq col m"
proof (induction b f fromSq col df dr fl rk rule: slideRay.induct)
  case (1 b f fromSq col df dr fl rk)
  define nf where "nf = fl + df"
  define nr where "nr = rk + dr"
  note unf = slideRay.simps [of b f fromSq col df dr fl rk]
  have on: "\<not> offBoard nf nr" and nz: "\<not> (df = 0 \<and> dr = 0)"
    using "1.prems" by (auto simp: unf Let_def nf_def nr_def split: if_splits)
  then have lt: "sqIndex nf nr < 64" by (auto simp: offBoard_def intro: sqIndex_less)
  show ?case
  proof (cases "bget b (sqIndex nf nr)")
    case None
    from "1.prems" have "m = createMove fromSq (indexToAlgebraic (sqIndex nf nr)) (bget b f) None
                       \<or> m \<in> set (slideRay b f fromSq col df dr nf nr)"
      using on nz None by (auto simp: unf Let_def nf_def nr_def)
    then show ?thesis
    proof
      assume "m = createMove fromSq (indexToAlgebraic (sqIndex nf nr)) (bget b f) None"
      then show ?thesis using lt None by (auto simp: plainShape_def createMove_def)
    next
      assume "m \<in> set (slideRay b f fromSq col df dr nf nr)"
      then show ?thesis
        using "1.IH" [of nf nr "sqIndex nf nr" "bget b (sqIndex nf nr)"] on nz None
        by (simp add: nf_def nr_def)
    qed
  next
    case (Some pc)
    from "1.prems" have "getColorOf (Some pc) \<noteq> Some col"
      and "m = createMove fromSq (indexToAlgebraic (sqIndex nf nr)) (bget b f) (Some pc)"
      using on nz Some by (auto simp: unf Let_def nf_def nr_def split: if_splits)
    then show ?thesis using lt Some by (auto simp: plainShape_def createMove_def)
  qed
qed

lemma generateSlidingMoves_shape:
  "m \<in> set (generateSlidingMoves b f fromSq col dirs) \<Longrightarrow> plainShape b fromSq col m"
  by (auto simp: generateSlidingMoves_def dest: slideRay_shape)

lemma generateKnightMoves_shape:
  "m \<in> set (generateKnightMoves b f fromSq col) \<Longrightarrow> plainShape b fromSq col m"
  by (auto simp: generateKnightMoves_def dest: stepMove_shape)

lemma generateKingMoves_shape:
  "m \<in> set (generateKingMoves b f fromSq col) \<Longrightarrow> plainShape b fromSq col m"
  by (auto simp: generateKingMoves_def dest: stepMove_shape)

lemma addPawnAdvance_shape:
  assumes "m \<in> set (addPawnAdvance fromSq f t col pr lr)"
    and "t < 64" and "bget b t = None"
  shows "plainShape b fromSq col m"
  using assms
  by (auto simp: addPawnAdvance_def plainShape_def createMove_def createPromotionMove_def Let_def
      split: if_splits)

lemma addPawnCapture_shape:
  assumes "m \<in> set (addPawnCapture fromSq f t col (bget b t) pr lr)"
    and "t < 64" and "getColorOf (bget b t) \<noteq> Some col"
  shows "plainShape b fromSq col m"
  using assms
  by (auto simp: addPawnCapture_def plainShape_def createMove_def createPromotionMove_def Let_def
      split: if_splits)

lemma oppositeColor_neq [simp]: "oppositeColor c \<noteq> c" "c \<noteq> oppositeColor c"
  by (cases c; simp)+

lemma pawnCaptures_shape:
  assumes "m \<in> set (pawnCaptures b f fromSq rk dir col (oppositeColor col) ep pr lr cf)"
    and "dir = (if col = White then 1 else - 1)" and "0 \<le> rk" and "rk \<le> 7"
  shows "plainShape b fromSq col m \<or> epShape b fromSq col m"
proof -
  define t where "t = sqIndex cf (rk + dir)"
  from assms(1) have cf: "0 \<le> cf" "cf \<le> 7" and tr: "0 \<le> rk + dir" "rk + dir \<le> 7"
    by (auto simp: pawnCaptures_def Let_def split: if_splits)
  have lt: "t < 64" unfolding t_def using cf tr by (intro sqIndex_less)
  have cap: "capIndexOf col t = int (sqIndex cf rk)"
    using cf tr assms(2,3)
    by (auto simp: capIndexOf_def t_def sqIndex_div sqIndex_mod) (simp_all add: sqIndex_def)
  from assms(1) consider
    (capture) "getColorOf (bget b t) = Some (oppositeColor col)"
       "m \<in> set (addPawnCapture fromSq f t col (bget b t) pr lr)"
  | (ep) "bget b t = None" "bget b (sqIndex cf rk) \<noteq> None"
       "getColorOf (bget b (sqIndex cf rk)) = Some (oppositeColor col)"
       "m = createEnPassantMove fromSq (indexToAlgebraic t) (bget b f)
              (bget b (sqIndex cf rk))"
    using cf tr by (auto simp: pawnCaptures_def Let_def t_def split: if_splits)
  then show ?thesis
  proof cases
    case capture
    then show ?thesis using addPawnCapture_shape [OF capture(2) lt] by simp
  next
    case ep
    then show ?thesis using lt cap by (auto simp: epShape_def createEnPassantMove_def)
  qed
qed

lemma generatePawnMoves_shape:
  assumes "m \<in> set (generatePawnMoves s f fromSq (int (f mod 8)) (int (f div 8))
                      col (oppositeColor col) ep)"
    and "f < 64"
  shows "plainShape (board s) fromSq col m \<or> epShape (board s) fromSq col m"
proof -
  define rk where "rk = int (f div 8)"
  define fl where "fl = int (f mod 8)"
  define dir :: int where "dir = (if col = White then 1 else - 1)"
  have rk: "0 \<le> rk" "rk \<le> 7" and fl: "0 \<le> fl" "fl \<le> 7"
    using assms(2) by (auto simp: rk_def fl_def)
  from assms(1) consider
    (one) "0 \<le> rk + dir" "rk + dir \<le> 7" "bget (board s) (sqIndex fl (rk + dir)) = None"
       "m \<in> set (addPawnAdvance fromSq f (sqIndex fl (rk + dir)) col
                    (if col = White then 6 else 1) (if col = White then 7 else 0))"
  | (two) "rk = (if col = White then 1 else 6)"
       "bget (board s) (sqIndex fl (rk + 2 * dir)) = None"
       "m = createMove fromSq (indexToAlgebraic (sqIndex fl (rk + 2 * dir)))
              (bget (board s) f) None"
  | (cap) cf where
       "m \<in> set (pawnCaptures (board s) f fromSq rk dir col (oppositeColor col) ep
                    (if col = White then 6 else 1) (if col = White then 7 else 0) cf)"
    unfolding generatePawnMoves_def Let_def rk_def [symmetric] fl_def [symmetric]
      dir_def [symmetric]
    by (auto split: if_splits)
  then show ?thesis
  proof cases
    case one
    have "sqIndex fl (rk + dir) < 64" using fl one by (intro sqIndex_less)
    from addPawnAdvance_shape [OF one(4) this one(3)] show ?thesis by simp
  next
    case two
    have "sqIndex fl (rk + 2 * dir) < 64"
      using fl two(1) by (intro sqIndex_less) (auto simp: dir_def split: if_splits)
    then show ?thesis using two by (auto simp: plainShape_def createMove_def)
  next
    case cap
    from pawnCaptures_shape [OF cap _ rk] show ?thesis by (simp add: dir_def)
  qed
qed


lemma squareAttackedBy_index [simp]:
  "i < 64 \<Longrightarrow> squareAttackedBy s (indexToAlgebraic i) col = Inr (attackedAt (board s) i col)"
  by (simp add: squareAttackedBy_def)

lemma castleSide_shape:
  assumes "i1 < 64" and "i2 < 64" and "i2 \<in> set empties"
  shows "\<exists>ms. castleSide s k fromSq enemy empties i1 i2 ks = Inr ms
              \<and> (\<forall>m\<in>set ms. castleShape (board s) fromSq m)"
  using assms
  by (auto simp: castleSide_def Let_def castleShape_def createCastleMove_def list_all_iff)

lemma generateCastlingMoves_shape:
  assumes "f < 64"
  shows "\<exists>ms. generateCastlingMoves s f (indexToAlgebraic f) col cr = Inr ms
              \<and> (\<forall>m\<in>set ms. castleShape (board s) (indexToAlgebraic f) m)"
proof -
  define rk :: nat where "rk = (if col = White then 0 else 7)"
  have rk: "rk * 8 + 5 < 64" "rk * 8 + 6 < 64" "rk * 8 + 3 < 64" "rk * 8 + 2 < 64"
    by (simp_all add: rk_def)
  obtain ks where ks: "(if kingSide (rightsOf cr col)
          then castleSide s f (indexToAlgebraic f) (oppositeColor col)
                 [rk * 8 + 5, rk * 8 + 6] (rk * 8 + 5) (rk * 8 + 6) True
          else Inr []) = Inr ks" "\<forall>m\<in>set ks. castleShape (board s) (indexToAlgebraic f) m"
    using castleSide_shape [OF rk(1) rk(2), of "[rk * 8 + 5, rk * 8 + 6]" s f
        "indexToAlgebraic f" "oppositeColor col" True]
    by (cases "kingSide (rightsOf cr col)") auto
  obtain qs where qs: "(if queenSide (rightsOf cr col)
          then castleSide s f (indexToAlgebraic f) (oppositeColor col)
                 [rk * 8 + 3, rk * 8 + 2, rk * 8 + 1] (rk * 8 + 3) (rk * 8 + 2) False
          else Inr []) = Inr qs" "\<forall>m\<in>set qs. castleShape (board s) (indexToAlgebraic f) m"
    using castleSide_shape [OF rk(3) rk(4), of "[rk * 8 + 3, rk * 8 + 2, rk * 8 + 1]" s f
        "indexToAlgebraic f" "oppositeColor col" False]
    by (cases "queenSide (rightsOf cr col)") auto
  show ?thesis
    unfolding generateCastlingMoves_def Let_def rk_def [symmetric]
    using assms ks qs by auto
qed

definition genOK :: "'a rulesState_scheme \<Rightarrow> move \<Rightarrow> bool" where
  "genOK s m \<longleftrightarrow>
     (\<exists>f<64. bget (board s) f \<noteq> None
            \<and> getColorOf (bget (board s) f) = Some (activeColor s)
            \<and> moveShape (board s) (indexToAlgebraic f) (activeColor s) m)"

lemma movesFrom_shape:
  assumes "f < 64"
  shows "\<exists>ms. movesFrom s ep f = Inr ms \<and> (\<forall>m\<in>set ms. genOK s m)"
proof (cases "bget (board s) f")
  case None
  then show ?thesis by (simp add: movesFrom_def)
next
  case (Some pc)
  show ?thesis
  proof (cases "getColorOf (Some pc) = Some (activeColor s)")
    case False
    then show ?thesis using Some by (simp add: movesFrom_def)
  next
    case True
    have ok: "moveShape (board s) (indexToAlgebraic f) (activeColor s) m \<Longrightarrow> genOK s m" for m
      using assms Some True by (auto simp: genOK_def)
    obtain cs where cs: "generateCastlingMoves s f (indexToAlgebraic f) (activeColor s)
                           (castlingRights s) = Inr cs"
      "\<forall>m\<in>set cs. castleShape (board s) (indexToAlgebraic f) m"
      using generateCastlingMoves_shape [OF assms] by blast
    show ?thesis
    proof (cases "typeOf pc")
      case Pawn
      then show ?thesis using Some True
        by (auto simp: movesFrom_def Let_def indexToFR_def moveShape_def intro!: ok
            dest: generatePawnMoves_shape [OF _ assms])
    next
      case Knight
      then show ?thesis using Some True
        by (auto simp: movesFrom_def Let_def moveShape_def intro!: ok dest: generateKnightMoves_shape)
    next
      case Bishop
      then show ?thesis using Some True
        by (auto simp: movesFrom_def Let_def moveShape_def intro!: ok dest: generateSlidingMoves_shape)
    next
      case Rook
      then show ?thesis using Some True
        by (auto simp: movesFrom_def Let_def moveShape_def intro!: ok dest: generateSlidingMoves_shape)
    next
      case Queen
      then show ?thesis using Some True
        by (auto simp: movesFrom_def Let_def moveShape_def intro!: ok dest: generateSlidingMoves_shape)
    next
      case King
      then show ?thesis using Some True cs
        by (auto simp: movesFrom_def Let_def moveShape_def intro!: ok dest: generateKingMoves_shape)
    qed
  qed
qed

lemma concatMapE_total:
  assumes "\<And>x. x \<in> set xs \<Longrightarrow> \<exists>ys. f x = Inr ys \<and> (\<forall>m\<in>set ys. Q m)"
  shows "\<exists>zs. concatMapE f xs = Inr zs \<and> (\<forall>m\<in>set zs. Q m)"
  using assms
proof (induction xs)
  case Nil
  show ?case by simp
next
  case (Cons x xs)
  obtain ys where ys: "f x = Inr ys" "\<forall>m\<in>set ys. Q m" using Cons.prems by auto
  obtain zs where zs: "concatMapE f xs = Inr zs" "\<forall>m\<in>set zs. Q m"
    using Cons.IH Cons.prems by auto
  show ?case using ys zs by auto
qed

definition epOK :: "'a rulesState_scheme \<Rightarrow> bool" where
  "epOK s \<longleftrightarrow> (case enPassantTarget s of None \<Rightarrow> True
                          | Some sq \<Rightarrow> (\<exists>i. algebraicToIndex sq = Inr i))"

lemma generatePseudoLegalMoves_total:
  assumes "epOK s"
  shows "\<exists>ms. generatePseudoLegalMoves s = Inr ms \<and> (\<forall>m\<in>set ms. genOK s m)"
proof -
  obtain ep where ep: "(case enPassantTarget s of None \<Rightarrow> Inr None
            | Some sq \<Rightarrow> bindE (algebraicToIndex sq) (\<lambda>i. Inr (Some i))) = Inr ep"
    using assms by (auto simp: epOK_def split: option.splits)
  have "\<exists>zs. concatMapE (movesFrom s ep) [0..<64] = Inr zs \<and> (\<forall>m\<in>set zs. genOK s m)"
    by (rule concatMapE_total) (simp add: movesFrom_shape)
  then show ?thesis by (simp add: generatePseudoLegalMoves_def ep)
qed

lemma generatePseudoLegalMoves_Inr_epOK:
  "generatePseudoLegalMoves s = Inr ms \<Longrightarrow> epOK s"
  by (auto simp: generatePseudoLegalMoves_def epOK_def bindE_Inr_iff split: option.splits)

lemma find_upt_less: "find p [0..<n] = Some i \<Longrightarrow> i < n \<and> p i"
  by (auto simp: find_Some_iff)

lemma findKingSquare_cases:
  "findKingSquare b col = None \<or> (\<exists>k<64. findKingSquare b col = Some (indexToAlgebraic k))"
  by (cases "find (\<lambda>i. bget b i = Some (if col = White then Piece White King else Piece Black King))
               [0..<64]")
     (auto simp: findKingSquare_def Let_def dest: find_upt_less)

lemma moveShape_squares:
  assumes "moveShape b (indexToAlgebraic f) col m"
  shows "from m = indexToAlgebraic f \<and> (\<exists>t<64. to m = indexToAlgebraic t)"
  using assms by (auto simp: moveShape_def plainShape_def epShape_def castleShape_def)

lemma leavesKingInCheck_total:
  assumes "genOK s m"
  shows "\<exists>r. leavesKingInCheck s m = Inr r"
proof -
  from assms obtain f t where f: "f < 64" "from m = indexToAlgebraic f"
    and t: "t < 64" "to m = indexToAlgebraic t"
    by (auto simp: genOK_def dest: moveShape_squares)
  show ?thesis
    using f t findKingSquare_cases [of "scratchBoard (board s) m f t" "activeColor s"]
    by (auto simp: leavesKingInCheck_def Let_def)
qed

lemma filterE_total:
  assumes "\<And>x. x \<in> set xs \<Longrightarrow> \<exists>r. f x = Inr r"
  shows "\<exists>ys. filterE f xs = Inr ys \<and> set ys \<subseteq> set xs"
  using assms
proof (induction xs)
  case Nil
  show ?case by simp
next
  case (Cons x xs)
  obtain r where r: "f x = Inr r" using Cons.prems by auto
  obtain ys where ys: "filterE f xs = Inr ys" "set ys \<subseteq> set xs"
    using Cons.IH Cons.prems by auto
  show ?case using r ys by auto
qed

lemma generateLegalMoves_total:
  assumes "epOK s"
  shows "\<exists>ms. generateLegalMoves s = Inr ms \<and> (\<forall>m\<in>set ms. genOK s m)"
proof -
  obtain ps where ps: "generatePseudoLegalMoves s = Inr ps" "\<forall>m\<in>set ps. genOK s m"
    using generatePseudoLegalMoves_total [OF assms] by blast
  have "\<exists>ys. filterE (\<lambda>m. bindE (leavesKingInCheck s m) (\<lambda>lv. Inr (\<not> lv))) ps = Inr ys
             \<and> set ys \<subseteq> set ps"
  proof (rule filterE_total)
    fix x assume "x \<in> set ps"
    then obtain r where "leavesKingInCheck s x = Inr r"
      using ps(2) leavesKingInCheck_total by blast
    then show "\<exists>r. bindE (leavesKingInCheck s x) (\<lambda>lv. Inr (\<not> lv)) = Inr r" by simp
  qed
  then show ?thesis using ps by (auto simp: generateLegalMoves_def)
qed

lemma generateLegalMoves_Inr_genOK:
  assumes "generateLegalMoves s = Inr ms" and "m \<in> set ms"
  shows "genOK s m"
proof -
  from assms(1) have "epOK s"
    by (auto simp: generateLegalMoves_def bindE_Inr_iff dest: generatePseudoLegalMoves_Inr_epOK)
  from generateLegalMoves_total [OF this] assms show ?thesis by auto
qed

lemma fast_file_chars: "map (\<lambda>f. char_of (97 + f)) [0..<8] = FILES"
  by code_simp

lemma fast_rank_chars:
  "map (\<lambda>r. char_of (49 + r)) [0..<8] = map (\<lambda>r. digitChar (r + 1)) [0..<8]"
  by code_simp

lemma fast_file_nth:
  assumes "f < 8"
  shows "char_of (97 + f) = FILES ! f"
proof -
  have "map (\<lambda>f. char_of (97 + f)) [0..<8] ! f = FILES ! f"
    by (simp only: fast_file_chars)
  then show ?thesis using assms by (simp del: upt_Suc)
qed

lemma fast_rank_nth:
  assumes "r < 8"
  shows "char_of (49 + r) = digitChar (r + 1)"
proof -
  have "map (\<lambda>r. char_of (49 + r)) [0..<8] ! r = map (\<lambda>r. digitChar (r + 1)) [0..<8] ! r"
    by (simp only: fast_rank_chars)
  then show ?thesis using assms by (simp del: upt_Suc digitChar.simps)
qed

lemma indexToAlgebraicFast_eq: "i < 64 \<Longrightarrow> indexToAlgebraicFast i = indexToAlgebraic i"
  using fast_file_nth [of "i mod 8"] fast_rank_nth [of "i div 8"]
  by (simp add: indexToAlgebraicFast_def indexToAlgebraic_def indexToFR_def showNat.simps
       less_mult_imp_div_less del: digitChar.simps)

lemma cloneSearch_id [simp]: "cloneSearch (s :: searchState) = s"
  by (simp add: cloneSearch_def newSearchState_def cloneBoard_def)

lemma epAfterSearch_ok:
  assumes "f < 64" and "t < 64"
  shows "epAfterSearch isPawn f t = None
         \<or> (\<exists>e<64. epAfterSearch isPawn f t = Some (indexToAlgebraic e))"
proof -
  define e where "e = nat ((int (f div 8) + int (t div 8)) div 2 * 8 + int (t mod 8))"
  have "(int (f div 8) + int (t div 8)) div 2 \<le> 7" using assms by simp
  then have "(int (f div 8) + int (t div 8)) div 2 * 8 + int (t mod 8) < 64"
    using assms by simp
  then have "e < 64" by (simp add: e_def)
  then show ?thesis
    using indexToAlgebraicFast_eq [of e]
    by (auto simp: epAfterSearch_def Let_def e_def)
qed

lemma genOK_origin_differs:
  assumes "getColorOf (bget b f) = Some col" and "getColorOf (bget b t) \<noteq> Some col"
  shows "f \<noteq> t"
  using assms by auto

lemma boardAfter_capIndexOf:
  "boardAfter b0 m f t mp (Some col) =
     (let b1 = bset b0 f None;
          b2 = (if isEnPassant m then bclear b1 (capIndexOf col t) else b1);
          b3 = (if isCastleKingSide m \<or> isCastleQueenSide m
                then moveRook b2 (if col = White then 0 else 7) (isCastleKingSide m)
                else b2)
      in case promotion m of
           Some promo \<Rightarrow> bset b3 t (Some (Piece (if col = White then White else Black) promo))
         | None \<Rightarrow> bset b3 t mp)"
  by (cases "promotion m"; cases col) (simp_all add: boardAfter_def capIndexOf_def Let_def)

lemma boardAfter_plain_count:
  assumes "plainShape b (indexToAlgebraic f) col m" and "f < 64"
    and "bget b f \<noteq> None" and "getColorOf (bget b f) = Some col"
    and "to m = indexToAlgebraic t" and "t < 64" and "captured m \<noteq> None"
  shows "pieceCount (boardAfter b m f t (bget b f) (Some col)) < pieceCount b"
proof -
  from assms(1) obtain t' where t': "t' < 64" "to m = indexToAlgebraic t'"
    "captured m = bget b t'" "getColorOf (bget b t') \<noteq> Some col"
    and flags: "\<not> isEnPassant m" "\<not> isCastleKingSide m" "\<not> isCastleQueenSide m"
    by (auto simp: plainShape_def)
  have "Inr t = (Inr t' :: error + nat)"
    using t'(1,2) assms(5,6) algebraicToIndex_indexToAlgebraic by metis
  then have tt: "t' = t" by simp
  have ne: "t \<noteq> f" using t'(4) assms(4) tt by auto
  have occ: "bget b t \<noteq> None" using t'(3) assms(7) tt by simp
  define b1 where "b1 = bset b f None"
  have c1: "pieceCount b1 + 1 = pieceCount b"
    using pieceCount_bset [of b f None] assms(3) by (simp add: b1_def)
  have g1: "bget b1 t \<noteq> None" using occ ne by (simp add: b1_def bget_bset)
  have c2: "v \<noteq> None \<Longrightarrow> pieceCount (bset b1 t v) = pieceCount b1" for v
    using pieceCount_bset [of b1 t v] g1 by simp
  have "\<exists>v. v \<noteq> None \<and> boardAfter b m f t (bget b f) (Some col) = bset b1 t v"
    using flags assms(3)
    by (cases "promotion m") (auto simp: boardAfter_capIndexOf Let_def b1_def)
  then have "pieceCount (boardAfter b m f t (bget b f) (Some col)) = pieceCount b1"
    using c2 by auto
  then show ?thesis using c1 by simp
qed

lemma boardAfter_ep_count:
  assumes "epShape b (indexToAlgebraic f) col m" and "f < 64"
    and "bget b f \<noteq> None" and "getColorOf (bget b f) = Some col"
    and "to m = indexToAlgebraic t" and "t < 64"
  shows "pieceCount (boardAfter b m f t (bget b f) (Some col)) < pieceCount b"
proof -
  from assms(1) obtain t' where t': "t' < 64" "to m = indexToAlgebraic t'"
    "bget b t' = None" "0 \<le> capIndexOf col t'" "bget b (nat (capIndexOf col t')) \<noteq> None"
    "getColorOf (bget b (nat (capIndexOf col t'))) \<noteq> Some col"
    and flags: "isEnPassant m" "\<not> isCastleKingSide m" "\<not> isCastleQueenSide m"
    by (auto simp: epShape_def)
  have "Inr t = (Inr t' :: error + nat)"
    using t'(1,2) assms(5,6) algebraicToIndex_indexToAlgebraic by metis
  then have tt: "t' = t" by simp
  define cap where "cap = nat (capIndexOf col t)"
  have capne: "cap \<noteq> f" using t'(6) assms(4) tt by (auto simp: cap_def)
  have capocc: "bget b cap \<noteq> None" using t'(5) tt by (simp add: cap_def)
  have tempty: "bget b t = None" using t'(3) tt by simp
  define b1 where "b1 = bset b f None"
  define b2 where "b2 = bset b1 cap None"
  have c1: "pieceCount b1 + 1 = pieceCount b"
    using pieceCount_bset [of b f None] assms(3) by (simp add: b1_def)
  have "bget b1 cap \<noteq> None" using capocc capne by (simp add: b1_def bget_bset)
  then have c2: "pieceCount b2 + 1 = pieceCount b1"
    using pieceCount_bset [of b1 cap None] by (simp add: b2_def)
  have g2: "bget b2 t = None" using tempty by (simp add: b2_def b1_def bget_bset)
  have c3: "v \<noteq> None \<Longrightarrow> pieceCount (bset b2 t v) = pieceCount b2 + 1" for v
    using pieceCount_bset [of b2 t v] g2 by simp
  have "bclear (bset b f None) (capIndexOf col t) = b2"
    using t'(4) tt by (simp add: bclear_def b2_def b1_def cap_def)
  then have "\<exists>v. v \<noteq> None \<and> boardAfter b m f t (bget b f) (Some col) = bset b2 t v"
    using flags assms(3)
    by (cases "promotion m") (auto simp: boardAfter_capIndexOf Let_def)
  then have "pieceCount (boardAfter b m f t (bget b f) (Some col)) = pieceCount b2 + 1"
    using c3 by auto
  then show ?thesis using c1 c2 by simp
qed

lemma applyMoveSearch_total:
  fixes s :: searchState
  assumes "genOK s m"
  shows "\<exists>nxt. applyMoveSearch (cloneSearch s) m (activeColor s) = Inr nxt \<and> epOK nxt
               \<and> (captured m \<noteq> None \<longrightarrow> pieceCount (board nxt) < pieceCount (board s))"
proof -
  from assms obtain f where f: "f < 64" "bget (board s) f \<noteq> None"
    "getColorOf (bget (board s) f) = Some (activeColor s)"
    and sh: "moveShape (board s) (indexToAlgebraic f) (activeColor s) m"
    by (auto simp: genOK_def)
  from moveShape_squares [OF sh] obtain t where fr: "from m = indexToAlgebraic f"
    and t: "t < 64" "to m = indexToAlgebraic t" by auto
  define isPawn where
    "isPawn = (case bget (board s) f of None \<Rightarrow> False | Some mp \<Rightarrow> typeOf mp = Pawn)"
  define nxt where "nxt = s\<lparr>board :=
                             boardAfter (board s) m f t (bget (board s) f) (Some (activeColor s)),
                           activeColor := oppositeColor (activeColor s),
                           castlingRights :=
                             updateCastlingRightsSearch (castlingRights s) f t (bget (board s) f),
                           enPassantTarget := epAfterSearch isPawn f t,
                           halfmoveClock :=
                             (if isPawn \<or> (captured m \<noteq> None \<or> isEnPassant m) then 0
                              else halfmoveClock s + 1),
                           fullmoveNumber :=
                             (if activeColor s = Black then fullmoveNumber s + 1
                              else fullmoveNumber s)\<rparr>"
  have ap: "applyMoveSearch (cloneSearch s) m (activeColor s) = Inr nxt"
    using f(1) t fr by (simp add: applyMoveSearch_def Let_def nxt_def isPawn_def)
  have ep: "epOK nxt"
    using epAfterSearch_ok [OF f(1) t(1), of isPawn]
    by (auto simp: epOK_def nxt_def)
  have cnt: "pieceCount (board nxt) < pieceCount (board s)" if cap: "captured m \<noteq> None"
  proof -
    from sh cap consider "plainShape (board s) (indexToAlgebraic f) (activeColor s) m"
      | "epShape (board s) (indexToAlgebraic f) (activeColor s) m"
      by (auto simp: moveShape_def castleShape_def)
    then show ?thesis
    proof cases
      case 1
      from boardAfter_plain_count [OF 1 f t(2,1) cap] show ?thesis by (simp add: nxt_def)
    next
      case 2
      from boardAfter_ep_count [OF 2 f t(2,1)] show ?thesis by (simp add: nxt_def)
    qed
  qed
  show ?thesis using ap ep cnt by blast
qed

lemma bindE_cong [fundef_cong]:
  "r = r' \<Longrightarrow> (\<And>x. r' = Inr x \<Longrightarrow> f x = f' x) \<Longrightarrow> bindE r f = bindE r' f'"
  by (cases r') (simp_all add: bindE_def)

lemma quiescenceLoop_cong_aux:
  assumes "\<forall>m\<in>set ms. \<forall>nxt. applyMoveSearch (cloneSearch s) m (activeColor s) = Inr nxt
             \<longrightarrow> rec nxt = rec' nxt"
  shows "quiescenceLoop rec c s ms i v alpha beta n = quiescenceLoop rec' c s ms i v alpha beta n"
  using assms
proof (induction ms arbitrary: i v alpha n)
  case Nil
  show ?case by simp
next
  case (Cons m rest)
  have tl: "quiescenceLoop rec c s rest j w a beta k = quiescenceLoop rec' c s rest j w a beta k"
    for j w a k
    using Cons.IH Cons.prems by simp
  have hd: "applyMoveSearch (cloneSearch s) m (activeColor s) = Inr nxt \<Longrightarrow> rec nxt = rec' nxt"
    for nxt
    using Cons.prems by simp
  show ?case
    by (auto simp: tl Let_def hd split: prod.splits intro!: bindE_cong)
qed

lemma quiescenceLoop_cong [fundef_cong]:
  assumes "c = c'" and "s = s'" and "ms = ms'" and "i = i'" and "v = v'"
    and "alpha = alpha'" and "beta = beta'" and "n = n'"
    and "\<And>m nxt a b sp k. m \<in> set ms' \<Longrightarrow>
           applyMoveSearch (cloneSearch s') m (activeColor s') = Inr nxt \<Longrightarrow>
           rec nxt a b sp k = rec' nxt a b sp k"
  shows "quiescenceLoop rec c s ms i v alpha beta n
         = quiescenceLoop rec' c' s' ms' i' v' alpha' beta' n'"
proof -
  have "\<forall>m\<in>set ms'. \<forall>nxt. applyMoveSearch (cloneSearch s') m (activeColor s') = Inr nxt
          \<longrightarrow> rec nxt = rec' nxt"
    using assms(9) by (intro ballI allI impI ext)
  from quiescenceLoop_cong_aux [OF this] show ?thesis using assms(1-8) by simp
qed

text \<open>quiescence: the stand-pat score, then the first sixteen captures. A capture removes a
  piece from the board, which is why the recursion ends.\<close>

function quiescence ::
  "ctx \<Rightarrow> searchState \<Rightarrow> score \<Rightarrow> score \<Rightarrow> score \<Rightarrow> nat \<Rightarrow> searchResult" where
  "quiescence c s alpha beta standPat n =
     (case timeUp c n of
        (up, n1) \<Rightarrow>
          if up then Inr (None, n1)
          else
            (let val = standPat;
                 alpha' = (if scoreLess alpha val then val else alpha)
             in if scoreLess alpha val \<and> scoreLeq beta alpha' then Inr (Some alpha', n1)
                else
                  bindE (generateLegalMoves s)
                    (\<lambda>allMoves.
                       (let captureMoves = filter (\<lambda>m. captured m \<noteq> None) allMoves;
                            limited = take 16 captureMoves
                        in quiescenceLoop (quiescence c) c s limited 0 val alpha' beta n1))))"
  by pat_completeness auto
termination
proof (relation "measure (\<lambda>(c, s, alpha, beta, standPat, n). pieceCount (board s))", goal_cases)
  case 1
  show ?case by simp
next
  case (2 c s alpha beta standPat n x y xa xb xc xd xe m nxt)
  then have m: "m \<in> set xc" "captured m \<noteq> None"
    by (auto dest: in_set_takeD)
  have "generateLegalMoves s = Inr xc" using 2 by simp
  from generateLegalMoves_Inr_genOK [OF this m(1)] have "genOK s m" .
  from applyMoveSearch_total [OF this] 2 m(2)
  show ?case by simp
qed

declare quiescence.simps [simp del]

subsection \<open>Minimax with alpha-beta\<close>

text \<open>
  The branch \<^verbatim>\<open>depth === 0 || legalMoves.length === 0\<close> of minimax. A quiescence call that
  timed out (\<open>None\<close>) makes minimax return the stand-pat score, not the sentinel.
\<close>

definition minimaxLeaf ::
  "ctx \<Rightarrow> searchState \<Rightarrow> nat \<Rightarrow> score \<Rightarrow> score \<Rightarrow> move list \<Rightarrow> nat \<Rightarrow> searchResult" where
  "minimaxLeaf c s depth alpha beta legalMoves n =
     bindE (if legalMoves = []
            then bindE (isInCheck s None)
                   (\<lambda>inCheck.
                      Inr (if inCheck
                           then (if activeColor s = rootColor c then - 100000 else 100000)
                           else 0))
            else Inr (evaluate s (rootColor c)))
       (\<lambda>baseScore.
          if depth \<le> 0 \<and> level c \<ge> 4
          then
            bindE (quiescence c s alpha beta (Finite baseScore) n)
              (\<lambda>(qScore, n1).
                 (case qScore of
                    None \<Rightarrow> Inr (Some (Finite baseScore), n1)
                  | Some q \<Rightarrow> Inr (Some q, n1)))
          else Inr (Some (Finite baseScore), n))"

text \<open>The two loops of minimax over the ordered moves, with \<open>rec\<close> for the recursive
  call at \<^verbatim>\<open>depth - 1\<close>. The clock is read on every tenth move.\<close>

fun maxLoop ::
  "(searchState \<Rightarrow> score \<Rightarrow> score \<Rightarrow> bool \<Rightarrow> nat \<Rightarrow> searchResult) \<Rightarrow> ctx \<Rightarrow> searchState
   \<Rightarrow> move list \<Rightarrow> nat \<Rightarrow> score \<Rightarrow> score \<Rightarrow> score \<Rightarrow> nat \<Rightarrow> searchResult" where
  "maxLoop rec c s [] i val alpha beta n = Inr (Some val, n)"
| "maxLoop rec c s (m # rest) i val alpha beta n =
     (case (if i mod 10 = 0 then timeUp c n else (False, n)) of
        (up, n1) \<Rightarrow>
          if up then Inr (None, n1)
          else
            bindE (applyMoveSearch (cloneSearch s) m (activeColor s))
              (\<lambda>nxt.
                 bindE (rec nxt alpha beta False n1)
                   (\<lambda>(child, n2).
                      (case child of
                         None \<Rightarrow> Inr (None, n2)
                       | Some ch \<Rightarrow>
                           (let val' = (if scoreLess val ch then ch else val);
                                alpha' = (if scoreLess alpha val' then val' else alpha)
                            in if scoreLeq beta alpha' then Inr (Some val', n2)
                               else maxLoop rec c s rest (i + 1) val' alpha' beta n2)))))"

fun minLoop ::
  "(searchState \<Rightarrow> score \<Rightarrow> score \<Rightarrow> bool \<Rightarrow> nat \<Rightarrow> searchResult) \<Rightarrow> ctx \<Rightarrow> searchState
   \<Rightarrow> move list \<Rightarrow> nat \<Rightarrow> score \<Rightarrow> score \<Rightarrow> score \<Rightarrow> nat \<Rightarrow> searchResult" where
  "minLoop rec c s [] i val alpha beta n = Inr (Some val, n)"
| "minLoop rec c s (m # rest) i val alpha beta n =
     (case (if i mod 10 = 0 then timeUp c n else (False, n)) of
        (up, n1) \<Rightarrow>
          if up then Inr (None, n1)
          else
            bindE (applyMoveSearch (cloneSearch s) m (activeColor s))
              (\<lambda>nxt.
                 bindE (rec nxt alpha beta True n1)
                   (\<lambda>(child, n2).
                      (case child of
                         None \<Rightarrow> Inr (None, n2)
                       | Some ch \<Rightarrow>
                           (let val' = (if scoreLess ch val then ch else val);
                                beta' = (if scoreLess val' beta then val' else beta)
                            in if scoreLeq beta' alpha then Inr (Some val', n2)
                               else minLoop rec c s rest (i + 1) val' alpha beta' n2)))))"

text \<open>
  minimax, by recursion on the depth. The depth is a natural number: searchRoot passes
  \<^verbatim>\<open>depth - 1\<close> for a depth of at least 1, and a call recurses with \<^verbatim>\<open>depth - 1\<close> only when
  its depth is not 0.
\<close>

fun minimax ::
  "ctx \<Rightarrow> nat \<Rightarrow> searchState \<Rightarrow> score \<Rightarrow> score \<Rightarrow> bool \<Rightarrow> nat \<Rightarrow> searchResult" where
  "minimax c 0 s alpha beta isMaximizing n =
     (case timeUp c n of
        (up, n1) \<Rightarrow>
          if up then Inr (None, n1)
          else bindE (generateLegalMoves s)
                 (\<lambda>legalMoves. minimaxLeaf c s 0 alpha beta legalMoves n1))"
| "minimax c (Suc d) s alpha beta isMaximizing n =
     (case timeUp c n of
        (up, n1) \<Rightarrow>
          if up then Inr (None, n1)
          else
            bindE (generateLegalMoves s)
              (\<lambda>legalMoves.
                 if legalMoves = [] then minimaxLeaf c s (Suc d) alpha beta legalMoves n1
                 else
                   (let ordered = sortDescending orderingValue legalMoves in
                    if isMaximizing
                    then maxLoop (minimax c d) c s ordered 0 MinusInfinity alpha beta n1
                    else minLoop (minimax c d) c s ordered 0 PlusInfinity alpha beta n1)))"

subsection \<open>The root search\<close>

text \<open>
  The first loop of searchRoot. It stops (\<^verbatim>\<open>break\<close>) when the budget is exceeded before a
  move, when minimax returns the sentinel, or on a cut-off, and hands on the best move and
  score found so far.
\<close>

fun rootLoop ::
  "(searchState \<Rightarrow> score \<Rightarrow> score \<Rightarrow> bool \<Rightarrow> nat \<Rightarrow> searchResult) \<Rightarrow> ctx \<Rightarrow> searchState
   \<Rightarrow> bool \<Rightarrow> move list \<Rightarrow> move option \<Rightarrow> score \<Rightarrow> score \<Rightarrow> score \<Rightarrow> nat
   \<Rightarrow> error + (move option \<times> score \<times> nat)" where
  "rootLoop rec c s isMaximizing [] bestMove bestScore alpha beta n =
     Inr (bestMove, bestScore, n)"
| "rootLoop rec c s isMaximizing (m # rest) bestMove bestScore alpha beta n =
     (case timeUp c n of
        (up, n1) \<Rightarrow>
          if up then Inr (bestMove, bestScore, n1)
          else
            bindE (applyMoveSearch (cloneSearch s) m (activeColor s))
              (\<lambda>nxt.
                 bindE (rec nxt alpha beta (\<not> isMaximizing) n1)
                   (\<lambda>(r, n2).
                      (case r of
                         None \<Rightarrow> Inr (bestMove, bestScore, n2)
                       | Some sc \<Rightarrow>
                           (let better = (if isMaximizing then scoreLess bestScore sc
                                          else scoreLess sc bestScore);
                                bestScore' = (if better then sc else bestScore);
                                bestMove' = (if better then Some m else bestMove);
                                alpha' = (if isMaximizing \<and> scoreLess alpha sc then sc
                                          else alpha);
                                beta' = (if \<not> isMaximizing \<and> scoreLess sc beta then sc
                                         else beta)
                            in if scoreLeq beta' alpha' then Inr (bestMove', bestScore', n2)
                               else rootLoop rec c s isMaximizing rest bestMove' bestScore'
                                      alpha' beta' n2)))))"

fun randomness :: "int \<Rightarrow> real" where
  "randomness lv =
     (if lv = 1 then 0.4 else if lv = 2 then 0.25 else if lv = 3 then 0.15
      else if lv = 4 then 0.08 else if lv = 5 then 0.05 else 0)"

fun depthForLevel :: "int \<Rightarrow> nat option" where
  "depthForLevel lv =
     (if lv = 1 then Some 1 else if lv = 2 then Some 2 else if lv = 3 then Some 3
      else if lv = 4 then Some 3 else if lv = 5 then Some 4 else None)"

text \<open>\<^verbatim>\<open>Math.abs(score - bestScore) <= band\<close>, where the best score may still be an
  infinity (then the difference is infinite and the test fails).\<close>

definition withinBand :: "int \<Rightarrow> score \<Rightarrow> real \<Rightarrow> bool" where
  "withinBand sc bestScore band =
     (case bestScore of Finite bs \<Rightarrow> real_of_int \<bar>sc - bs\<bar> \<le> band | _ \<Rightarrow> False)"

text \<open>The second loop of searchRoot: the moves whose one-ply static score is within the
  band of the best score.\<close>

fun candidateLoop ::
  "ctx \<Rightarrow> searchState \<Rightarrow> score \<Rightarrow> real \<Rightarrow> move list \<Rightarrow> nat \<Rightarrow> error + (move list \<times> nat)" where
  "candidateLoop c s bestScore band [] n = Inr ([], n)"
| "candidateLoop c s bestScore band (m # rest) n =
     (case timeUp c n of
        (up, n1) \<Rightarrow>
          if up then Inr ([], n1)
          else
            bindE (applyMoveSearch (cloneSearch s) m (activeColor s))
              (\<lambda>nxt.
                 bindE (candidateLoop c s bestScore band rest n1)
                   (\<lambda>(cs, n2).
                      Inr (if withinBand (evaluate nxt (rootColor c)) bestScore band
                           then m # cs else cs, n2))))"

text \<open>\<^verbatim>\<open>xs[Math.floor(Math.random() * xs.length)]\<close>, which is \<^verbatim>\<open>undefined\<close> outside the
  array.\<close>

definition randomPick :: "real \<Rightarrow> 'a list \<Rightarrow> 'a option" where
  "randomPick r xs =
     (let i = \<lfloor>r * real (length xs)\<rfloor> in
      if 0 \<le> i \<and> nat i < length xs then Some (xs ! nat i) else None)"

text \<open>
  searchRoot. The counters are the numbers of clock and random readings made so far. A
  depth of 0 would call minimax with depth -1, which the recursion on natural numbers above
  does not follow: \<open>OutsideModel\<close>.
\<close>

definition searchRoot ::
  "ctx \<Rightarrow> searchState \<Rightarrow> move list \<Rightarrow> nat \<Rightarrow> nat \<Rightarrow> nat
   \<Rightarrow> error + (move option \<times> nat \<times> nat)" where
  "searchRoot c s legalMoves depth n k =
     (case depth of
        0 \<Rightarrow> Inl OutsideModel
      | Suc d \<Rightarrow>
          (let isMaximizing = (activeColor s = rootColor c);
               ordered = sortDescending capturedValue legalMoves;
               bestMove0 = (case ordered of [] \<Rightarrow> None | m # _ \<Rightarrow> Some m);
               bestScore0 = (if isMaximizing then MinusInfinity else PlusInfinity)
           in bindE (rootLoop (minimax c d) c s isMaximizing ordered bestMove0 bestScore0
                       MinusInfinity PlusInfinity n)
                (\<lambda>(bestMove, bestScore, n1).
                   (case timeUp c n1 of
                      (up, n2) \<Rightarrow>
                        if up then Inr (bestMove, n2, k)
                        else
                          (let jitter = randomness (level c) in
                           if jitter > 0 \<and> length ordered > 1
                           then
                             bindE (candidateLoop c s bestScore
                                      (real_of_int (PIECE_VALUES Pawn) * jitter * 2) ordered n2)
                               (\<lambda>(candidates, n3).
                                  if length candidates > 0
                                  then Inr (randomPick (rnd c k) candidates, n3, Suc k)
                                  else Inr (bestMove, n3, k))
                           else Inr (bestMove, n2, k))))))"

subsection \<open>Progressive deepening and the top-level API\<close>

text \<open>
  The \<^verbatim>\<open>while\<close> loop of progressiveDeepeningSearch, from \<^verbatim>\<open>currentDepth\<close> on. The two
  budget tests of this loop read the clock whatever the budget is. The \<^verbatim>\<open>await\<close> between
  the iterations only lets time pass.
\<close>

function deepenLoop ::
  "ctx \<Rightarrow> searchState \<Rightarrow> move list \<Rightarrow> nat \<Rightarrow> int \<Rightarrow> int \<Rightarrow> nat \<Rightarrow> move option \<Rightarrow> nat \<Rightarrow> nat
   \<Rightarrow> error + (move option \<times> nat \<times> nat)" where
  "deepenLoop c s legalMoves maxDepth budget start currentDepth bestMove n k =
     (if currentDepth \<le> maxDepth
      then
        (if clk c n - start \<ge> budget then Inr (bestMove, Suc n, k)
         else
           bindE (searchRoot c s legalMoves currentDepth (Suc n) k)
             (\<lambda>(mv, n1, k1).
                (let bestMove' = (case mv of Some m \<Rightarrow> Some m | None \<Rightarrow> bestMove) in
                 if clk c n1 - start \<ge> budget then Inr (bestMove', Suc n1, k1)
                 else deepenLoop c s legalMoves maxDepth budget start (currentDepth + 1)
                        bestMove' (Suc n1) k1)))
      else Inr (bestMove, n, k))"
  by pat_completeness auto
termination
  by (relation "measure (\<lambda>(c, s, legalMoves, maxDepth, budget, start, currentDepth, bestMove, n, k).
        Suc maxDepth - currentDepth)") auto

declare deepenLoop.simps [simp del]

text \<open>
  What the caller of findBestMove supplies besides the game state: the two sources of
  readings, and how many readings were made before the call.
\<close>

definition progressiveDeepeningSearch ::
  "(nat \<Rightarrow> int) \<Rightarrow> (nat \<Rightarrow> real) \<Rightarrow> searchState \<Rightarrow> move list \<Rightarrow> nat \<Rightarrow> color \<Rightarrow> int \<Rightarrow> int
   \<Rightarrow> nat \<Rightarrow> nat \<Rightarrow> error + (move option \<times> nat \<times> nat)" where
  "progressiveDeepeningSearch clock random s legalMoves maxDepth col lv budget n k =
     (let start = clock n;
          c = \<lparr>clk = clock, rnd = random, timeout = Some budget, startTime = Some start,
               rootColor = col, level = lv\<rparr>;
          bestMove = (case legalMoves of [] \<Rightarrow> None | m # _ \<Rightarrow> Some m)
      in deepenLoop c s legalMoves maxDepth budget start 1 bestMove (Suc n) k)"

text \<open>pickLevel1Move: the moves scored one ply deep, the best 40 percent of them kept, one
  of those drawn. Reading \<^verbatim>\<open>.move\<close> of \<^verbatim>\<open>undefined\<close> would be a TypeError.\<close>

definition pickLevel1Move ::
  "(nat \<Rightarrow> real) \<Rightarrow> searchState \<Rightarrow> move list \<Rightarrow> color \<Rightarrow> nat \<Rightarrow> error + (move option \<times> nat)" where
  "pickLevel1Move random s moves col k =
     bindE (concatMapE
              (\<lambda>m. bindE (applyMoveSearch (cloneSearch s) m (activeColor s))
                      (\<lambda>nxt. Inr [(m, evaluate nxt col)]))
              moves)
       (\<lambda>scored.
          (let sorted = sortDescending snd scored;
               keepCount = max 1 (nat \<lfloor>real (length sorted) * 0.4\<rfloor>);
               top = take keepCount sorted
           in case randomPick (random k) top of
                None \<Rightarrow> Inl TypeError
              | Some entry \<Rightarrow> Inr (Some (fst entry), Suc k)))"

text \<open>
  findBestMove. \<open>lv\<close> is \<^verbatim>\<open>Number(level)\<close> (an integer here; 0 stands for every falsy
  value), \<open>budgetOpt\<close> the timeout option, 10000 when absent. The result is the move, or
  \<open>None\<close> for \<^verbatim>\<open>null\<close>, with the two counters.
\<close>

definition findBestMove ::
  "(nat \<Rightarrow> int) \<Rightarrow> (nat \<Rightarrow> real) \<Rightarrow> 'a searchState_scheme \<Rightarrow> int \<Rightarrow> color \<Rightarrow> int option
   \<Rightarrow> nat \<Rightarrow> nat \<Rightarrow> error + (move option \<times> nat \<times> nat)" where
  "findBestMove clock random gs lv forColor budgetOpt n k =
     (let budget = (case budgetOpt of None \<Rightarrow> 10000 | Some t \<Rightarrow> t);
          clampedLevel = max 1 (min 5 (if lv = 0 then 1 else lv));
          depth = depthForLevel clampedLevel;
          baseState = newSearchState gs
      in bindE (generateLegalMoves baseState)
           (\<lambda>legalMoves.
              if length legalMoves = 0 then Inr (None, n, k)
              else if clampedLevel = 1
              then bindE (pickLevel1Move random baseState legalMoves forColor k)
                     (\<lambda>(mv, k1). Inr (mv, n, k1))
              else if clampedLevel \<ge> 2
              then
                (case depth of
                   None \<Rightarrow> Inl OutsideModel
                 | Some d \<Rightarrow>
                     progressiveDeepeningSearch clock random baseState legalMoves d forColor
                       clampedLevel budget n k)
              else
                (case depth of
                   None \<Rightarrow> Inl OutsideModel
                 | Some d \<Rightarrow>
                     searchRoot
                       \<lparr>clk = clock, rnd = random, timeout = None, startTime = None,
                        rootColor = forColor, level = clampedLevel\<rparr>
                       baseState legalMoves d n k)))"

section \<open>The search returns\<close>

text \<open>On a position whose en-passant target is a square name or absent, no call of the
  search raises: every generated move names squares of the board, and every position the
  search reaches has such a target again.\<close>

lemma set_sortDescending [simp]: "set (sortDescending key xs) = set xs"
  by (simp add: sortDescending_def)

lemma sortDescending_Nil_iff [simp]: "sortDescending key xs = [] \<longleftrightarrow> xs = []"
  by (metis set_sortDescending set_empty)

lemma quiescenceLoop_total:
  fixes s :: searchState
  assumes "\<forall>m\<in>set ms. genOK s m"
    and "\<forall>m\<in>set ms. \<forall>nxt. applyMoveSearch (cloneSearch s) m (activeColor s) = Inr nxt
           \<longrightarrow> (\<forall>a b sp k. \<exists>r. rec nxt a b sp k = Inr r)"
  shows "\<exists>r. quiescenceLoop rec c s ms i v alpha beta n = Inr r"
  using assms
proof (induction ms arbitrary: i v alpha n)
  case Nil
  show ?case by simp
next
  case (Cons m rest)
  obtain up n1 where t: "(if i mod 5 = 0 then timeUp c n else (False, n)) = (up, n1)"
    by (cases "if i mod 5 = 0 then timeUp c n else (False, n)")
  show ?case
  proof (cases up)
    case True
    then show ?thesis using t by simp
  next
    case False
    from Cons.prems(1) have "genOK s m" by simp
    from applyMoveSearch_total [OF this] obtain nxt where
      nxt: "applyMoveSearch (cloneSearch s) m (activeColor s) = Inr nxt" by blast
    obtain r n2 where r: "rec nxt (scoreNeg beta) (scoreNeg alpha)
                            (Finite (evaluate nxt (rootColor c))) n1 = Inr (r, n2)"
      using Cons.prems(2) nxt by (metis list.set_intros(1) surj_pair)
    have tl: "\<exists>r. quiescenceLoop rec c s rest j w a beta k = Inr r" for j w a k
      by (rule Cons.IH) (use Cons.prems in auto)
    show ?thesis using t False nxt r tl by (simp add: Let_def)
  qed
qed

lemma quiescence_total:
  "epOK s \<Longrightarrow> \<exists>r. quiescence c s alpha beta standPat n = Inr r"
proof (induction c s alpha beta standPat n rule: quiescence.induct)
  case (1 c s alpha beta standPat n)
  obtain up n1 where t: "timeUp c n = (up, n1)" by (cases "timeUp c n")
  obtain ms where ms: "generateLegalMoves s = Inr ms" "\<forall>m\<in>set ms. genOK s m"
    using generateLegalMoves_total [OF "1.prems"] by blast
  define limited where "limited = take 16 (filter (\<lambda>m. captured m \<noteq> None) ms)"
  have lim: "\<forall>m\<in>set limited. genOK s m"
    using ms(2) by (auto simp: limited_def dest: in_set_takeD)
  define alpha' where "alpha' = (if scoreLess alpha standPat then standPat else alpha)"
  show ?case
  proof (cases "up \<or> (scoreLess alpha standPat \<and> scoreLeq beta alpha')")
    case True
    then show ?thesis using t
      by (auto simp: quiescence.simps [of c s alpha beta standPat n] Let_def alpha'_def)
  next
    case False
    have "\<exists>r. quiescenceLoop (quiescence c) c s limited 0 standPat alpha' beta n1 = Inr r"
    proof (rule quiescenceLoop_total [OF lim], intro ballI allI impI)
      fix m nxt a b sp k
      assume m: "m \<in> set limited"
        and ap: "applyMoveSearch (cloneSearch s) m (activeColor s) = Inr nxt"
      have "genOK s m" using lim m by simp
      from applyMoveSearch_total [OF this] ap have "epOK nxt" by auto
      then show "\<exists>r. quiescence c nxt a b sp k = Inr r"
        using "1.IH" [OF t [symmetric] _ refl refl _ ms(1) refl refl _ ap, of a b sp k] False m
        by (auto simp: limited_def alpha'_def)
    qed
    then show ?thesis using t False ms(1)
      by (auto simp: quiescence.simps [of c s alpha beta standPat n] Let_def alpha'_def
          limited_def)
  qed
qed


lemma isInCheck_value:
  "isInCheck s ov =
     (let col = (case ov of Some col \<Rightarrow> col | None \<Rightarrow> activeColor s) in
      case find (\<lambda>i. bget (board s) i = Some (Piece col King)) [0..<64] of
        None \<Rightarrow> Inr False
      | Some i \<Rightarrow> Inr (attackedAt (board s) i (oppositeColor col)))"
proof -
  define col where "col = (case ov of Some col \<Rightarrow> col | None \<Rightarrow> activeColor s)"
  have kc: "(if col = White then Piece White King else Piece Black King) = Piece col King"
    by (cases col) simp_all
  show ?thesis
  proof (cases "find (\<lambda>i. bget (board s) i = Some (Piece col King)) [0..<64]")
    case None
    then show ?thesis
      by (simp add: isInCheck_def findKingSquare_def Let_def col_def [symmetric] kc)
  next
    case (Some i)
    then have "i < 64" using find_upt_less by blast
    then show ?thesis using Some
      by (simp add: isInCheck_def findKingSquare_def Let_def col_def [symmetric] kc)
  qed
qed

lemma isInCheck_Inr: "\<exists>r. isInCheck s ov = Inr r"
  unfolding isInCheck_value Let_def by (auto split: option.splits)

lemma minimaxLeaf_total:
  assumes "epOK s"
  shows "\<exists>r. minimaxLeaf c s depth alpha beta legalMoves n = Inr r"
proof -
  obtain chk where chk: "isInCheck s None = Inr chk" using isInCheck_Inr by blast
  obtain base where base: "(if legalMoves = []
            then bindE (isInCheck s None)
                   (\<lambda>inCheck.
                      Inr (if inCheck
                           then (if activeColor s = rootColor c then - 100000 else 100000)
                           else 0))
            else Inr (evaluate s (rootColor c))) = Inr base"
    using chk by (cases "legalMoves = []") simp_all
  obtain q n1 where q: "quiescence c s alpha beta (Finite base) n = Inr (q, n1)"
    using quiescence_total [OF assms] by (metis surj_pair)
  show ?thesis
    unfolding minimaxLeaf_def base using q by (auto split: option.splits)
qed

lemma maxLoop_total:
  fixes s :: searchState
  assumes "\<forall>m\<in>set ms. genOK s m"
    and "\<And>nxt a b mx k. epOK nxt \<Longrightarrow> \<exists>r. rec nxt a b mx k = Inr r"
  shows "\<exists>r. maxLoop rec c s ms i v alpha beta n = Inr r"
  using assms(1)
proof (induction ms arbitrary: i v alpha n)
  case Nil
  show ?case by simp
next
  case (Cons m rest)
  obtain up n1 where t: "(if i mod 10 = 0 then timeUp c n else (False, n)) = (up, n1)"
    by (cases "if i mod 10 = 0 then timeUp c n else (False, n)")
  show ?case
  proof (cases up)
    case True
    then show ?thesis using t by simp
  next
    case False
    from Cons.prems have "genOK s m" by simp
    from applyMoveSearch_total [OF this] obtain nxt where
      nxt: "applyMoveSearch (cloneSearch s) m (activeColor s) = Inr nxt" "epOK nxt" by blast
    obtain r n2 where r: "rec nxt alpha beta False n1 = Inr (r, n2)"
      using assms(2) [OF nxt(2)] by (metis surj_pair)
    have tl: "\<exists>r. maxLoop rec c s rest j w a beta k = Inr r" for j w a k
      by (rule Cons.IH) (use Cons.prems in auto)
    show ?thesis using t False nxt(1) r tl by (cases r) (simp_all add: Let_def)
  qed
qed

lemma minLoop_total:
  fixes s :: searchState
  assumes "\<forall>m\<in>set ms. genOK s m"
    and "\<And>nxt a b mx k. epOK nxt \<Longrightarrow> \<exists>r. rec nxt a b mx k = Inr r"
  shows "\<exists>r. minLoop rec c s ms i v alpha beta n = Inr r"
  using assms(1)
proof (induction ms arbitrary: i v beta n)
  case Nil
  show ?case by simp
next
  case (Cons m rest)
  obtain up n1 where t: "(if i mod 10 = 0 then timeUp c n else (False, n)) = (up, n1)"
    by (cases "if i mod 10 = 0 then timeUp c n else (False, n)")
  show ?case
  proof (cases up)
    case True
    then show ?thesis using t by simp
  next
    case False
    from Cons.prems have "genOK s m" by simp
    from applyMoveSearch_total [OF this] obtain nxt where
      nxt: "applyMoveSearch (cloneSearch s) m (activeColor s) = Inr nxt" "epOK nxt" by blast
    obtain r n2 where r: "rec nxt alpha beta True n1 = Inr (r, n2)"
      using assms(2) [OF nxt(2)] by (metis surj_pair)
    have tl: "\<exists>r. minLoop rec c s rest j w alpha b k = Inr r" for j w b k
      by (rule Cons.IH) (use Cons.prems in auto)
    show ?thesis using t False nxt(1) r tl by (cases r) (simp_all add: Let_def)
  qed
qed

lemma minimax_total:
  "epOK s \<Longrightarrow> \<exists>r. minimax c d s alpha beta mx n = Inr r"
proof (induction d arbitrary: s alpha beta mx n)
  case 0
  obtain up n1 where t: "timeUp c n = (up, n1)" by (cases "timeUp c n")
  obtain ms where ms: "generateLegalMoves s = Inr ms"
    using generateLegalMoves_total [OF 0] by blast
  show ?case using t ms minimaxLeaf_total [OF 0] by simp
next
  case (Suc d)
  obtain up n1 where t: "timeUp c n = (up, n1)" by (cases "timeUp c n")
  obtain ms where ms: "generateLegalMoves s = Inr ms" "\<forall>m\<in>set ms. genOK s m"
    using generateLegalMoves_total [OF Suc.prems] by blast
  have ord: "\<forall>m\<in>set (sortDescending orderingValue ms). genOK s m" using ms(2) by simp
  have rec: "\<And>nxt a b mx k. epOK nxt \<Longrightarrow> \<exists>r. minimax c d nxt a b mx k = Inr r"
    using Suc.IH by blast
  show ?case
    using t ms(1) minimaxLeaf_total [OF Suc.prems]
      maxLoop_total [OF ord rec] minLoop_total [OF ord rec]
    by (simp add: Let_def)
qed

lemma rootLoop_total:
  fixes s :: searchState
  assumes "\<forall>m\<in>set ms. genOK s m"
    and "\<And>nxt a b mx k. epOK nxt \<Longrightarrow> \<exists>r. rec nxt a b mx k = Inr r"
  shows "\<exists>bm bs n'. rootLoop rec c s isMax ms bestMove bestScore alpha beta n = Inr (bm, bs, n')
                    \<and> (bm = bestMove \<or> bm \<in> Some ` set ms)"
  using assms(1)
proof (induction ms arbitrary: bestMove bestScore alpha beta n)
  case Nil
  show ?case by simp
next
  case (Cons m rest)
  obtain up n1 where t: "timeUp c n = (up, n1)" by (cases "timeUp c n")
  show ?case
  proof (cases up)
    case True
    then show ?thesis using t by simp
  next
    case False
    from Cons.prems have "genOK s m" by simp
    from applyMoveSearch_total [OF this] obtain nxt where
      nxt: "applyMoveSearch (cloneSearch s) m (activeColor s) = Inr nxt" "epOK nxt" by blast
    obtain r n2 where r: "rec nxt alpha beta (\<not> isMax) n1 = Inr (r, n2)"
      using assms(2) [OF nxt(2)] by (metis surj_pair)
    show ?thesis
    proof (cases r)
      case None
      then show ?thesis using t False nxt(1) r by simp
    next
      case (Some sc)
      define better where "better = (if isMax then scoreLess bestScore sc
                                     else scoreLess sc bestScore)"
      define bestScore' where "bestScore' = (if better then sc else bestScore)"
      define bestMove' where "bestMove' = (if better then Some m else bestMove)"
      define alpha' where "alpha' = (if isMax \<and> scoreLess alpha sc then sc else alpha)"
      define beta' where "beta' = (if \<not> isMax \<and> scoreLess sc beta then sc else beta)"
      have bm: "bestMove' = bestMove \<or> bestMove' = Some m" by (simp add: bestMove'_def)
      have eq: "rootLoop rec c s isMax (m # rest) bestMove bestScore alpha beta n
                = (if scoreLeq beta' alpha' then Inr (bestMove', bestScore', n2)
                   else rootLoop rec c s isMax rest bestMove' bestScore' alpha' beta' n2)"
        using t False nxt(1) r Some
        by (simp add: Let_def better_def bestScore'_def bestMove'_def alpha'_def beta'_def)
      obtain bm2 bs2 n3 where tl:
        "rootLoop rec c s isMax rest bestMove' bestScore' alpha' beta' n2 = Inr (bm2, bs2, n3)"
        "bm2 = bestMove' \<or> bm2 \<in> Some ` set rest"
        using Cons.IH [of bestMove' bestScore' alpha' beta' n2] Cons.prems by auto
      show ?thesis using eq tl bm by (cases "scoreLeq beta' alpha'") auto
    qed
  qed
qed

lemma candidateLoop_total:
  fixes s :: searchState
  assumes "\<forall>m\<in>set ms. genOK s m"
  shows "\<exists>cs n'. candidateLoop c s bestScore band ms n = Inr (cs, n') \<and> set cs \<subseteq> set ms"
  using assms
proof (induction ms arbitrary: n)
  case Nil
  show ?case by simp
next
  case (Cons m rest)
  obtain up n1 where t: "timeUp c n = (up, n1)" by (cases "timeUp c n")
  show ?case
  proof (cases up)
    case True
    then show ?thesis using t by simp
  next
    case False
    from Cons.prems have "genOK s m" by simp
    from applyMoveSearch_total [OF this] obtain nxt where
      nxt: "applyMoveSearch (cloneSearch s) m (activeColor s) = Inr nxt" by blast
    obtain cs n2 where tl: "candidateLoop c s bestScore band rest n1 = Inr (cs, n2)"
      "set cs \<subseteq> set rest"
      using Cons.IH [of n1] Cons.prems by auto
    show ?thesis using t False nxt tl by auto
  qed
qed

lemma randomPick_member:
  assumes "0 \<le> r" and "r < 1" and "xs \<noteq> []"
  shows "\<exists>x\<in>set xs. randomPick r xs = Some x"
proof -
  define i where "i = \<lfloor>r * real (length xs)\<rfloor>"
  have pos: "0 < real (length xs)" using assms(3) by simp
  have "0 \<le> r * real (length xs)" using assms(1) by simp
  then have i0: "0 \<le> i" by (simp add: i_def)
  have "r * real (length xs) < real (length xs)" using assms(2) pos by simp
  then have "i < int (length xs)" unfolding i_def by (simp add: floor_less_iff)
  then have "nat i < length xs" using i0 by simp
  then show ?thesis using i0 by (auto simp: randomPick_def Let_def i_def [symmetric])
qed

lemma searchRoot_member:
  fixes s :: searchState
  assumes "\<forall>m\<in>set legal. genOK s m" and "legal \<noteq> []" and "epOK s"
    and "0 \<le> rnd c k" and "rnd c k < 1" and "depth \<noteq> 0"
  shows "\<exists>m n' k'. searchRoot c s legal depth n k = Inr (Some m, n', k') \<and> m \<in> set legal"
proof -
  obtain d where d: "depth = Suc d" using assms(6) by (cases depth) auto
  define isMax where "isMax = (activeColor s = rootColor c)"
  define ordered where "ordered = sortDescending capturedValue legal"
  have ord: "\<forall>m\<in>set ordered. genOK s m" using assms(1) by (simp add: ordered_def)
  have ne: "ordered \<noteq> []" using assms(2) by (simp add: ordered_def)
  then obtain m0 where m0: "(case ordered of [] \<Rightarrow> None | m # _ \<Rightarrow> Some m) = Some m0"
    "m0 \<in> set ordered"
    by (cases ordered) auto
  have rec: "\<And>nxt a b mx j. epOK nxt \<Longrightarrow> \<exists>r. minimax c d nxt a b mx j = Inr r"
    using minimax_total by blast
  obtain bm bs n1 where rl:
    "rootLoop (minimax c d) c s isMax ordered (Some m0)
       (if isMax then MinusInfinity else PlusInfinity) MinusInfinity PlusInfinity n
     = Inr (bm, bs, n1)" "bm = Some m0 \<or> bm \<in> Some ` set ordered"
    using rootLoop_total [where rec = "minimax c d" and isMax = isMax and bestMove = "Some m0",
        OF ord rec] by blast
  then obtain mb where mb: "bm = Some mb" "mb \<in> set ordered" using m0(2) by auto
  obtain up n2 where t: "timeUp c n1 = (up, n2)" by (cases "timeUp c n1")
  obtain cs n3 where cl: "candidateLoop c s bs
       (real_of_int (PIECE_VALUES Pawn) * randomness (level c) * 2) ordered n2 = Inr (cs, n3)"
    "set cs \<subseteq> set ordered"
    using candidateLoop_total [OF ord] by blast
  have pick: "cs \<noteq> [] \<Longrightarrow> \<exists>x\<in>set cs. randomPick (rnd c k) cs = Some x"
    using randomPick_member [OF assms(4,5)] by blast
  have "\<exists>m n' k'. searchRoot c s legal depth n k = Inr (Some m, n', k') \<and> m \<in> set ordered"
    unfolding searchRoot_def d
    using rl(1) mb t cl pick m0(1)
    by (auto simp: Let_def isMax_def [symmetric] ordered_def [symmetric] simp del: randomness.simps)
  then show ?thesis by (simp add: ordered_def)
qed

lemma deepenLoop_member:
  fixes s :: searchState
  assumes "\<forall>m\<in>set legal. genOK s m" and "legal \<noteq> []" and "epOK s"
    and "\<forall>j. 0 \<le> rnd c j \<and> rnd c j < 1"
  shows "m0 \<in> set legal \<Longrightarrow> cur \<noteq> 0 \<Longrightarrow>
         \<exists>m n' k'. deepenLoop c s legal maxDepth budget start cur (Some m0) n k
                      = Inr (Some m, n', k') \<and> m \<in> set legal"
proof (induction x \<equiv> "Suc maxDepth - cur" arbitrary: cur m0 n k)
  case 0
  then have "\<not> cur \<le> maxDepth" by simp
  then show ?case using 0
    by (simp add: deepenLoop.simps [of c s legal maxDepth budget start cur "Some m0" n k])
next
  case (Suc x)
  note unf = deepenLoop.simps [of c s legal maxDepth budget start cur "Some m0" n k]
  show ?case
  proof (cases "cur \<le> maxDepth \<and> \<not> clk c n - start \<ge> budget")
    case False
    then show ?thesis using Suc.prems by (auto simp: unf)
  next
    case True
    have r: "0 \<le> rnd c k" "rnd c k < 1" using assms(4) by auto
    obtain m n1 k1 where sr: "searchRoot c s legal cur (Suc n) k = Inr (Some m, n1, k1)"
      "m \<in> set legal"
      using searchRoot_member [OF assms(1-3) r Suc.prems(2)] by blast
    have x: "x = Suc maxDepth - (cur + 1)" using Suc.hyps(2) by simp
    obtain m' n' k' where
      "deepenLoop c s legal maxDepth budget start (Suc cur) (Some m) (Suc n1) k1
         = Inr (Some m', n', k')" "m' \<in> set legal"
      using Suc.hyps(1) [OF x sr(2), of "Suc n1" k1] by auto
    then show ?thesis using True sr by (auto simp: unf Let_def)
  qed
qed

lemma concatMapE_scored:
  fixes s :: searchState
  assumes "\<forall>m\<in>set ms. genOK s m"
  shows "\<exists>scored. concatMapE
              (\<lambda>m. bindE (applyMoveSearch (cloneSearch s) m (activeColor s))
                      (\<lambda>nxt. Inr [(m, evaluate nxt col)])) ms = Inr scored
           \<and> map fst scored = ms"
  using assms
proof (induction ms)
  case Nil
  show ?case by simp
next
  case (Cons m rest)
  from Cons.prems have "genOK s m" by simp
  from applyMoveSearch_total [OF this] obtain nxt where
    nxt: "applyMoveSearch (cloneSearch s) m (activeColor s) = Inr nxt" by blast
  obtain scored where sc: "concatMapE
              (\<lambda>m. bindE (applyMoveSearch (cloneSearch s) m (activeColor s))
                      (\<lambda>nxt. Inr [(m, evaluate nxt col)])) rest = Inr scored"
    "map fst scored = rest"
    using Cons.IH Cons.prems by auto
  show ?case using nxt sc by simp
qed

lemma pickLevel1Move_member:
  fixes s :: searchState
  assumes "\<forall>m\<in>set ms. genOK s m" and "ms \<noteq> []" and "0 \<le> random k" and "random k < 1"
  shows "\<exists>m k'. pickLevel1Move random s ms col k = Inr (Some m, k') \<and> m \<in> set ms"
proof -
  obtain scored where sc: "concatMapE
              (\<lambda>m. bindE (applyMoveSearch (cloneSearch s) m (activeColor s))
                      (\<lambda>nxt. Inr [(m, evaluate nxt col)])) ms = Inr scored"
    "map fst scored = ms"
    using concatMapE_scored [OF assms(1)] by blast
  define top where "top = take (max 1 (nat \<lfloor>real (length (sortDescending snd scored)) * 0.4\<rfloor>))
                            (sortDescending snd scored)"
  have "scored \<noteq> []" using sc(2) assms(2) by auto
  then have "sortDescending snd scored \<noteq> []" by simp
  then have "top \<noteq> []" by (simp add: top_def)
  from randomPick_member [OF assms(3,4) this]
  obtain e where e: "e \<in> set top" "randomPick (random k) top = Some e" by blast
  have "e \<in> set scored" using e(1) by (auto simp: top_def dest: in_set_takeD)
  then have "fst e \<in> set ms" using sc(2) by (metis image_eqI set_map)
  moreover have "pickLevel1Move random s ms col k
        = (case randomPick (random k) top of
             None \<Rightarrow> Inl TypeError
           | Some entry \<Rightarrow> Inr (Some (fst entry), Suc k))"
    unfolding pickLevel1Move_def top_def Let_def by (simp only: sc(1) bindE_simps)
  ultimately show ?thesis using e(2) by simp
qed

lemma findBestMove_member:
  assumes "\<forall>j. 0 \<le> random j \<and> random j < 1"
    and "generateLegalMoves (newSearchState gs) = Inr legal"
  shows "\<exists>mv n' k'. findBestMove clock random gs lv forColor budgetOpt n k = Inr (mv, n', k')
           \<and> (if legal = [] then mv = None else \<exists>m\<in>set legal. mv = Some m)"
proof (cases "legal = []")
  case True
  then show ?thesis using assms(2) by (simp add: findBestMove_def Let_def)
next
  case False
  define base where "base = newSearchState gs"
  define cl where "cl = max 1 (min 5 (if lv = 0 then 1 else lv))"
  have gen: "\<forall>m\<in>set legal. genOK base m"
    using generateLegalMoves_Inr_genOK assms(2) by (auto simp: base_def)
  have ep: "epOK base"
    using assms(2)
    by (auto simp: generateLegalMoves_def bindE_Inr_iff base_def
        dest: generatePseudoLegalMoves_Inr_epOK)
  have r: "0 \<le> random k" "random k < 1" using assms(1) by auto
  have cl15: "1 \<le> cl" "cl \<le> 5" by (simp_all add: cl_def)
  show ?thesis
  proof (cases "cl = 1")
    case True
    obtain m k' where "pickLevel1Move random base legal forColor k = Inr (Some m, k')"
      "m \<in> set legal"
      using pickLevel1Move_member [where random = random and k = k, OF gen False r] by blast
    then show ?thesis using assms(2) False True
      by (auto simp: findBestMove_def Let_def base_def [symmetric] cl_def [symmetric])
  next
    case ne1: False
    then have ge2: "cl \<ge> 2" using cl15 by simp
    then have "cl = 2 \<or> cl = 3 \<or> cl = 4 \<or> cl = 5" using cl15 by arith
    then obtain d where d: "depthForLevel cl = Some d" by auto
    obtain m0 rest where l: "legal = m0 # rest" using False by (cases legal) auto
    define c where "c = \<lparr>clk = clock, rnd = random, timeout = Some (case budgetOpt of None \<Rightarrow> 10000 | Some t \<Rightarrow> t),
                         startTime = Some (clock n), rootColor = forColor, level = cl\<rparr>"
    have rc: "\<forall>j. 0 \<le> rnd c j \<and> rnd c j < 1" using assms(1) by (simp add: c_def)
    have "m0 \<in> set legal" using l by simp
    from deepenLoop_member [OF gen False ep rc this, of 1 d
        "case budgetOpt of None \<Rightarrow> 10000 | Some t \<Rightarrow> t" "clock n" "Suc n" k]
    obtain m n' k' where
      "deepenLoop c base legal d (case budgetOpt of None \<Rightarrow> 10000 | Some t \<Rightarrow> t) (clock n) 1
         (Some m0) (Suc n) k = Inr (Some m, n', k')" "m \<in> set legal"
      by auto
    then show ?thesis using assms(2) False ne1 ge2 d l
      by (auto simp: findBestMove_def Let_def base_def [symmetric] cl_def [symmetric]
          progressiveDeepeningSearch_def c_def simp del: depthForLevel.simps)
  qed
qed

lemma squareAttackedBy_fields:
  "board s = board s' \<Longrightarrow> squareAttackedBy s sq col = squareAttackedBy s' sq col"
  by (simp add: squareAttackedBy_def)

lemma movesFrom_fields:
  assumes "board s = board s'" and "activeColor s = activeColor s'"
    and "castlingRights s = castlingRights s'"
  shows "movesFrom s ep f = movesFrom s' ep f"
proof -
  have "generatePawnMoves s f sq fl rk col en ep = generatePawnMoves s' f sq fl rk col en ep"
    for sq fl rk col en
    using assms(1) by (simp add: generatePawnMoves_def Let_def cong: if_cong)
  moreover have "castleSide s k sq en es i1 i2 ks = castleSide s' k sq en es i1 i2 ks"
    for k sq en es i1 i2 ks
    using assms(1) squareAttackedBy_fields [OF assms(1)] by (simp add: castleSide_def Let_def cong: if_cong)
  then have "generateCastlingMoves s k sq col cr = generateCastlingMoves s' k sq col cr"
    for k sq col cr
    using assms(1) squareAttackedBy_fields [OF assms(1)]
    by (simp add: generateCastlingMoves_def Let_def cong: if_cong)
  ultimately show ?thesis
    using assms by (simp add: movesFrom_def Let_def cong: option.case_cong ptype.case_cong if_cong)
qed

lemma leavesKingInCheck_fields:
  assumes "board s = board s'" and "activeColor s = activeColor s'"
    and "castlingRights s = castlingRights s'" and "enPassantTarget s = enPassantTarget s'"
  shows "leavesKingInCheck s m = leavesKingInCheck s' m"
  using assms by (simp add: leavesKingInCheck_def squareAttackedBy_def Let_def cong: option.case_cong if_cong)

lemma generateLegalMoves_fields:
  assumes "board s = board s'" and "activeColor s = activeColor s'"
    and "castlingRights s = castlingRights s'" and "enPassantTarget s = enPassantTarget s'"
  shows "generateLegalMoves s = generateLegalMoves s'"
proof -
  have "movesFrom s ep = movesFrom s' ep" for ep
    using movesFrom_fields [OF assms(1-3)] by (intro ext)
  moreover have "leavesKingInCheck s = leavesKingInCheck s'"
    using leavesKingInCheck_fields [OF assms] by (intro ext)
  ultimately show ?thesis
    using assms(4) by (simp add: generateLegalMoves_def generatePseudoLegalMoves_def)
qed

lemma generateLegalMoves_newSearchState:
  "generateLegalMoves (newSearchState gs) = generateLegalMoves gs"
  by (rule generateLegalMoves_fields) (simp_all add: newSearchState_def cloneBoard_def)

definition startState :: gameState where
  "startState = (case createStarting White of Inr g \<Rightarrow> g | Inl e \<Rightarrow> newGameState None)"

definition startMoves :: "move list" where
  "startMoves =
     map (\<lambda>(f, t). createMove f t (Some (Piece White Knight)) None)
       [(''b1'', ''c3''), (''b1'', ''a3''), (''g1'', ''h3''), (''g1'', ''f3'')]
     @ map (\<lambda>(f, t). createMove f t (Some (Piece White Pawn)) None)
       [(''a2'', ''a3''), (''a2'', ''a4''), (''b2'', ''b3''), (''b2'', ''b4''),
        (''c2'', ''c3''), (''c2'', ''c4''), (''d2'', ''d3''), (''d2'', ''d4''),
        (''e2'', ''e3''), (''e2'', ''e4''), (''f2'', ''f3''), (''f2'', ''f4''),
        (''g2'', ''g3''), (''g2'', ''g4''), (''h2'', ''h3''), (''h2'', ''h4'')]"

lemma startState_moves: "generateLegalMoves startState = Inr startMoves"
  by code_simp

definition lateCtx :: ctx where
  "lateCtx = \<lparr>clk = (\<lambda>n. if n = 0 then 1000 else 5000), rnd = (\<lambda>j. 1 / 2),
              timeout = Some 1, startTime = Some 1000, rootColor = White, level = 4\<rparr>"

definition startSearch :: searchState where
  "startSearch = newSearchState startState"

definition afterFirstMove :: searchState where
  "afterFirstMove =
     (case applyMoveSearch (cloneSearch startSearch) (hd startMoves) White of
        Inr nxt \<Rightarrow> nxt | Inl e \<Rightarrow> startSearch)"

lemma lateCtx_timeUp [simp]:
  "timeUp lateCtx 0 = (False, 1)" "timeUp lateCtx (Suc n) = (True, Suc (Suc n))"
  by (simp_all add: timeUp_def lateCtx_def)

lemma startSearch_moves: "generateLegalMoves startSearch = Inr startMoves"
  by (simp add: startSearch_def generateLegalMoves_newSearchState startState_moves)

lemma startSearch_evaluate: "evaluate startSearch White = 0"
  by code_simp

lemma startSearch_active: "activeColor startSearch = White"
  by code_simp

lemma startSearch_first_move:
  "applyMoveSearch (cloneSearch startSearch) (hd startMoves) White = Inr afterFirstMove"
  by code_simp

lemma minimax_timeout_entry:
  "fst (timeUp c n) \<Longrightarrow> minimax c d s alpha beta mx n = Inr (None, snd (timeUp c n))"
  by (cases d; cases "timeUp c n") simp_all

lemma quiescence_timeout_entry:
  "fst (timeUp c n) \<Longrightarrow> quiescence c s alpha beta sp n = Inr (None, snd (timeUp c n))"
  by (cases "timeUp c n") (simp add: quiescence.simps [of c s alpha beta sp n])

lemma maxLoop_propagates:
  assumes "(if i mod 10 = 0 then timeUp c n else (False, n)) = (False, n1)"
    and "applyMoveSearch (cloneSearch s) m (activeColor s) = Inr nxt"
    and "rec nxt alpha beta False n1 = Inr (None, n2)"
  shows "maxLoop rec c s (m # rest) i v alpha beta n = Inr (None, n2)"
  using assms by simp

lemma minLoop_propagates:
  assumes "(if i mod 10 = 0 then timeUp c n else (False, n)) = (False, n1)"
    and "applyMoveSearch (cloneSearch s) m (activeColor s) = Inr nxt"
    and "rec nxt alpha beta True n1 = Inr (None, n2)"
  shows "minLoop rec c s (m # rest) i v alpha beta n = Inr (None, n2)"
  using assms by simp

lemma rootLoop_stops:
  assumes "timeUp c n = (False, n1)"
    and "applyMoveSearch (cloneSearch s) m (activeColor s) = Inr nxt"
    and "rec nxt alpha beta (\<not> mx) n1 = Inr (None, n2)"
  shows "rootLoop rec c s mx (m # rest) bm bs alpha beta n = Inr (bm, bs, n2)"
  using assms by simp

lemma minimaxLeaf_quiescence_timeout:
  assumes "level c \<ge> 4" and "legalMoves \<noteq> []"
    and "quiescence c s alpha beta (Finite (evaluate s (rootColor c))) n = Inr (None, n1)"
  shows "minimaxLeaf c s 0 alpha beta legalMoves n
         = Inr (Some (Finite (evaluate s (rootColor c))), n1)"
  using assms by (simp add: minimaxLeaf_def)

lemma searchRoot_after_timeout:
  assumes "rootLoop (minimax c d) c s (activeColor s = rootColor c)
             (sortDescending capturedValue legal)
             (case sortDescending capturedValue legal of [] \<Rightarrow> None | m # _ \<Rightarrow> Some m)
             (if activeColor s = rootColor c then MinusInfinity else PlusInfinity)
             MinusInfinity PlusInfinity n = Inr (bm, bs, n1)"
    and "fst (timeUp c n1)"
  shows "searchRoot c s legal (Suc d) n k = Inr (bm, snd (timeUp c n1), k)"
  using assms by (cases "timeUp c n1") (simp add: searchRoot_def Let_def)

lemma quiescenceLoop_sentinel_is_zero:
  assumes "(if i mod 5 = 0 then timeUp c n else (False, n)) = (False, n1)"
    and "applyMoveSearch (cloneSearch s) m (activeColor s) = Inr nxt"
    and "rec nxt (scoreNeg beta) (scoreNeg alpha) (Finite (evaluate nxt (rootColor c))) n1
         = Inr (None, n2)"
  shows "quiescenceLoop rec c s [m] i v alpha beta n
         = Inr (Some (if scoreLess v (Finite 0) then Finite 0 else v), n2)"
  using assms by (simp add: Let_def)

lemma startMoves_sorted: "sortDescending capturedValue startMoves = startMoves"
  by code_simp

lemma startMoves_split: "startMoves = hd startMoves # tl startMoves"
  by (simp add: startMoves_def)

lemma filterE_Inr:
  "filterE f xs = Inr ys \<Longrightarrow> m \<in> set ys \<Longrightarrow> m \<in> set xs \<and> f m = Inr True"
proof (induction xs arbitrary: ys)
  case Nil
  then show ?case by simp
next
  case (Cons x xs)
  from Cons.prems(1) obtain keep zs where
    k: "f x = Inr keep" and z: "filterE f xs = Inr zs"
    and y: "ys = (if keep then x # zs else zs)"
    by (auto simp: bindE_Inr_iff)
  show ?case
  proof (cases "m \<in> set zs")
    case True
    then show ?thesis using Cons.IH [OF z] by simp
  next
    case False
    then have "keep" "m = x" using y Cons.prems(2) by (auto split: if_splits)
    then show ?thesis using k by simp
  qed
qed

section \<open>The game state after a move, a request, a round trip\<close>

subsection \<open>The result rule in the words of the specification\<close>

text \<open>
  The rule for the recomputed result, written from its description: the two flags of the side
  to move, the side that just moved, the halfmove clock, whether some position has occurred
  three times, whether the material is insufficient. The reasons are the strings of the code.
\<close>

definition specResult :: "bool \<Rightarrow> bool \<Rightarrow> color \<Rightarrow> nat \<Rightarrow> bool \<Rightarrow> bool \<Rightarrow> result" where
  "specResult hasLegalMoves inCheck justMoved halfmove repeated insufficient =
     (if \<not> hasLegalMoves \<and> inCheck
      then \<lparr>outcome = Checkmate, winner = Some justMoved, reason = Some ''Checkmate''\<rparr>
      else if \<not> hasLegalMoves
      then \<lparr>outcome = Stalemate, winner = None, reason = Some ''Stalemate''\<rparr>
      else if halfmove \<ge> 100
      then \<lparr>outcome = Draw, winner = None, reason = Some ''50-move rule''\<rparr>
      else if repeated
      then \<lparr>outcome = Draw, winner = None, reason = Some ''Threefold repetition''\<rparr>
      else if insufficient
      then \<lparr>outcome = Draw, winner = None, reason = Some ''Insufficient material''\<rparr>
      else \<lparr>outcome = Ongoing, winner = None, reason = None\<rparr>)"

lemma updateStatusText_fields [simp]:
  "board (updateStatusText g) = board g"
  "activeColor (updateStatusText g) = activeColor g"
  "castlingRights (updateStatusText g) = castlingRights g"
  "enPassantTarget (updateStatusText g) = enPassantTarget g"
  "halfmoveClock (updateStatusText g) = halfmoveClock g"
  "fullmoveNumber (updateStatusText g) = fullmoveNumber g"
  "result (updateStatusText g) = result g"
  "repetitionMap (updateStatusText g) = repetitionMap g"
  by (simp_all add: updateStatusText_def Let_def split: option.splits outcome.splits)

lemma updateResult_spec:
  assumes "\<not> isGameOver g" and "updateResult g = Inr g'"
  shows "\<exists>hasLegal inCheck.
           analyzePosition (asRulesState g) = Inr (hasLegal, inCheck)
           \<and> g' = g\<lparr>result := Some (specResult hasLegal inCheck (oppositeColor (activeColor g))
                                     (halfmoveClock g) (hasThreefoldRepetition g)
                                     (isInsufficientMaterial g))\<rparr>"
proof -
  from assms have ng: "\<not> (case result g of None \<Rightarrow> False | Some r \<Rightarrow> outcome r \<noteq> Ongoing)"
    by (simp add: isGameOver_def)
  from assms(2) ng obtain hasLegal inCheck where
    an: "analyzePosition (asRulesState g) = Inr (hasLegal, inCheck)"
    unfolding updateResult_def by (cases "analyzePosition (asRulesState g)") auto
  have "updateResult g = Inr (g\<lparr>result := Some (specResult hasLegal inCheck
            (oppositeColor (activeColor g)) (halfmoveClock g) (hasThreefoldRepetition g)
            (isInsufficientMaterial g))\<rparr>)"
    unfolding updateResult_def specResult_def using ng an by simp
  then show ?thesis using assms(2) an by simp
qed


lemma recordRepetitionKey_fields [simp]:
  "board (recordRepetitionKey g) = board g"
  "activeColor (recordRepetitionKey g) = activeColor g"
  "castlingRights (recordRepetitionKey g) = castlingRights g"
  "enPassantTarget (recordRepetitionKey g) = enPassantTarget g"
  "halfmoveClock (recordRepetitionKey g) = halfmoveClock g"
  "fullmoveNumber (recordRepetitionKey g) = fullmoveNumber g"
  "result (recordRepetitionKey g) = result g"
  by (simp_all add: recordRepetitionKey_def Let_def)

lemma oppositeColorOf_Some [simp]: "oppositeColorOf (Some col) = oppositeColor col"
  by (cases col) (simp_all add: oppositeColorOf_def)

lemma oppositeColor_twice [simp]: "oppositeColor (oppositeColor col) = col"
  by (cases col) simp_all

text \<open>applyMove once the squares are parsed and the origin holds a piece: the state
  \<open>applyMoveFields\<close> with the position fields updated, then the notation, the repetition
  key, the result and the status text.\<close>

definition applyMoveFields :: "gameState \<Rightarrow> move \<Rightarrow> nat \<Rightarrow> nat \<Rightarrow> piece \<Rightarrow> gameState" where
  "applyMoveFields g m fi ti mp =
     (let b = boardAfter (board g) m fi ti (Some mp) (getColorOf (Some mp)) in
      g\<lparr>board := b,
        activeColor := oppositeColorOf (getColorOf (Some mp)),
        castlingRights := updateCastlingRights (castlingRights g) b m (Some mp),
        enPassantTarget := epAfter (typeOf mp = Pawn) fi ti,
        halfmoveClock :=
          (if typeOf mp = Pawn \<or> (captured m \<noteq> None \<or> isEnPassant m) then 0
           else halfmoveClock g + 1),
        fullmoveNumber :=
          (if getColorOf (Some mp) = Some Black then fullmoveNumber g + 1
           else fullmoveNumber g),
        lastMove := Some (from m, to m)\<rparr>)"

lemma applyMove_unfold:
  assumes "\<not> isGameOver g" and "algebraicToIndex (from m) = Inr fi"
    and "algebraicToIndex (to m) = Inr ti" and "bget (board g) fi = Some mp"
  shows "applyMove g m
      = bindE (toSimpleSAN (applyMoveFields g m fi ti mp) m mp
                 (captured m \<noteq> None \<or> isEnPassant m))
          (\<lambda>san. bindE (updateResult (recordRepetitionKey
               ((applyMoveFields g m fi ti mp)
                  \<lparr>moveHistory := moveHistory (applyMoveFields g m fi ti mp) @ [san],
                   lastMoveText :=
                     Some (showNat (fullmoveNumber (applyMoveFields g m fi ti mp))
                           @ ''. '' @ san)\<rparr>)))
             (\<lambda>g4. Inr (updateStatusText g4)))"
  unfolding applyMove_def applyMoveFields_def Let_def
  using assms by simp

lemma applyMove_Inr_parts:
  assumes "\<not> isGameOver g" and "applyMove g m = Inr g'"
  shows "\<exists>fi ti mp san g4.
           algebraicToIndex (from m) = Inr fi \<and> algebraicToIndex (to m) = Inr ti
           \<and> bget (board g) fi = Some mp
           \<and> updateResult (recordRepetitionKey
               ((applyMoveFields g m fi ti mp)
                  \<lparr>moveHistory := moveHistory (applyMoveFields g m fi ti mp) @ [san],
                   lastMoveText :=
                     Some (showNat (fullmoveNumber (applyMoveFields g m fi ti mp))
                           @ ''. '' @ san)\<rparr>)) = Inr g4
           \<and> g' = updateStatusText g4"
proof -
  from assms obtain fi where fi: "algebraicToIndex (from m) = Inr fi"
    by (cases "algebraicToIndex (from m)") (simp_all add: applyMove_def)
  from assms fi obtain ti where ti: "algebraicToIndex (to m) = Inr ti"
    by (cases "algebraicToIndex (to m)") (simp_all add: applyMove_def)
  from assms fi ti obtain mp where mp: "bget (board g) fi = Some mp"
    by (cases "bget (board g) fi") (simp_all add: applyMove_def)
  note unf = applyMove_unfold [OF assms(1) fi ti mp]
  from assms(2) obtain san where
    san: "toSimpleSAN (applyMoveFields g m fi ti mp) m mp
            (captured m \<noteq> None \<or> isEnPassant m) = Inr san"
    unfolding unf
    by (cases "toSimpleSAN (applyMoveFields g m fi ti mp) m mp
                 (captured m \<noteq> None \<or> isEnPassant m)") simp_all
  from assms(2) obtain g4 where
    "updateResult (recordRepetitionKey
               ((applyMoveFields g m fi ti mp)
                  \<lparr>moveHistory := moveHistory (applyMoveFields g m fi ti mp) @ [san],
                   lastMoveText :=
                     Some (showNat (fullmoveNumber (applyMoveFields g m fi ti mp))
                           @ ''. '' @ san)\<rparr>)) = Inr g4"
    "g' = updateStatusText g4"
    unfolding unf san bindE_simps
    by (cases "updateResult (recordRepetitionKey
               ((applyMoveFields g m fi ti mp)
                  \<lparr>moveHistory := moveHistory (applyMoveFields g m fi ti mp) @ [san],
                   lastMoveText :=
                     Some (showNat (fullmoveNumber (applyMoveFields g m fi ti mp))
                           @ ''. '' @ san)\<rparr>))") simp_all
  with fi ti mp show ?thesis by blast
qed

subsection \<open>applyMove returns on every generated move\<close>

lemma analyzePosition_total: "epOK s \<Longrightarrow> \<exists>r. analyzePosition s = Inr r"
  using generateLegalMoves_total [of s] isInCheck_Inr [of s None]
  by (auto simp: analyzePosition_def)

lemma epAfter_ok:
  assumes "f < 64" and "t < 64"
  shows "epAfter isPawn f t = None \<or> (\<exists>e<64. epAfter isPawn f t = Some (indexToAlgebraic e))"
proof -
  define e where "e = nat ((int (f div 8) + int (t div 8)) div 2 * 8 + int (t mod 8))"
  have "(int (f div 8) + int (t div 8)) div 2 \<le> 7" using assms by simp
  then have "(int (f div 8) + int (t div 8)) div 2 * 8 + int (t mod 8) < 64"
    using assms by simp
  then have "e < 64" by (simp add: e_def)
  then show ?thesis by (auto simp: epAfter_def Let_def e_def)
qed

lemma epOK_applyMoveFields:
  assumes "fi < 64" and "ti < 64"
  shows "epOK (applyMoveFields g m fi ti mp)"
  using epAfter_ok [OF assms, of "typeOf mp = Pawn"]
  by (auto simp: epOK_def applyMoveFields_def Let_def)

lemma toSimpleSAN_total:
  assumes "algebraicToIndex (from m) = Inr fi" and "algebraicToIndex (to m) = Inr ti"
    and "epOK g1"
  shows "\<exists>san. toSimpleSAN g1 m mp cap = Inr san"
proof -
  define rs where "rs = \<lparr>board = boardAfter (board g1) m fi ti (bget (board g1) fi)
                                   (getColorOf (bget (board g1) fi)),
                        activeColor = oppositeColorOf (getColorOf (bget (board g1) fi)),
                        castlingRights = castlingRights g1,
                        enPassantTarget = enPassantTarget g1\<rparr>"
  have ap: "applyMoveInternalForSAN g1 m = Inr rs"
    using assms(1,2) by (simp add: applyMoveInternalForSAN_def Let_def rs_def)
  have "epOK rs" using assms(3) by (simp add: epOK_def rs_def)
  then obtain hl ic where "analyzePosition rs = Inr (hl, ic)"
    using analyzePosition_total by (metis surj_pair)
  then show ?thesis using ap by (simp add: toSimpleSAN_def Let_def)
qed

lemma algebraicToIndex_less: "algebraicToIndex sq = Inr i \<Longrightarrow> i < 64"
  by (auto simp: algebraicToIndex_def frToIndex_def FILES_def Let_def
      split: if_splits option.splits)

lemma applyMove_total:
  assumes "\<not> isGameOver g" and "genOK g m"
  shows "\<exists>g'. applyMove g m = Inr g'"
proof -
  from assms(2) obtain f where f: "f < 64" "bget (board g) f \<noteq> None"
    and sh: "moveShape (board g) (indexToAlgebraic f) (activeColor g) m"
    by (auto simp: genOK_def)
  from moveShape_squares [OF sh] obtain t where fr: "from m = indexToAlgebraic f"
    and t: "t < 64" "to m = indexToAlgebraic t" by auto
  from f(2) obtain mp where mp: "bget (board g) f = Some mp" by auto
  have fi: "algebraicToIndex (from m) = Inr f" and ti: "algebraicToIndex (to m) = Inr t"
    using f(1) t fr by simp_all
  define g1 where "g1 = applyMoveFields g m f t mp"
  have ep1: "epOK g1" unfolding g1_def by (rule epOK_applyMoveFields [OF f(1) t(1)])
  obtain san where san: "toSimpleSAN g1 m mp (captured m \<noteq> None \<or> isEnPassant m) = Inr san"
    using toSimpleSAN_total [OF fi ti ep1] by blast
  define g3 where "g3 = recordRepetitionKey
               (g1\<lparr>moveHistory := moveHistory g1 @ [san],
                   lastMoveText := Some (showNat (fullmoveNumber g1) @ ''. '' @ san)\<rparr>)"
  have "epOK (asRulesState g3)"
    using ep1 by (simp add: epOK_def asRulesState_def g3_def)
  then obtain r where an: "analyzePosition (asRulesState g3) = Inr r"
    using analyzePosition_total by blast
  obtain hl ic where r: "r = (hl, ic)" by (cases r)
  have "\<exists>g4. updateResult g3 = Inr g4"
    unfolding updateResult_def an r by simp
  then obtain g4 where g4: "updateResult g3 = Inr g4" by blast
  have "applyMove g m = Inr (updateStatusText g4)"
    apply (simp only: applyMove_unfold [OF assms(1) fi ti mp] g1_def [symmetric])
    apply (simp only: san bindE_simps)
    apply (simp only: g3_def [symmetric] g4 bindE_simps)
    done
  then show ?thesis by blast
qed

lemma genOK_asRulesState [simp]: "genOK (asRulesState g) m = genOK g m"
  by (simp add: genOK_def asRulesState_def)

text \<open>The test of handlePlayerMove on a candidate legal move.\<close>

definition matchesRequest :: "move \<Rightarrow> move \<Rightarrow> bool" where
  "matchesRequest req m \<longleftrightarrow>
     from m = from req \<and> to m = to req
     \<and> (promotion req = None \<or> promotion m = promotion req)"

lemma handlePlayerMove_unfold:
  assumes "\<not> isGameOver (g_state gm)"
    and "activeColor (g_state gm) = playerColor (g_state gm)"
    and "generateLegalMoves (asRulesState (g_state gm)) = Inr legal"
  shows "handlePlayerMove gm req =
     (case find (matchesRequest req) legal of
        None \<Rightarrow> Inr (gm, \<lparr>success = False, r_move = None, r_error = Some ''Illegal move''\<rparr>)
      | Some validMove \<Rightarrow>
          bindE (applyMove (g_state gm) validMove)
            (\<lambda>g'. Inr (notify (gm\<lparr>g_state := g'\<rparr>),
                        \<lparr>success = True, r_move = Some validMove, r_error = None\<rparr>)))"
proof -
  have "matchesRequest req = (\<lambda>m. from m = from req \<and> to m = to req
                              \<and> (promotion req = None \<or> promotion m = promotion req))"
    by (intro ext) (simp add: matchesRequest_def)
  then show ?thesis using assms by (simp add: handlePlayerMove_def)
qed

subsection \<open>States the program can build\<close>

text \<open>
  The states of the program: those of the constructor (with or without data), of
  createStarting, and of the methods that change a state. Each of them has a fullmove number
  that is not 0, an en-passant target that is not the empty string, and a repetition map
  (a JavaScript \<^verbatim>\<open>Map\<close>) whose keys are distinct.
\<close>

definition stateInv :: "gameState \<Rightarrow> bool" where
  "stateInv g \<longleftrightarrow>
     fullmoveNumber g \<noteq> 0 \<and> enPassantTarget g \<noteq> Some []
     \<and> distinct (map fst (repetitionMap g))"

inductive reachable :: "gameState \<Rightarrow> bool" where
  constructed: "reachable (newGameState data)"
| starting: "createStarting pc = Inr g \<Longrightarrow> reachable g"
| recorded: "reachable g \<Longrightarrow> reachable (recordRepetitionKey g)"
| status: "reachable g \<Longrightarrow> reachable (updateStatusText g)"
| resulted: "reachable g \<Longrightarrow> updateResult g = Inr g' \<Longrightarrow> reachable g'"
| moved: "reachable g \<Longrightarrow> applyMove g m = Inr g' \<Longrightarrow> reachable g'"
| selected: "reachable g \<Longrightarrow> handleSelection g square side = Inr (g', sel) \<Longrightarrow> reachable g'"

lemma mapSet_keys:
  "map fst (mapSet k v m) = (if k \<in> set (map fst m) then map fst m else map fst m @ [k])"
  by (induction m) force+

lemma mapSet_distinct: "distinct (map fst m) \<Longrightarrow> distinct (map fst (mapSet k v m))"
  by (simp add: mapSet_keys)

lemma mapSet_fresh: "k \<notin> set (map fst m) \<Longrightarrow> mapSet k v m = m @ [(k, v)]"
  by (induction m) auto

lemma replay_distinct:
  "distinct (map fst acc)
   \<Longrightarrow> distinct (map fst (foldl (\<lambda>m (k, v). mapSet k v m) acc al))"
  by (induction al arbitrary: acc) (auto simp: mapSet_distinct)

lemma replay_entries:
  "distinct (map fst (acc @ al))
   \<Longrightarrow> foldl (\<lambda>m (k, v). mapSet k v m) acc al = acc @ al"
proof (induction al arbitrary: acc)
  case Nil
  then show ?case by simp
next
  case (Cons kv al)
  obtain k v where kv: "kv = (k, v)" by (cases kv)
  from Cons.prems kv have fresh: "k \<notin> set (map fst acc)" by auto
  from Cons.prems kv have d: "distinct (map fst ((acc @ [(k, v)]) @ al))" by auto
  show ?case using Cons.IH [OF d] by (simp add: kv mapSet_fresh [OF fresh])
qed

lemma indexToAlgebraic_nonempty: "indexToAlgebraic i \<noteq> []"
  by (simp add: indexToAlgebraic_def split: prod.splits)

lemma epAfter_nonempty: "epAfter isPawn f t \<noteq> Some []"
  by (simp add: epAfter_def Let_def indexToAlgebraic_nonempty)

lemma stateInv_newGameState: "stateInv (newGameState data)"
proof (cases data)
  case None
  then show ?thesis by (simp add: stateInv_def newGameState_def)
next
  case (Some d)
  have "distinct (map fst (foldl (\<lambda>m (k, v). mapSet k v m) [] (s_repetitionMap d)))"
    by (rule replay_distinct) simp
  then show ?thesis using Some
    by (simp add: stateInv_def newGameState_def split: option.splits)
qed

lemma stateInv_recordRepetitionKey: "stateInv g \<Longrightarrow> stateInv (recordRepetitionKey g)"
  by (simp add: stateInv_def) (simp add: recordRepetitionKey_def Let_def mapSet_distinct)

lemma stateInv_updateStatusText: "stateInv g \<Longrightarrow> stateInv (updateStatusText g)"
  by (simp add: stateInv_def)

lemma updateResult_keeps:
  assumes "updateResult g = Inr g'"
  shows "\<exists>r. g' = g\<lparr>result := r\<rparr>"
proof (cases "isGameOver g")
  case True
  then have "updateResult g = Inr g" by (simp add: updateResult_def isGameOver_def)
  with assms have "g' = g\<lparr>result := result g\<rparr>" by simp
  then show ?thesis by blast
next
  case False
  from updateResult_spec [OF False assms] show ?thesis by blast
qed

lemma stateInv_updateResult:
  assumes "stateInv g" and "updateResult g = Inr g'"
  shows "stateInv g'"
proof -
  from updateResult_keeps [OF assms(2)] obtain r where "g' = g\<lparr>result := r\<rparr>" by blast
  then show ?thesis using assms(1) by (simp add: stateInv_def)
qed

lemma stateInv_createStarting:
  assumes "createStarting pc = Inr g"
  shows "stateInv g"
proof (cases createStartingBoard)
  case (Inl e)
  show ?thesis using assms unfolding createStarting_def Inl by simp
next
  case (Inr b)
  define g0 where "g0 = (newGameState None)
                   \<lparr>board := b, activeColor := White, castlingRights := startingRights,
                    enPassantTarget := None, halfmoveClock := 0, fullmoveNumber := 1,
                    playerColor := pc, moveHistory := [], result := None,
                    lastMove := None, repetitionMap := []\<rparr>"
  have g: "g = updateStatusText (recordRepetitionKey g0)"
    using assms unfolding createStarting_def g0_def Inr by simp
  have "stateInv g0" by (simp add: stateInv_def g0_def)
  then show ?thesis unfolding g
    by (simp only: stateInv_updateStatusText stateInv_recordRepetitionKey)
qed

lemma stateInv_applyMoveFields:
  "stateInv g \<Longrightarrow> stateInv (applyMoveFields g m fi ti mp)"
  by (simp add: stateInv_def applyMoveFields_def Let_def epAfter_nonempty)

lemma stateInv_applyMove:
  assumes "stateInv g" and "applyMove g m = Inr g'"
  shows "stateInv g'"
proof (cases "isGameOver g")
  case True
  then have "applyMove g m = Inr g" by (simp add: applyMove_def)
  with assms show ?thesis by simp
next
  case False
  from applyMove_Inr_parts [OF False assms(2)] obtain fi ti mp san g4 where
    u: "updateResult (recordRepetitionKey
               ((applyMoveFields g m fi ti mp)
                  \<lparr>moveHistory := moveHistory (applyMoveFields g m fi ti mp) @ [san],
                   lastMoveText :=
                     Some (showNat (fullmoveNumber (applyMoveFields g m fi ti mp))
                           @ ''. '' @ san)\<rparr>)) = Inr g4"
    and g': "g' = updateStatusText g4" by blast
  have "stateInv ((applyMoveFields g m fi ti mp)
                  \<lparr>moveHistory := moveHistory (applyMoveFields g m fi ti mp) @ [san],
                   lastMoveText :=
                     Some (showNat (fullmoveNumber (applyMoveFields g m fi ti mp))
                           @ ''. '' @ san)\<rparr>)"
    using stateInv_applyMoveFields [OF assms(1), of m fi ti mp] by (simp add: stateInv_def)
  then have "stateInv g4"
    using u stateInv_updateResult stateInv_recordRepetitionKey by blast
  then show ?thesis unfolding g' by (rule stateInv_updateStatusText)
qed

lemma handleSelection_cases:
  assumes "handleSelection g square side = Inr (g', sel)"
  shows "(\<exists>s c. g' = g\<lparr>selectedSquare := s, cachedLegalTargets := c\<rparr>)
         \<or> (\<exists>mv g''. applyMove g mv = Inr g''
               \<and> g' = g''\<lparr>selectedSquare := None, cachedLegalTargets := []\<rparr>)"
proof -
  have same: "\<exists>s c. g = g\<lparr>selectedSquare := s, cachedLegalTargets := c\<rparr>"
    by (rule exI [of _ "selectedSquare g"], rule exI [of _ "cachedLegalTargets g"]) simp
  show ?thesis
  proof (cases "isGameOver g \<or> side \<noteq> activeColor g")
    case True
    have "g' = g"
    proof (cases "isGameOver g")
      case True
      then show ?thesis using assms by (simp add: handleSelection_def)
    next
      case False
      with True have "side \<noteq> activeColor g" by simp
      then show ?thesis using assms False by (simp add: handleSelection_def)
    qed
    then show ?thesis using same by simp
  next
    case False
    then obtain pc where pc: "getPiece g square = Inr pc"
      using assms by (cases "getPiece g square") (auto simp: handleSelection_def)
    show ?thesis
    proof (cases "pc \<noteq> None \<and> getColorOf pc = Some side")
      case True
      then show ?thesis using assms False pc
        by (cases "generateLegalMoves (asRulesState g)")
          (auto simp: handleSelection_def Let_def)
    next
      case own: False
      show ?thesis
      proof (cases "selectedSquare g")
        case None
        then have "g' = g" using assms False pc own by (auto simp: handleSelection_def)
        then show ?thesis using same by simp
      next
        case (Some sq)
        show ?thesis
        proof (cases "sq = []")
          case True
          then have "g' = g" using assms False pc own Some by (auto simp: handleSelection_def)
          then show ?thesis using same by simp
        next
          case ne: False
          from assms False pc own Some ne obtain allLegal where
            al: "generateLegalMoves (asRulesState g) = Inr allLegal"
            by (cases "generateLegalMoves (asRulesState g)") (auto simp: handleSelection_def)
          show ?thesis
          proof (cases "find (\<lambda>m. from m = sq \<and> to m = square) allLegal")
            case None
            then have "g' = g\<lparr>selectedSquare := None, cachedLegalTargets := []\<rparr>"
              using assms False pc own Some ne al by (auto simp: handleSelection_def)
            then show ?thesis by blast
          next
            case (Some mv)
            from assms False pc own \<open>selectedSquare g = Some sq\<close> ne al Some
            obtain g'' where "applyMove g mv = Inr g''"
              and "g' = g''\<lparr>selectedSquare := None, cachedLegalTargets := []\<rparr>"
              by (cases "applyMove g mv") (auto simp: handleSelection_def)
            then show ?thesis by blast
          qed
        qed
      qed
    qed
  qed
qed

lemma stateInv_handleSelection:
  assumes "stateInv g" and "handleSelection g square side = Inr (g', sel)"
  shows "stateInv g'"
  using handleSelection_cases [OF assms(2)]
proof (elim disjE exE conjE)
  fix s c assume "g' = g\<lparr>selectedSquare := s, cachedLegalTargets := c\<rparr>"
  then show ?thesis using assms(1) by (simp add: stateInv_def)
next
  fix mv g'' assume a: "applyMove g mv = Inr g''"
    and b: "g' = g''\<lparr>selectedSquare := None, cachedLegalTargets := []\<rparr>"
  from stateInv_applyMove [OF assms(1) a] show ?thesis unfolding b by (simp add: stateInv_def)
qed

lemma reachable_stateInv: "reachable g \<Longrightarrow> stateInv g"
proof (induction rule: reachable.induct)
  case (constructed data)
  show ?case by (rule stateInv_newGameState)
next
  case (starting pc g)
  then show ?case by (rule stateInv_createStarting)
next
  case (recorded g)
  then show ?case by (simp add: stateInv_recordRepetitionKey)
next
  case (status g)
  then show ?case by (simp add: stateInv_updateStatusText)
next
  case (resulted g g')
  then show ?case using stateInv_updateResult by blast
next
  case (moved g m g')
  then show ?case using stateInv_applyMove by blast
next
  case (selected g square side g' sel)
  then show ?case using stateInv_handleSelection by blast
qed

section \<open>Concrete positions used below\<close>

definition twoBishops :: rulesState where
  "twoBishops =
     \<lparr>board = emptyBoard[4 := Some (Piece White King), 2 := Some (Piece White Bishop),
                         5 := Some (Piece White Bishop), 60 := Some (Piece Black King)],
      activeColor = Black, castlingRights = \<lparr>white = \<lparr>kingSide = False, queenSide = False\<rparr>,
         black = \<lparr>kingSide = False, queenSide = False\<rparr>\<rparr>, enPassantTarget = None\<rparr>"

definition noKings :: rulesState where
  "noKings =
     \<lparr>board = emptyBoard, activeColor = White, castlingRights = startingRights,
      enPassantTarget = None\<rparr>"

definition wonGame :: gameState where
  "wonGame = (newGameState None)
     \<lparr>result := Some \<lparr>outcome = Checkmate, winner = Some Black, reason = Some ''Checkmate''\<rparr>\<rparr>"

text \<open>King and queen against king: the queen move g1-g7 mates.\<close>

definition mateState :: gameState where
  "mateState = (newGameState None)
     \<lparr>board := emptyBoard[45 := Some (Piece White King), 6 := Some (Piece White Queen),
                          63 := Some (Piece Black King)],
      castlingRights := \<lparr>white = \<lparr>kingSide = False, queenSide = False\<rparr>,
                          black = \<lparr>kingSide = False, queenSide = False\<rparr>\<rparr>\<rparr>"

definition mateMove :: move where
  "mateMove = createMove ''g1'' ''g7'' (Some (Piece White Queen)) None"

definition afterMate :: gameState where
  "afterMate = (case applyMove mateState mateMove of Inr g \<Rightarrow> g | Inl e \<Rightarrow> mateState)"

lemma mateState_legal: "list_ex (\<lambda>m. m = mateMove) (case generateLegalMoves mateState of Inr ms \<Rightarrow> ms | Inl e \<Rightarrow> [])"
  by code_simp

lemma mateState_applyMove:
  "map_sum id (\<lambda>g. (result g, moveHistory g, activeColor g, halfmoveClock g))
     (applyMove mateState mateMove)
   = Inr (Some \<lparr>outcome = Checkmate, winner = Some White, reason = Some ''Checkmate''\<rparr>,
          [''Qg7''], Black, 1)"
  by code_simp


lemma mateState_applyMove_Inr: "applyMove mateState mateMove = Inr afterMate"
  using mateState_applyMove
  by (cases "applyMove mateState mateMove") (simp_all add: afterMate_def)

lemma mateState_ongoing: "\<not> isGameOver mateState"
  by (simp add: isGameOver_def mateState_def newGameState_def)

text \<open>A white pawn on a7 with the two kings on their home squares, White to move and
  playing; the request a7-a8 without a promotion piece, the same request for a rook, and a
  request for a move that is not legal.\<close>

definition promoGame :: game where
  "promoGame =
     \<lparr>g_state = (newGameState None)
        \<lparr>board := emptyBoard[4 := Some (Piece White King), 60 := Some (Piece Black King),
                             48 := Some (Piece White Pawn)],
         castlingRights := \<lparr>white = \<lparr>kingSide = False, queenSide = False\<rparr>,
                             black = \<lparr>kingSide = False, queenSide = False\<rparr>\<rparr>\<rparr>,
      g_difficulty = 3\<rparr>"

definition promoLegal :: "move list" where
  "promoLegal =
     map (\<lambda>t. createMove ''e1'' t (Some (Piece White King)) None)
       [''d1'', ''d2'', ''e2'', ''f1'', ''f2'']
     @ map (\<lambda>p. createPromotionMove ''a7'' ''a8'' (Some (Piece White Pawn)) p None)
       [Queen, Rook, Bishop, Knight]"

definition promoRequest :: move where
  "promoRequest = createMove ''a7'' ''a8'' None None"

definition rookRequest :: move where
  "rookRequest = createPromotionMove ''a7'' ''a8'' None Rook None"

definition badRequest :: move where
  "badRequest = createMove ''a7'' ''b8'' None None"

lemma promoGame_legal:
  "generateLegalMoves (asRulesState (g_state promoGame)) = Inr promoLegal"
  by code_simp

lemma promoGame_ongoing: "\<not> isGameOver (g_state promoGame)"
  by (simp add: isGameOver_def promoGame_def newGameState_def)

lemma promoGame_turn: "activeColor (g_state promoGame) = playerColor (g_state promoGame)"
  by (simp add: promoGame_def newGameState_def)

lemma badRequest_no_match: "list_all (\<lambda>m. \<not> matchesRequest badRequest m) promoLegal"
  by (simp add: promoLegal_def badRequest_def matchesRequest_def createMove_def
      createPromotionMove_def)

lemma rookRequest_match: "list_ex (matchesRequest rookRequest) promoLegal"
  by (simp add: promoLegal_def rookRequest_def matchesRequest_def createMove_def
      createPromotionMove_def)

text \<open>The starting position after the pawn move e2-e4.\<close>

definition pawnMove :: move where
  "pawnMove = createMove ''e2'' ''e4'' (Some (Piece White Pawn)) None"

definition afterPawnMove :: gameState where
  "afterPawnMove = (case applyMove startState pawnMove of Inr g \<Rightarrow> g | Inl e \<Rightarrow> startState)"

lemma startState_created: "createStarting White = Inr startState"
  by code_simp

lemma startState_applyMove:
  "map_sum id (\<lambda>g. (enPassantTarget g, fullmoveNumber g, map snd (repetitionMap g),
                     moveHistory g))
     (applyMove startState pawnMove) = Inr (Some ''e3'', 1, [1, 1], [''e4''])"
  by code_simp

lemma startState_applyMove_Inr: "applyMove startState pawnMove = Inr afterPawnMove"
  using startState_applyMove
  by (cases "applyMove startState pawnMove") (simp_all add: afterPawnMove_def)

lemma afterPawnMove_reachable: "reachable afterPawnMove"
  using reachable.starting [OF startState_created] startState_applyMove_Inr
  by (rule reachable.moved)

lemma evaluateStep_opposite:
  "evaluateStep b (oppositeColor c) (- s) i = - evaluateStep b c s i"
proof (cases "bget b i")
  case None
  then show ?thesis by (simp add: evaluateStep_def)
next
  case (Some p)
  obtain pc t where p: "p = Piece pc t" by (cases p)
  show ?thesis using Some p
    by (cases c; cases pc) (simp_all add: evaluateStep_def Let_def)
qed

lemma evaluate_fold_opposite:
  "foldl (evaluateStep b (oppositeColor c)) (- s) xs = - foldl (evaluateStep b c) s xs"
proof (induction xs arbitrary: s)
  case Nil
  show ?case by simp
next
  case (Cons i xs)
  have "foldl (evaluateStep b (oppositeColor c)) (- s) (i # xs)
        = foldl (evaluateStep b (oppositeColor c)) (- evaluateStep b c s i) xs"
    by (simp add: evaluateStep_opposite)
  also have "\<dots> = - foldl (evaluateStep b c) (evaluateStep b c s i) xs"
    by (rule Cons.IH)
  finally show ?case by simp
qed

section \<open>The claims\<close>

text \<open>
  C1. For every position, difficulty level and time budget, and for every sequence of clock
  readings and of random draws in [0, 1), findBestMove returns: it returns \<open>None\<close>
  (\<^verbatim>\<open>null\<close>) when the position has no legal move, and a member of the legal-move list
  otherwise.
\<close>

theorem findBestMove_returns_legal_move:
  assumes "\<forall>j. 0 \<le> random j \<and> random j < 1"
    and "generateLegalMoves gs = Inr legal"
  shows "\<exists>mv n' k'. findBestMove clock random gs lv forColor budgetOpt n k = Inr (mv, n', k')
           \<and> (if legal = [] then mv = None else \<exists>m\<in>set legal. mv = Some m)"
  using assms findBestMove_member [of random gs legal clock lv forColor budgetOpt n k]
  by (simp add: generateLegalMoves_newSearchState)

theorem findBestMove_returns_legal_move_witness:
  "(\<forall>j::nat. (0::real) \<le> 1 / 2 \<and> (1::real) / 2 < 1)
   \<and> generateLegalMoves startState = Inr startMoves
   \<and> (\<exists>mv n' k'. findBestMove (\<lambda>n. 1000 + int n) (\<lambda>j. 1 / 2) startState 5 White (Some 1) 0 0
                     = Inr (mv, n', k')
                   \<and> (\<exists>m\<in>set startMoves. mv = Some m))"
proof -
  have r: "\<forall>j::nat. (0::real) \<le> (\<lambda>j. 1 / 2) j \<and> (\<lambda>j. 1 / 2) j < (1::real)" by simp
  have ne: "startMoves \<noteq> []" by (simp add: startMoves_def)
  from findBestMove_returns_legal_move [OF r startState_moves,
      of "\<lambda>n. 1000 + int n" 5 White "Some 1" 0 0] ne
  show ?thesis using startState_moves by simp
qed

text \<open>
  C4, as the code has it. The sentinel is \<open>None\<close>, which is no score. A minimax or
  quiescence call that finds the budget exceeded at its entry returns the sentinel; a
  minimax loop that receives the sentinel from its child returns it at once, and the root
  loop that receives it stops with its best move, best score and bounds as they were; a
  minimax call whose quiescence extension returns the sentinel returns its stand-pat score
  instead; and a root whose clock is still over budget after the loop returns the best move
  found so far.
\<close>

theorem timeout_sentinel_by_design:
  "(fst (timeUp c n) \<longrightarrow> minimax c d s alpha beta mx n = Inr (None, snd (timeUp c n)))
   \<and> (fst (timeUp c n) \<longrightarrow> quiescence c s alpha beta sp n = Inr (None, snd (timeUp c n)))
   \<and> ((if i mod 10 = 0 then timeUp c j else (False, j)) = (False, ja)
        \<longrightarrow> applyMoveSearch (cloneSearch s) m (activeColor s) = Inr nxt
        \<longrightarrow> rec nxt alpha beta False ja = Inr (None, jb)
        \<longrightarrow> maxLoop rec c s (m # rest) i v alpha beta j = Inr (None, jb))
   \<and> ((if i mod 10 = 0 then timeUp c j else (False, j)) = (False, ja)
        \<longrightarrow> applyMoveSearch (cloneSearch s) m (activeColor s) = Inr nxt
        \<longrightarrow> rec nxt alpha beta True ja = Inr (None, jb)
        \<longrightarrow> minLoop rec c s (m # rest) i v alpha beta j = Inr (None, jb))
   \<and> (timeUp c j = (False, ja)
        \<longrightarrow> applyMoveSearch (cloneSearch s) m (activeColor s) = Inr nxt
        \<longrightarrow> rec nxt alpha beta (\<not> mx) ja = Inr (None, jb)
        \<longrightarrow> rootLoop rec c s mx (m # rest) bm bs alpha beta j = Inr (bm, bs, jb))
   \<and> (level c \<ge> 4 \<longrightarrow> legalMoves \<noteq> []
        \<longrightarrow> quiescence c s alpha beta (Finite (evaluate s (rootColor c))) n = Inr (None, na)
        \<longrightarrow> minimaxLeaf c s 0 alpha beta legalMoves n
            = Inr (Some (Finite (evaluate s (rootColor c))), na))
   \<and> (rootLoop (minimax c d) c s (activeColor s = rootColor c)
          (sortDescending capturedValue legalMoves)
          (case sortDescending capturedValue legalMoves of [] \<Rightarrow> None | x # _ \<Rightarrow> Some x)
          (if activeColor s = rootColor c then MinusInfinity else PlusInfinity)
          MinusInfinity PlusInfinity n = Inr (bm, bs, na)
        \<longrightarrow> fst (timeUp c na)
        \<longrightarrow> searchRoot c s legalMoves (Suc d) n k = Inr (bm, snd (timeUp c na), k))"
  using minimax_timeout_entry [of c n d s alpha beta mx]
    quiescence_timeout_entry [of c n s alpha beta sp]
    maxLoop_propagates [of i c j ja s m nxt rec alpha beta jb rest v]
    minLoop_propagates [of i c j ja s m nxt rec alpha beta jb rest v]
    rootLoop_stops [of c j ja s m nxt rec alpha beta mx jb rest bm bs]
    minimaxLeaf_quiescence_timeout [of c legalMoves s alpha beta n na]
    searchRoot_after_timeout [of c d s legalMoves n bm bs na k]
  by blast

theorem timeout_sentinel_by_design_witness:
  "minimax lateCtx 1 startSearch MinusInfinity PlusInfinity True 1 = Inr (None, 2)
   \<and> quiescence lateCtx startSearch MinusInfinity PlusInfinity (Finite 0) 1 = Inr (None, 2)
   \<and> maxLoop (minimax lateCtx 1) lateCtx startSearch startMoves 0 MinusInfinity
        MinusInfinity PlusInfinity 0 = Inr (None, 2)
   \<and> minLoop (minimax lateCtx 1) lateCtx startSearch startMoves 0 MinusInfinity
        MinusInfinity PlusInfinity 0 = Inr (None, 2)
   \<and> rootLoop (minimax lateCtx 1) lateCtx startSearch True startMoves
        (Some (hd startMoves)) MinusInfinity MinusInfinity PlusInfinity 0
      = Inr (Some (hd startMoves), MinusInfinity, 2)
   \<and> minimaxLeaf lateCtx startSearch 0 MinusInfinity PlusInfinity startMoves 1
      = Inr (Some (Finite 0), 2)
   \<and> searchRoot lateCtx startSearch startMoves 2 1 0 = Inr (Some (hd startMoves), 3, 0)"
proof -
  have t1: "fst (timeUp lateCtx 1)" and t2: "fst (timeUp lateCtx 2)"
    and s1: "snd (timeUp lateCtx 1) = 2" and s2: "snd (timeUp lateCtx 2) = 3"
    using lateCtx_timeUp(2) [of 0] lateCtx_timeUp(2) [of 1]
    by (simp_all add: numeral_2_eq_2 numeral_3_eq_3)
  have t0: "(if (0::nat) mod 10 = 0 then timeUp lateCtx 0 else (False, 0)) = (False, 1)"
    and t0': "timeUp lateCtx 0 = (False, 1)"
    by simp_all
  have ap: "applyMoveSearch (cloneSearch startSearch) (hd startMoves) (activeColor startSearch)
            = Inr afterFirstMove"
    using startSearch_first_move by (simp add: startSearch_active)
  have ch: "minimax lateCtx 1 afterFirstMove MinusInfinity PlusInfinity mx 1 = Inr (None, 2)" for mx
    using minimax_timeout_entry [OF t1] by (simp add: s1)
  have lv: "level lateCtx \<ge> 4" and rc: "rootColor lateCtx = White"
    by (simp_all add: lateCtx_def)
  have ne: "startMoves \<noteq> []" by (simp add: startMoves_def)
  have q: "quiescence lateCtx startSearch MinusInfinity PlusInfinity
             (Finite (evaluate startSearch (rootColor lateCtx))) 1 = Inr (None, 2)"
    using quiescence_timeout_entry [OF t1] by (simp add: s1)
  have first: "(case startMoves of [] \<Rightarrow> None | x # _ \<Rightarrow> Some x) = Some (hd startMoves)"
    by (simp add: startMoves_def)
  have rl: "rootLoop (minimax lateCtx 1) lateCtx startSearch
              (activeColor startSearch = rootColor lateCtx)
              (sortDescending capturedValue startMoves)
              (case sortDescending capturedValue startMoves of [] \<Rightarrow> None | x # _ \<Rightarrow> Some x)
              (if activeColor startSearch = rootColor lateCtx then MinusInfinity else PlusInfinity)
              MinusInfinity PlusInfinity 1 = Inr (Some (hd startMoves), MinusInfinity, 2)"
    unfolding startMoves_sorted first startSearch_active rc
    by (subst startMoves_split) (simp add: numeral_2_eq_2)
  note th = timeout_sentinel_by_design [where c = lateCtx and n = 1 and d = 1
      and s = startSearch and alpha = MinusInfinity and beta = PlusInfinity and mx = True
      and i = 0 and j = 0 and ja = 1 and jb = 2 and m = "hd startMoves"
      and rest = "tl startMoves" and nxt = afterFirstMove and rec = "minimax lateCtx 1"
      and v = MinusInfinity and bm = "Some (hd startMoves)" and bs = MinusInfinity
      and legalMoves = startMoves and na = 2 and sp = "Finite 0" and k = 0]
  show ?thesis
    using th t1 t2 s1 s2 t0 t0' ap ch lv ne q rl startMoves_split
    by (simp add: rc startSearch_evaluate numeral_2_eq_2 numeral_3_eq_3)
qed

text \<open>
  C4 as stated fails: in the starting position at level 4, with the budget exceeded between
  the entry of minimax and the entry of its quiescence extension, quiescence returns the
  sentinel and minimax, its caller, returns the score 0 and not the sentinel.
\<close>

theorem timeout_minimax_returns_score_counterexample:
  "quiescence lateCtx startSearch MinusInfinity PlusInfinity (Finite 0) 1 = Inr (None, 2)
   \<and> minimax lateCtx 0 startSearch MinusInfinity PlusInfinity True 0 = Inr (Some (Finite 0), 2)"
proof -
  have q: "quiescence lateCtx startSearch MinusInfinity PlusInfinity (Finite 0) 1 = Inr (None, 2)"
    using quiescence_timeout_entry [of lateCtx "Suc 0" startSearch MinusInfinity PlusInfinity "Finite 0"]
    by (simp add: numeral_2_eq_2)
  have ne: "startMoves \<noteq> []" by (simp add: startMoves_def)
  have lv: "level lateCtx \<ge> 4" "rootColor lateCtx = White" by (simp_all add: lateCtx_def)
  have "minimaxLeaf lateCtx startSearch 0 MinusInfinity PlusInfinity startMoves 1
        = Inr (Some (Finite 0), 2)"
    using minimaxLeaf_quiescence_timeout [OF lv(1) ne, of startSearch MinusInfinity PlusInfinity 1 2]
      q by (simp add: lv(2) startSearch_evaluate)
  then have "minimax lateCtx 0 startSearch MinusInfinity PlusInfinity True 0
             = Inr (Some (Finite 0), 2)"
    by (simp add: startSearch_moves)
  with q show ?thesis by simp
qed

text \<open>
  C5 at the failing input: two white bishops and the two kings. isInsufficientMaterial is
  true there, although the two bishops are on the same side.
\<close>

theorem isInsufficientMaterial_two_bishops_one_side:
  "isInsufficientMaterial twoBishops = True"
  by code_simp

text \<open>
  C9, as the code has it. isInCheck never fails: it returns false when no king of the colour
  is on the board, and otherwise whether the square of the first such king is attacked by
  the other colour.
\<close>

theorem isInCheck_total:
  "isInCheck s ov =
     (let col = (case ov of Some col \<Rightarrow> col | None \<Rightarrow> activeColor s) in
      case find (\<lambda>i. bget (board s) i = Some (Piece col King)) [0..<64] of
        None \<Rightarrow> Inr False
      | Some i \<Rightarrow> Inr (attackedAt (board s) i (oppositeColor col)))"
  by (rule isInCheck_value)

text \<open>C9 as stated fails: on the empty board isInCheck answers false, an ordinary boolean.\<close>

theorem isInCheck_no_king_counterexample:
  "isInCheck noKings (Some White) = Inr False"
  by code_simp

text \<open>
  C2. Every move of generateLegalMoves names two squares, and on the scratch board of
  leavesKingInCheck for that move the king of the side to move is present and its square is
  not attacked by the other colour.
\<close>

theorem generateLegalMoves_king_safe:
  assumes "generateLegalMoves s = Inr ms" and "m \<in> set ms"
  shows "\<exists>fi ti ki.
           algebraicToIndex (from m) = Inr fi \<and> algebraicToIndex (to m) = Inr ti
           \<and> find (\<lambda>i. bget (scratchBoard (board s) m fi ti) i
                          = Some (Piece (activeColor s) King)) [0..<64] = Some ki
           \<and> \<not> attackedAt (scratchBoard (board s) m fi ti) ki (oppositeColor (activeColor s))"
proof -
  from assms obtain ps where
    "filterE (\<lambda>m. bindE (leavesKingInCheck s m) (\<lambda>lv. Inr (\<not> lv))) ps = Inr ms"
    by (auto simp: generateLegalMoves_def bindE_Inr_iff)
  from filterE_Inr [OF this assms(2)]
  have lv: "leavesKingInCheck s m = Inr False"
    by (auto simp: bindE_Inr_iff)
  then obtain fi ti where fi: "algebraicToIndex (from m) = Inr fi"
    and ti: "algebraicToIndex (to m) = Inr ti"
    by (auto simp: leavesKingInCheck_def bindE_Inr_iff)
  define cb where "cb = scratchBoard (board s) m fi ti"
  have kc: "(if activeColor s = White then Piece White King else Piece Black King)
            = Piece (activeColor s) King"
    by (cases "activeColor s") simp_all
  show ?thesis
  proof (cases "find (\<lambda>i. bget cb i = Some (Piece (activeColor s) King)) [0..<64]")
    case None
    then have "leavesKingInCheck s m = Inr True"
      using fi ti by (simp add: leavesKingInCheck_def findKingSquare_def Let_def kc cb_def)
    with lv show ?thesis by simp
  next
    case (Some ki)
    then have "ki < 64" using find_upt_less by blast
    then have "leavesKingInCheck s m
               = Inr (attackedAt cb ki (oppositeColor (activeColor s)))"
      using fi ti Some
      by (simp add: leavesKingInCheck_def findKingSquare_def Let_def kc cb_def
          squareAttackedBy_def algebraicToIndex_indexToAlgebraic)
    with lv have "\<not> attackedAt cb ki (oppositeColor (activeColor s))" by simp
    with fi ti Some show ?thesis unfolding cb_def by blast
  qed
qed

theorem generateLegalMoves_king_safe_witness:
  "generateLegalMoves startState = Inr startMoves \<and> hd startMoves \<in> set startMoves
   \<and> (\<exists>fi ti ki.
          algebraicToIndex (from (hd startMoves)) = Inr fi
          \<and> algebraicToIndex (to (hd startMoves)) = Inr ti
          \<and> find (\<lambda>i. bget (scratchBoard (board startState) (hd startMoves) fi ti) i
                         = Some (Piece (activeColor startState) King)) [0..<64] = Some ki
          \<and> \<not> attackedAt (scratchBoard (board startState) (hd startMoves) fi ti) ki
                (oppositeColor (activeColor startState)))"
proof -
  have m: "hd startMoves \<in> set startMoves" by (simp add: startMoves_def)
  from generateLegalMoves_king_safe [OF startState_moves m] startState_moves m
  show ?thesis by blast
qed

text \<open>
  C6. Once the result is not ongoing, applyMove returns the state unchanged, handleSelection
  makes no move and leaves the state unchanged, and updateResult leaves the state (and so the
  result) unchanged.
\<close>

theorem terminal_state_immutable:
  assumes "isGameOver g"
  shows "applyMove g m = Inr g
         \<and> handleSelection g square side
             = Inr (g, \<lparr>moved = False, sel_selectedSquare = None, legalTargets = []\<rparr>)
         \<and> updateResult g = Inr g"
  using assms by (simp add: applyMove_def handleSelection_def updateResult_def isGameOver_def)

theorem terminal_state_immutable_witness:
  "isGameOver wonGame
   \<and> applyMove wonGame (createMove ''e2'' ''e4'' None None) = Inr wonGame
   \<and> handleSelection wonGame ''e2'' White
       = Inr (wonGame, \<lparr>moved = False, sel_selectedSquare = None, legalTargets = []\<rparr>)
   \<and> updateResult wonGame = Inr wonGame"
proof -
  have h: "isGameOver wonGame" by (simp add: isGameOver_def wonGame_def)
  show ?thesis using h terminal_state_immutable [OF h] by simp
qed

text \<open>
  C10. The static evaluation is antisymmetric in the requested perspective: the score for a
  colour is the negation of the score for the opposite colour. It holds for every board, so
  in particular for every 64-entry board.
\<close>

theorem evaluate_antisymmetric:
  "evaluate state color = - evaluate state (oppositeColor color)"
proof -
  have "foldl (evaluateStep (board state) (oppositeColor color)) (- 0) [0..<64]
        = - foldl (evaluateStep (board state) color) 0 [0..<64]"
    by (rule evaluate_fold_opposite)
  then show ?thesis by (simp add: evaluate_def)
qed

text \<open>
  C3. After applyMove on a state that is not over, the side to move is the opponent of the
  side that just moved, and the stored result is the one the rule gives for that side to
  move: no legal move and in check is checkmate won by the side that just moved, no legal
  move and no check is stalemate, and otherwise, in this order, a halfmove clock of at least
  100 is a draw by the fifty-move rule, a position counted three times is a draw by
  repetition, insufficient material is a draw, and else the game is ongoing.
\<close>

theorem applyMove_result:
  assumes "\<not> isGameOver g" and "applyMove g m = Inr g'"
  shows "\<exists>fromIndex mover hasLegal inCheck.
           algebraicToIndex (from m) = Inr fromIndex
           \<and> getColorOf (bget (board g) fromIndex) = Some mover
           \<and> activeColor g' = oppositeColor mover
           \<and> analyzePosition (asRulesState g') = Inr (hasLegal, inCheck)
           \<and> result g' = Some (specResult hasLegal inCheck mover (halfmoveClock g')
                                 (hasThreefoldRepetition g') (isInsufficientMaterial g'))"
proof -
  from applyMove_Inr_parts [OF assms] obtain fi ti mp san g4 where
    fi: "algebraicToIndex (from m) = Inr fi" and mp: "bget (board g) fi = Some mp"
    and ur: "updateResult (recordRepetitionKey
               ((applyMoveFields g m fi ti mp)
                  \<lparr>moveHistory := moveHistory (applyMoveFields g m fi ti mp) @ [san],
                   lastMoveText :=
                     Some (showNat (fullmoveNumber (applyMoveFields g m fi ti mp))
                           @ ''. '' @ san)\<rparr>)) = Inr g4"
    and g': "g' = updateStatusText g4"
    by blast
  obtain mover ty where pc: "mp = Piece mover ty" by (cases mp)
  define g3 where "g3 = recordRepetitionKey
               ((applyMoveFields g m fi ti mp)
                  \<lparr>moveHistory := moveHistory (applyMoveFields g m fi ti mp) @ [san],
                   lastMoveText :=
                     Some (showNat (fullmoveNumber (applyMoveFields g m fi ti mp))
                           @ ''. '' @ san)\<rparr>)"
  have res3: "result g3 = result g" and act3: "activeColor g3 = oppositeColor mover"
    by (simp_all add: g3_def applyMoveFields_def Let_def pc)
  have ng3: "\<not> isGameOver g3" using assms(1) res3 by (simp add: isGameOver_def)
  from updateResult_spec [OF ng3 ur [folded g3_def]] obtain hasLegal inCheck where
    an: "analyzePosition (asRulesState g3) = Inr (hasLegal, inCheck)"
    and g4: "g4 = g3\<lparr>result := Some (specResult hasLegal inCheck (oppositeColor (activeColor g3))
                                     (halfmoveClock g3) (hasThreefoldRepetition g3)
                                     (isInsufficientMaterial g3))\<rparr>"
    by blast
  have same: "asRulesState g' = asRulesState g3" "halfmoveClock g' = halfmoveClock g3"
    "hasThreefoldRepetition g' = hasThreefoldRepetition g3"
    "isInsufficientMaterial g' = isInsufficientMaterial g3"
    "activeColor g' = oppositeColor mover"
    by (simp_all add: g' g4 asRulesState_def hasThreefoldRepetition_def
        isInsufficientMaterial_def act3)
  have res: "result g' = Some (specResult hasLegal inCheck mover (halfmoveClock g3)
                                 (hasThreefoldRepetition g3) (isInsufficientMaterial g3))"
    by (simp add: g' g4 act3)
  have col: "getColorOf (bget (board g) fi) = Some mover" by (simp add: mp pc)
  show ?thesis
    using fi col same an res by (intro exI [of _ fi] exI [of _ mover] exI [of _ hasLegal]
        exI [of _ inCheck]) simp
qed

theorem applyMove_result_witness:
  "\<not> isGameOver mateState \<and> applyMove mateState mateMove = Inr afterMate
   \<and> (\<exists>fromIndex mover hasLegal inCheck.
         algebraicToIndex (from mateMove) = Inr fromIndex
         \<and> getColorOf (bget (board mateState) fromIndex) = Some mover
         \<and> activeColor afterMate = oppositeColor mover
         \<and> analyzePosition (asRulesState afterMate) = Inr (hasLegal, inCheck)
         \<and> result afterMate
             = Some (specResult hasLegal inCheck mover (halfmoveClock afterMate)
                       (hasThreefoldRepetition afterMate) (isInsufficientMaterial afterMate)))"
  using applyMove_result [OF mateState_ongoing mateState_applyMove_Inr]
    mateState_ongoing mateState_applyMove_Inr by blast

text \<open>
  C7, as the code has it. While the game is ongoing and it is the player's turn, a request
  is matched against the legal moves of the position by its squares, and by its promotion
  piece only when the request names one. A request that matches no legal move is rejected
  with the error and the game is returned unchanged; a request that matches is accepted, the
  first legal move that matches is applied, and an accepted request always reports a legal
  move that matches.
\<close>

theorem handlePlayerMove_exact_match:
  assumes "\<not> isGameOver (g_state gm)"
    and "activeColor (g_state gm) = playerColor (g_state gm)"
    and "generateLegalMoves (asRulesState (g_state gm)) = Inr legal"
  shows "((\<forall>m\<in>set legal. \<not> matchesRequest bad m)
            \<longrightarrow> handlePlayerMove gm bad
                = Inr (gm, \<lparr>success = False, r_move = None, r_error = Some ''Illegal move''\<rparr>))
         \<and> ((\<exists>m\<in>set legal. matchesRequest req m)
            \<longrightarrow> (\<exists>g' m. m \<in> set legal \<and> matchesRequest req m
                    \<and> find (matchesRequest req) legal = Some m
                    \<and> applyMove (g_state gm) m = Inr g'
                    \<and> handlePlayerMove gm req
                      = Inr (notify (gm\<lparr>g_state := g'\<rparr>),
                             \<lparr>success = True, r_move = Some m, r_error = None\<rparr>)))
         \<and> (\<forall>gm' resp. handlePlayerMove gm req = Inr (gm', resp) \<longrightarrow> success resp
            \<longrightarrow> (\<exists>m\<in>set legal. r_move resp = Some m \<and> matchesRequest req m))"
proof (intro conjI impI allI)
  assume "\<forall>m\<in>set legal. \<not> matchesRequest bad m"
  then have "find (matchesRequest bad) legal = None" by (simp add: find_None_iff)
  then show "handlePlayerMove gm bad
             = Inr (gm, \<lparr>success = False, r_move = None, r_error = Some ''Illegal move''\<rparr>)"
    by (simp add: handlePlayerMove_unfold [OF assms])
next
  assume "\<exists>m\<in>set legal. matchesRequest req m"
  then obtain m where m: "find (matchesRequest req) legal = Some m"
    by (cases "find (matchesRequest req) legal") (auto simp: find_None_iff)
  then have in_legal: "m \<in> set legal" and ok: "matchesRequest req m"
    by (auto simp: find_Some_iff)
  have "genOK (g_state gm) m"
    using generateLegalMoves_Inr_genOK [OF assms(3) in_legal] by simp
  from applyMove_total [OF assms(1) this] obtain g' where
    g': "applyMove (g_state gm) m = Inr g'" by blast
  show "\<exists>g' m. m \<in> set legal \<and> matchesRequest req m
          \<and> find (matchesRequest req) legal = Some m
          \<and> applyMove (g_state gm) m = Inr g'
          \<and> handlePlayerMove gm req
            = Inr (notify (gm\<lparr>g_state := g'\<rparr>),
                   \<lparr>success = True, r_move = Some m, r_error = None\<rparr>)"
    using m in_legal ok g' by (auto simp: handlePlayerMove_unfold [OF assms])
next
  fix gm' resp
  assume h: "handlePlayerMove gm req = Inr (gm', resp)" and s: "success resp"
  show "\<exists>m\<in>set legal. r_move resp = Some m \<and> matchesRequest req m"
  proof (cases "find (matchesRequest req) legal")
    case None
    then show ?thesis using h s by (auto simp: handlePlayerMove_unfold [OF assms])
  next
    case (Some m)
    then have "m \<in> set legal" "matchesRequest req m" by (auto simp: find_Some_iff)
    moreover have "r_move resp = Some m"
      using h Some
      by (cases "applyMove (g_state gm) m") (auto simp: handlePlayerMove_unfold [OF assms])
    ultimately show ?thesis by blast
  qed
qed

theorem handlePlayerMove_exact_match_witness:
  "\<not> isGameOver (g_state promoGame)
   \<and> activeColor (g_state promoGame) = playerColor (g_state promoGame)
   \<and> generateLegalMoves (asRulesState (g_state promoGame)) = Inr promoLegal
   \<and> list_all (\<lambda>m. \<not> matchesRequest badRequest m) promoLegal
   \<and> handlePlayerMove promoGame badRequest
       = Inr (promoGame, \<lparr>success = False, r_move = None, r_error = Some ''Illegal move''\<rparr>)
   \<and> list_ex (matchesRequest rookRequest) promoLegal
   \<and> (\<exists>g' m. m \<in> set promoLegal \<and> matchesRequest rookRequest m
          \<and> find (matchesRequest rookRequest) promoLegal = Some m
          \<and> applyMove (g_state promoGame) m = Inr g'
          \<and> handlePlayerMove promoGame rookRequest
              = Inr (notify (promoGame\<lparr>g_state := g'\<rparr>),
                     \<lparr>success = True, r_move = Some m, r_error = None\<rparr>))"
proof -
  note th = handlePlayerMove_exact_match [OF promoGame_ongoing promoGame_turn promoGame_legal,
      of badRequest rookRequest]
  have a: "\<forall>m\<in>set promoLegal. \<not> matchesRequest badRequest m"
    using badRequest_no_match by (simp add: list_all_iff)
  have b: "\<exists>m\<in>set promoLegal. matchesRequest rookRequest m"
    using rookRequest_match by (simp add: list_ex_iff)
  from th a b promoGame_ongoing promoGame_turn promoGame_legal badRequest_no_match
    rookRequest_match
  show ?thesis by blast
qed

text \<open>
  C7 as stated fails: with a white pawn on a7, the request a7-a8 that names no promotion
  piece is accepted, and the move made is the promotion to a queen.
\<close>

theorem handlePlayerMove_default_promotion_counterexample:
  "\<not> isGameOver (g_state promoGame)
   \<and> activeColor (g_state promoGame) = playerColor (g_state promoGame)
   \<and> promotion promoRequest = None
   \<and> map_sum id (\<lambda>(gm', r). (success r, map_option promotion (r_move r)))
         (handlePlayerMove promoGame promoRequest) = Inr (True, Some (Some Queen))"
  by code_simp

text \<open>
  C8. For every state the program can build, the state reconstructed from its serialized
  form has the same board, active colour, player colour, castling rights, en-passant target,
  halfmove clock, fullmove number, move history, result, last move and repetition map.
\<close>

theorem serialize_round_trip:
  assumes "reachable g"
  shows "board (newGameState (Some (serialize g))) = board g
       \<and> activeColor (newGameState (Some (serialize g))) = activeColor g
       \<and> playerColor (newGameState (Some (serialize g))) = playerColor g
       \<and> castlingRights (newGameState (Some (serialize g))) = castlingRights g
       \<and> enPassantTarget (newGameState (Some (serialize g))) = enPassantTarget g
       \<and> halfmoveClock (newGameState (Some (serialize g))) = halfmoveClock g
       \<and> fullmoveNumber (newGameState (Some (serialize g))) = fullmoveNumber g
       \<and> moveHistory (newGameState (Some (serialize g))) = moveHistory g
       \<and> result (newGameState (Some (serialize g))) = result g
       \<and> lastMove (newGameState (Some (serialize g))) = lastMove g
       \<and> repetitionMap (newGameState (Some (serialize g))) = repetitionMap g"
proof -
  from reachable_stateInv [OF assms] have fm: "fullmoveNumber g \<noteq> 0"
    and ep: "enPassantTarget g \<noteq> Some []"
    and d: "distinct (map fst ([] @ repetitionMap g))"
    by (simp_all add: stateInv_def)
  have rep: "foldl (\<lambda>m (k, v). mapSet k v m) [] (repetitionMap g) = repetitionMap g"
    using replay_entries [OF d] by simp
  show ?thesis using fm ep rep
    by (simp add: newGameState_def serialize_def split: option.splits)
qed

theorem serialize_round_trip_witness:
  "reachable afterPawnMove
   \<and> board (newGameState (Some (serialize afterPawnMove))) = board afterPawnMove
   \<and> activeColor (newGameState (Some (serialize afterPawnMove))) = activeColor afterPawnMove
   \<and> playerColor (newGameState (Some (serialize afterPawnMove))) = playerColor afterPawnMove
   \<and> castlingRights (newGameState (Some (serialize afterPawnMove)))
       = castlingRights afterPawnMove
   \<and> enPassantTarget (newGameState (Some (serialize afterPawnMove)))
       = enPassantTarget afterPawnMove
   \<and> halfmoveClock (newGameState (Some (serialize afterPawnMove))) = halfmoveClock afterPawnMove
   \<and> fullmoveNumber (newGameState (Some (serialize afterPawnMove)))
       = fullmoveNumber afterPawnMove
   \<and> moveHistory (newGameState (Some (serialize afterPawnMove))) = moveHistory afterPawnMove
   \<and> result (newGameState (Some (serialize afterPawnMove))) = result afterPawnMove
   \<and> lastMove (newGameState (Some (serialize afterPawnMove))) = lastMove afterPawnMove
   \<and> repetitionMap (newGameState (Some (serialize afterPawnMove)))
       = repetitionMap afterPawnMove"
  using serialize_round_trip [OF afterPawnMove_reachable] afterPawnMove_reachable by simp

end
